(* ===== verification/TCSA_Prelude.thy ===== *)
theory TCSA_Prelude
  imports Complex_Main "HOL-Library.List_Lexorder" "HOL-Library.Char_ord" "HOL-Library.Product_Lexorder"
    "HOL-Library.Multiset"
begin

text \<open>
  Shared vocabulary of the TCSA development: the Python built-ins the analysis code
  (\<^verbatim>\<open>src/filtering.py\<close>) relies on, given the semantics CPython gives them, and the
  generic list lemmas the component theories share.
  \<^item> \<open>py_error\<close>: the exceptions the modelled code can raise, as values;
  \<^item> \<open>py_slice\<close>: \<open>xs[a:b]\<close> with CPython's clamping of negative and large bounds;
  \<^item> \<open>py_split\<close>, \<open>py_split_sep\<close>, \<open>py_join\<close>: \<open>str.split()\<close>, \<open>str.split(sep)\<close>
    and \<open>sep.join(xs)\<close> (HOL strings are byte lists, so only the ASCII whitespace of
    \<open>str.isspace\<close> is modelled);
  \<^item> \<open>py_contains\<close>: substring search, which is what \<open>Series.str.contains\<close> does for
    a pattern without regular-expression metacharacters;
  \<^item> \<open>sort_len_desc\<close>: \<open>xs.sort(key=len, reverse=True)\<close>, a stable sort by descending
    length (CPython keeps the original order of equal keys also with \<open>reverse=True\<close>);
  \<^item> \<open>before xs a b\<close>: \<open>a\<close> occurs in \<open>xs\<close> at an earlier position than \<open>b\<close>;
    the sweep proofs use it to talk about the order of processed events.
  Python strings compare lexicographically by code point; with \<open>List_Lexorder\<close> and
  \<open>Char_ord\<close> the order \<open>\<le>\<close> on \<open>string\<close> is that comparison (on bytes).
\<close>

named_theorems py_simps "evaluation rules of the modelled Python built-ins"

datatype py_error = IndexError | KeyError | ValueError | ZeroDivisionError | UnboundLocalError
  | AssertionError | UndefinedEvent

subsection \<open>Slicing\<close>

definition py_index :: "nat \<Rightarrow> int \<Rightarrow> nat" where
  "py_index n i = (if i < 0 then nat (max 0 (int n + i)) else min (nat i) n)"

definition py_slice :: "'a list \<Rightarrow> int \<Rightarrow> int \<Rightarrow> 'a list" where
  "py_slice xs a b =
     (let n = length xs; a' = py_index n a; b' = py_index n b
      in take (b' - a') (drop a' xs))"

lemma py_slice_prefix [py_simps]:
  "0 \<le> k \<Longrightarrow> py_slice xs 0 k = take (nat k) xs"
  by (simp add: py_slice_def py_index_def Let_def min_def)

lemma py_slice_nonneg:
  "0 \<le> a \<Longrightarrow> 0 \<le> b \<Longrightarrow> py_slice xs a b =
     take (min (nat b) (length xs) - min (nat a) (length xs)) (drop (min (nat a) (length xs)) xs)"
  by (simp add: py_slice_def py_index_def Let_def)

lemma py_slice_neg_stop:
  "b < 0 \<Longrightarrow> py_slice xs 0 b = take (nat (int (length xs) + b)) xs"
  by (simp add: py_slice_def py_index_def Let_def max_def)

lemma py_slice_all [py_simps]:
  "py_slice xs 0 (int (length xs)) = xs"
  by (simp add: py_slice_def py_index_def)

subsection \<open>Splitting and joining strings\<close>

definition py_isspace :: "char \<Rightarrow> bool" where
  "py_isspace c \<longleftrightarrow> of_char c \<in> {9, 10, 11, 12, 13, 28, 29, 30, 31, 32 :: nat}"

lemma length_dropWhile_not_space_less:
  "t \<noteq> [] \<Longrightarrow> \<not> py_isspace (hd t) \<Longrightarrow>
   length (dropWhile (Not \<circ> py_isspace) t) < length t"
  by (cases t) (auto simp: less_Suc_eq_le length_dropWhile_le)

function py_split :: "string \<Rightarrow> string list" where
  "py_split s =
     (let t = dropWhile py_isspace s
      in if t = [] then []
         else takeWhile (Not \<circ> py_isspace) t # py_split (dropWhile (Not \<circ> py_isspace) t))"
  by pat_completeness auto
termination
proof (relation "measure length")
  fix s t
  assume t: "t = dropWhile py_isspace s" and ne: "t \<noteq> []"
  from t ne have "\<not> py_isspace (hd t)"
    by (metis hd_dropWhile)
  with ne have "length (dropWhile (Not \<circ> py_isspace) t) < length t"
    by (rule length_dropWhile_not_space_less)
  moreover from t have "length t \<le> length s"
    by (simp add: length_dropWhile_le)
  ultimately show "(dropWhile (Not \<circ> py_isspace) t, s) \<in> measure length"
    by simp
qed simp

declare py_split.simps [simp del]

fun py_split_sep :: "char \<Rightarrow> string \<Rightarrow> string list" where
  "py_split_sep d [] = [[]]"
| "py_split_sep d (c # cs) =
     (if c = d then [] # py_split_sep d cs
      else (let r = py_split_sep d cs in (c # hd r) # tl r))"

fun py_join :: "string \<Rightarrow> string list \<Rightarrow> string" where
  "py_join sep [] = []"
| "py_join sep [x] = x"
| "py_join sep (x # y # zs) = x @ sep @ py_join sep (y # zs)"

fun py_contains :: "string \<Rightarrow> string \<Rightarrow> bool" where
  "py_contains [] p = (p = [])"
| "py_contains (c # cs) p = (take (length p) (c # cs) = p \<or> py_contains cs p)"

text \<open>\<open>s.startswith(p)\<close> and \<open>s.replace(old, new)\<close>: the replacement scans left to right and
  replaces non-overlapping occurrences; an empty \<open>old\<close> inserts \<open>new\<close> around every character.\<close>

definition starts_with :: "string \<Rightarrow> string \<Rightarrow> bool" where
  "starts_with p s = (take (length p) s = p)"

fun py_replace_aux :: "string \<Rightarrow> string \<Rightarrow> string \<Rightarrow> string" where
  "py_replace_aux old new [] = []"
| "py_replace_aux old new (c # cs) =
     (if old \<noteq> [] \<and> starts_with old (c # cs)
      then new @ py_replace_aux old new (drop (length old) (c # cs))
      else c # py_replace_aux old new cs)"

definition py_replace :: "string \<Rightarrow> string \<Rightarrow> string \<Rightarrow> string" where
  "py_replace old new s =
     (if old = [] then new @ concat (map (\<lambda>c. c # new) s) else py_replace_aux old new s)"

lemma py_replace_single:
  "py_replace [a] r s = concat (map (\<lambda>x. if x = a then r else [x]) s)"
proof -
  have "py_replace_aux [a] r s = concat (map (\<lambda>x. if x = a then r else [x]) s)"
    by (induction s) (auto simp add: starts_with_def)
  then show ?thesis by (simp add: py_replace_def)
qed

lemma py_isspace_blank [simp, py_simps]: "py_isspace (CHR '' '')"
  by (simp add: py_isspace_def)

lemma py_split_space_Cons:
  "py_isspace c \<Longrightarrow> py_split (c # s) = py_split s"
  by (simp add: py_split.simps [of "c # s"] py_split.simps [of s])

lemma py_split_word_append:
  assumes "w \<noteq> []" and "\<forall>c\<in>set w. \<not> py_isspace c"
    and "s = [] \<or> py_isspace (hd s)"
  shows "py_split (w @ s) = w # py_split s"
proof -
  from assms(1,2) have d: "dropWhile py_isspace (w @ s) = w @ s"
    by (cases w) auto
  from assms(2,3) have t: "takeWhile (Not \<circ> py_isspace) (w @ s) = w"
    by (cases s) (auto simp: takeWhile_append2)
  from assms(2,3) have r: "dropWhile (Not \<circ> py_isspace) (w @ s) = s"
    by (cases s) (auto simp: dropWhile_append2)
  from assms(1) d t r show ?thesis
    by (simp add: py_split.simps [of "w @ s"])
qed

text \<open>Splitting a space-joined list of words gives the words back.\<close>

definition py_word :: "string \<Rightarrow> bool" where
  "py_word w \<longleftrightarrow> w \<noteq> [] \<and> (\<forall>c\<in>set w. \<not> py_isspace c)"

lemma py_split_word [simp]: "py_word w \<Longrightarrow> py_split w = [w]"
  using py_split_word_append [of w "[]"]
  by (simp add: py_word_def py_split.simps [of "[]"])

lemma py_split_join:
  "\<forall>w\<in>set ws. py_word w \<Longrightarrow> py_split (py_join '' '' ws) = ws"
proof (induction ws rule: induct_list012)
  case 1
  then show ?case by (simp add: py_split.simps)
next
  case (3 x y zs)
  then show ?case
    using py_split_word_append [of x "'' '' @ py_join '' '' (y # zs)"]
    by (simp add: py_word_def py_split_space_Cons)
qed simp

lemma py_split_join_append:
  "ws \<noteq> [] \<Longrightarrow> \<forall>w\<in>set ws. py_word w \<Longrightarrow> s = [] \<or> py_isspace (hd s) \<Longrightarrow>
   py_split (py_join '' '' ws @ s) = ws @ py_split s"
proof (induction ws rule: induct_list012)
  case (2 x)
  then show ?case using py_split_word_append [of x s] by (simp add: py_word_def)
next
  case (3 x y zs)
  then have "py_split (py_join '' '' (y # zs) @ s) = (y # zs) @ py_split s" by simp
  then show ?case
    using 3 py_split_word_append [of x "'' '' @ py_join '' '' (y # zs) @ s"]
    by (simp add: py_word_def py_split_space_Cons)
qed simp

lemma py_split_spaces: "\<forall>c\<in>set s. py_isspace c \<Longrightarrow> py_split s = []"
  by (simp add: py_split.simps [of s])

lemma py_split_sep_nonempty [simp]: "py_split_sep d s \<noteq> []"
  by (induction s) (auto simp: Let_def)

subsection \<open>Indexing, searching and reading lines\<close>

text \<open>\<open>xs[i]\<close> for an integer \<open>i\<close>: negative indices count from the end, and an index
  outside the list raises \<open>IndexError\<close>.\<close>

definition py_getitem :: "'a list \<Rightarrow> int \<Rightarrow> py_error + 'a" where
  "py_getitem xs i =
     (let n = int (length xs)
      in if - n \<le> i \<and> i < n then Inr (xs ! nat (if i < 0 then n + i else i)) else Inl IndexError)"

text \<open>\<open>s.rfind(c)\<close> for a one-character string: the last index of \<open>c\<close>, or \<open>-1\<close>.\<close>

fun rfind_acc :: "char \<Rightarrow> int \<Rightarrow> int \<Rightarrow> string \<Rightarrow> int" where
  "rfind_acc c i r [] = r"
| "rfind_acc c i r (x # xs) = rfind_acc c (i + 1) (if x = c then i else r) xs"

definition py_rfind :: "char \<Rightarrow> string \<Rightarrow> int" where
  "py_rfind c s = rfind_acc c 0 (-1) s"

text \<open>\<open>f.readlines()\<close> on the decoded text (newlines already translated to \<open>\n\<close>): every
  line keeps its newline, the last one only if the text ends with one.\<close>

fun readlines_acc :: "string \<Rightarrow> string \<Rightarrow> string list" where
  "readlines_acc cur [] = (if cur = [] then [] else [cur])"
| "readlines_acc cur (c # cs) =
     (if c = CHR 0x0A then (cur @ [c]) # readlines_acc [] cs else readlines_acc (cur @ [c]) cs)"

definition py_readlines :: "string \<Rightarrow> string list" where
  "py_readlines s = readlines_acc [] s"

lemma concat_readlines_acc: "concat (readlines_acc cur s) = cur @ s"
  by (induction cur s rule: readlines_acc.induct) auto

lemma concat_py_readlines [simp]: "concat (py_readlines s) = s"
  by (simp add: py_readlines_def concat_readlines_acc)

lemma readlines_acc_lines:
  "xs = readlines_acc cur s \<Longrightarrow> cur = [] \<or> CHR 0x0A \<notin> set cur \<Longrightarrow>
   list_all (\<lambda>l. l \<noteq> [] \<and> CHR 0x0A \<notin> set (butlast l)) xs"
  by (induction cur s arbitrary: xs rule: readlines_acc.induct) (auto split: if_splits dest: in_set_butlastD)

lemma rfind_acc_append:
  "rfind_acc c i r (xs @ ys) = rfind_acc c (i + int (length xs)) (rfind_acc c i r xs) ys"
  by (induction xs arbitrary: i r) (simp_all add: algebra_simps)

lemma rfind_acc_absent: "c \<notin> set ys \<Longrightarrow> rfind_acc c i r ys = r"
  by (induction ys arbitrary: i r) auto

lemma py_rfind_last:
  "c \<notin> set ys \<Longrightarrow> py_rfind c (xs @ c # ys) = int (length xs)"
  by (simp add: py_rfind_def rfind_acc_append rfind_acc_absent)

lemma readlines_acc_line:
  "CHR 0x0A \<notin> set b \<Longrightarrow>
   readlines_acc cur (b @ CHR 0x0A # rest) = (cur @ b @ [CHR 0x0A]) # readlines_acc [] rest"
  by (induction b arbitrary: cur) auto

lemma py_readlines_lines:
  "list_all (\<lambda>l. \<exists>b. l = b @ [CHR 0x0A] \<and> CHR 0x0A \<notin> set b) ls \<Longrightarrow>
   py_readlines (concat ls) = ls"
proof (induction ls)
  case (Cons l ls)
  then obtain b where "l = b @ [CHR 0x0A]" "CHR 0x0A \<notin> set b" by auto
  with Cons show ?case by (simp add: py_readlines_def readlines_acc_line)
qed (simp add: py_readlines_def)

lemma py_getitem_nonneg [py_simps]:
  "0 \<le> i \<Longrightarrow> py_getitem xs i = (if nat i < length xs then Inr (xs ! nat i) else Inl IndexError)"
  by (auto simp add: py_getitem_def Let_def)

text \<open>A loop, or \<open>Series.apply\<close>, that calls a raising function on every element
  stops at the first exception.\<close>

text \<open>Sequencing of two steps that may raise: the first exception ends the run.\<close>

definition py_then :: "'e + 'a \<Rightarrow> ('a \<Rightarrow> 'e + 'b) \<Rightarrow> 'e + 'b" where
  "py_then r f = (case r of Inl e \<Rightarrow> Inl e | Inr a \<Rightarrow> f a)"

lemma py_then_simps [simp]: "py_then (Inl e) f = Inl e" "py_then (Inr a) f = f a"
  by (simp_all add: py_then_def)

fun py_map_all :: "('a \<Rightarrow> py_error + 'b) \<Rightarrow> 'a list \<Rightarrow> py_error + 'b list" where
  "py_map_all f [] = Inr []"
| "py_map_all f (x # xs) =
     (case f x of
        Inl e \<Rightarrow> Inl e
      | Inr y \<Rightarrow> (case py_map_all f xs of Inl e \<Rightarrow> Inl e | Inr ys \<Rightarrow> Inr (y # ys)))"

lemma py_map_all_Inr:
  "list_all (\<lambda>x. \<not> isl (f x)) xs \<Longrightarrow> py_map_all f xs = Inr (map (\<lambda>x. projr (f x)) xs)"
  by (induction xs) (auto split: sum.split)

lemma py_map_all_Inl:
  "list_ex (\<lambda>x. isl (f x)) xs \<Longrightarrow> py_map_all f xs = Inl (projl (f (hd (filter (\<lambda>x. isl (f x)) xs))))"
  by (induction xs) (auto split: sum.split)

lemma py_then_not_isl: "\<not> isl x \<Longrightarrow> py_then x f = f (projr x)"
  by (cases x) simp_all

lemma isl_py_then_Inr: "isl (py_then x (\<lambda>a. Inr (h a))) = isl x"
  by (cases x) simp_all

lemma py_map_all_Inr_D: "py_map_all f xs = Inr ys \<Longrightarrow> list_all2 (\<lambda>x y. f x = Inr y) xs ys"
  by (induction xs arbitrary: ys) (auto split: sum.splits)

lemma py_map_all_Inr_all:
  assumes "py_map_all g xs = Inr ys" "list_all P xs" "\<And>x y. g x = Inr y \<Longrightarrow> P x \<Longrightarrow> Q y"
  shows "list_all Q ys"
  using py_map_all_Inr_D[OF assms(1)] assms(2,3)
  by (induction xs ys rule: list_all2_induct) auto

lemma py_map_all_isl: "isl (py_map_all f xs) \<longleftrightarrow> list_ex (\<lambda>x. isl (f x)) xs"
  by (induction xs) (auto split: sum.split)

lemma py_map_all_error:
  assumes "\<And>x e. f x = Inl e \<Longrightarrow> e = err"
  shows "py_map_all f xs = Inl e \<Longrightarrow> e = err"
  using assms by (induction xs) (auto split: sum.splits)

subsection \<open>Stable sort by descending length\<close>

definition sort_len_desc :: "'a list list \<Rightarrow> 'a list list" where
  "sort_len_desc xs = sort_key (\<lambda>w. - int (length w)) xs"

lemma mset_sort_len_desc [simp]: "mset (sort_len_desc xs) = mset xs"
  by (simp add: sort_len_desc_def mset_sort)

lemma set_sort_len_desc [simp]: "set (sort_len_desc xs) = set xs"
  by (simp add: sort_len_desc_def)

lemma length_sort_len_desc [simp]: "length (sort_len_desc xs) = length xs"
  by (simp add: sort_len_desc_def)

lemma sort_len_desc_sorted:
  "sorted_wrt (\<lambda>a b. length b \<le> length a) (sort_len_desc xs)"
proof -
  have "sorted (map (\<lambda>w. - int (length w)) (sort_key (\<lambda>w. - int (length w)) xs))"
    by (rule sorted_sort_key)
  then show ?thesis
    by (simp add: sort_len_desc_def sorted_map sorted_wrt_mono_rel)
qed

subsection \<open>Generic list facts\<close>

lemma sorted_wrt_concat_last_hd:
  assumes "sorted_wrt R (concat gs)" and "\<forall>g\<in>set gs. g \<noteq> []"
  shows "sorted_wrt (\<lambda>g h. R (last g) (hd h)) gs"
  using assms
proof (induction gs)
  case (Cons g gs)
  then have "\<forall>h\<in>set gs. R (last g) (hd h)"
    by (auto simp: sorted_wrt_append)
  with Cons show ?case
    by (simp add: sorted_wrt_append)
qed simp

lemma sorted_wrt_concat_elem:
  "sorted_wrt R (concat xss) \<Longrightarrow> xs \<in> set xss \<Longrightarrow> sorted_wrt R xs"
  by (induction xss) (auto simp: sorted_wrt_append)

lemma sorted_wrt_hd_last:
  assumes "sorted_wrt R xs" and "2 \<le> length xs"
  shows "R (hd xs) (last xs)"
proof -
  from assms(2) have "0 < length xs - 1" and "length xs - 1 < length xs" by simp_all
  with assms(1) have "R (xs ! 0) (xs ! (length xs - 1))"
    by (rule sorted_wrt_nth_less)
  moreover from assms(2) have "xs \<noteq> []" by auto
  ultimately show ?thesis
    by (simp add: hd_conv_nth last_conv_nth)
qed

lemma sorted_wrt_map_enumerate:
  assumes "\<And>i j x y. S x y \<Longrightarrow> R (f i x) (f j y)" and "sorted_wrt S xs"
  shows "sorted_wrt R (map (case_prod f) (enumerate n xs))"
  using assms(2)
proof (induction xs arbitrary: n)
  case (Cons x xs)
  have "\<forall>p\<in>set (enumerate (Suc n) xs). R (f n x) (case_prod f p)"
  proof
    fix p
    assume "p \<in> set (enumerate (Suc n) xs)"
    then have "snd p \<in> set xs"
      unfolding enumerate_eq_zip by (metis prod.collapse set_zip_rightD)
    with Cons.prems have "S x (snd p)" by simp
    then show "R (f n x) (case_prod f p)"
      by (cases p) (simp add: assms(1))
  qed
  with Cons show ?case by simp
qed simp

lemma sorted_wrt_distinct_cases:
  assumes "sorted_wrt R xs" and "a \<in> set xs" and "b \<in> set xs" and "a \<noteq> b"
  shows "R a b \<or> R b a"
proof -
  from assms(2,3) obtain i j where "i < length xs" "xs ! i = a" "j < length xs" "xs ! j = b"
    by (auto simp: in_set_conv_nth)
  with assms(1,4) show ?thesis
    by (metis linorder_neqE_nat sorted_wrt_nth_less)
qed

lemma sum_list_map_concat:
  "sum_list (map f (concat xss)) = sum_list (map (\<lambda>xs. sum_list (map f xs)) xss)"
  by (induction xss) simp_all

lemma sum_list_filter_partition:
  assumes "distinct ks" and "set (map f xs) \<subseteq> set ks"
  shows "sum_list (map (\<lambda>k. length (filter (\<lambda>x. f x = k) xs)) ks) = length xs"
  using assms(2)
proof (induction xs)
  case Nil
  then show ?case by simp
next
  case (Cons x xs)
  have "sum_list (map (\<lambda>k. length (filter (\<lambda>y. f y = k) (x # xs))) ks) =
      sum_list (map (\<lambda>k. (if f x = k then 1 else 0) + length (filter (\<lambda>y. f y = k) xs)) ks)"
    by (rule arg_cong [where f = sum_list]) auto
  also have "\<dots> = sum_list (map (\<lambda>k. if f x = k then 1 else 0) ks) +
      sum_list (map (\<lambda>k. length (filter (\<lambda>y. f y = k) xs)) ks)"
    by (simp add: sum_list_addf)
  also have "sum_list (map (\<lambda>k. if f x = k then 1 else (0::nat)) ks) = 1"
    using assms(1) Cons.prems by (simp add: sum_list_distinct_conv_sum_set)
  finally show ?case
    using Cons by simp
qed

subsection \<open>Order of occurrence in a list\<close>

definition before :: "'a list \<Rightarrow> 'a \<Rightarrow> 'a \<Rightarrow> bool" where
  "before xs a b \<longleftrightarrow> (\<exists>i j. i < j \<and> j < length xs \<and> xs ! i = a \<and> xs ! j = b)"

lemma before_append:
  assumes "a \<in> set P" and "b \<in> set S"
  shows "before (P @ S) a b"
proof -
  from assms obtain i j where i: "i < length P" "P ! i = a" and j: "j < length S" "S ! j = b"
    by (auto simp: in_set_conv_nth)
  then have "i < length P + j" and "length P + j < length (P @ S)"
    and "(P @ S) ! i = a" and "(P @ S) ! (length P + j) = b"
    by (auto simp: nth_append)
  then show ?thesis
    unfolding before_def by blast
qed

lemma before_asym:
  assumes "distinct xs" and "before xs a b"
  shows "\<not> before xs b a"
proof
  assume "before xs b a"
  with assms obtain i j k l where
    "i < j" "j < length xs" "xs ! i = a" "xs ! j = b"
    "k < l" "l < length xs" "xs ! k = b" "xs ! l = a"
    by (auto simp: before_def)
  with assms(1) have "i = l" and "j = k"
    by (auto simp: nth_eq_iff_index_eq)
  with \<open>i < j\<close> \<open>k < l\<close> show False by simp
qed

lemma sorted_key_before:
  assumes "sorted (map f xs)" and "a \<in> set xs" and "b \<in> set xs" and "f a < f b"
  shows "before xs a b"
proof -
  from assms(2,3) obtain i j where ij: "i < length xs" "xs ! i = a" "j < length xs" "xs ! j = b"
    by (auto simp: in_set_conv_nth)
  have "i < j"
  proof (rule ccontr)
    assume "\<not> i < j"
    then have "j \<le> i" by simp
    with assms(1) ij have "f (xs ! j) \<le> f (xs ! i)"
      by (auto simp: sorted_iff_nth_mono)
    with ij assms(4) show False by simp
  qed
  with ij show ?thesis
    unfolding before_def by blast
qed

lemma before_snoc_last:
  assumes "distinct (P @ [x] @ S)" and "before (P @ [x] @ S) a x"
  shows "a \<in> set P"
proof -
  from assms(2) obtain i j where ij: "i < j" "j < length (P @ [x] @ S)"
    "(P @ [x] @ S) ! i = a" "(P @ [x] @ S) ! j = x"
    by (auto simp: before_def)
  have x: "(P @ [x] @ S) ! length P = x" and l: "length P < length (P @ [x] @ S)"
    by (simp_all add: nth_append)
  from assms(1) ij(2) l
  have "((P @ [x] @ S) ! j = (P @ [x] @ S) ! length P) = (j = length P)"
    by (rule nth_eq_iff_index_eq)
  with ij(4) x have "j = length P" by simp
  with ij show ?thesis
    by (auto simp: nth_append split: if_splits)
qed

end
