(* ===== verification/Signature.thy ===== *)
theory Signature
  imports TCSA_Prelude
begin

text \<open>
  Samples and the Signature Extractor. A \<open>sample\<close> is one row of the frame that
  \<^verbatim>\<open>DataPreparation.data_processing\<close> (\<^verbatim>\<open>src/timing.py\<close>) hands to the analysis:
  timestamp, command, thread id, event name, call stack (frames as text lines
  \<open>"<address> <symbol> <dso>"\<close>) and the derived \<open>function_call_stack\<close> string.
  \<open>get_user_defined_indentical_call_stacks\<close> (\<^verbatim>\<open>src/filtering.py\<close>, lines 200-223)
  maps a call stack to the signature string that the compressor compares.
\<close>

record sample =
  smp_timestamp :: real
  smp_command :: string
  smp_tid :: int
  smp_cpu :: int
  smp_event :: string
  smp_call_stack :: "string list"
  smp_top_function :: string
  smp_function_call_stack :: string

text \<open>\<^verbatim>\<open>";".join([" ".join(j.split()[1:-1]) for j in x])\<close>, timing.py 152-154.\<close>

definition function_call_stack_of :: "string list \<Rightarrow> string" where
  "function_call_stack_of cs =
     py_join '';'' (map (\<lambda>j. py_join '' '' (py_slice (py_split j) 1 (-1))) cs)"

text \<open>One frame rendered without its address: \<^verbatim>\<open>" ".join(j.split()[1:])\<close>.\<close>

definition frame_symbol :: "string \<Rightarrow> string" where
  "frame_symbol j = py_join '' '' (drop 1 (py_split j))"

definition get_user_defined_indentical_call_stacks :: "string list \<Rightarrow> int \<Rightarrow> int \<Rightarrow> string" where
  "get_user_defined_indentical_call_stacks function_list degrees_of_freedom direction =
     (let original_length = int (length function_list);
          length0 = min degrees_of_freedom original_length;
          len = (if length0 = -1 then int (length function_list) else length0);
          selected =
            (if direction = 0 then py_slice function_list 0 len
             else py_slice function_list (original_length - len) len)
      in py_join '';'' (map frame_symbol selected))"

abbreviation signature_of :: "string list \<Rightarrow> int \<Rightarrow> int \<Rightarrow> string" where
  "signature_of \<equiv> get_user_defined_indentical_call_stacks"

lemmas signature_unfold = get_user_defined_indentical_call_stacks_def py_slice_def py_index_def

subsection \<open>The selected frames\<close>

text \<open>
  \<open>min(degrees_of_freedom, n)\<close> is \<open>-1\<close> exactly when the sentinel \<open>-1\<close> is given
  (a stack has \<open>n \<ge> 0\<close> frames), so a non-negative depth is never mistaken for the
  sentinel.
\<close>

lemma min_length_sentinel:
  "(min d (int n) = -1) = (d = -1)"
  by auto

text \<open>With \<open>direction = 0\<close> and a depth \<open>k \<ge> 0\<close>, the
  signature joins with \<open>;\<close> the symbol parts of the first \<open>k\<close> frames of the stack
  (all of them when the stack is shorter), the contract of spec section 4.1.\<close>

theorem signature_bottom_up:
  assumes "0 \<le> dof"
  shows "signature_of fs dof 0 = py_join '';'' (map frame_symbol (take (nat dof) fs))"
proof -
  from assms have "min dof (int (length fs)) \<noteq> -1" by auto
  moreover from assms
  have "py_slice fs 0 (min dof (int (length fs))) = take (nat dof) fs"
    by (simp add: py_slice_prefix min_def)
  ultimately show ?thesis
    by (simp add: get_user_defined_indentical_call_stacks_def)
qed

text \<open>With the sentinel \<open>-1\<close> every frame is used, in either direction.\<close>

lemma signature_unbounded:
  "signature_of fs (-1) dir = py_join '';'' (map frame_symbol fs)"
  by (simp add: get_user_defined_indentical_call_stacks_def py_slice_all min_def Let_def)

text \<open>
  The top-down branch slices \<open>function_list[(n - k):k]\<close> with \<open>k = min(d, n)\<close>:
  it keeps the frames from position \<open>n - k\<close> up to position \<open>k\<close>, which is the
  last \<open>k\<close> frames only when \<open>k = n\<close>.
\<close>

lemma signature_top_down:
  assumes "0 \<le> dof" and "dir \<noteq> 0"
  shows "signature_of fs dof dir =
    py_join '';'' (map frame_symbol
      (take (2 * min (nat dof) (length fs) - length fs)
            (drop (length fs - min (nat dof) (length fs)) fs)))"
proof -
  let ?n = "length fs" and ?k = "min (nat dof) (length fs)"
  from assms(1) have k: "min dof (int ?n) = int ?k" by auto
  from assms(1) have "min dof (int ?n) \<noteq> -1" by auto
  moreover have "py_slice fs (int ?n - int ?k) (int ?k) = take (2 * ?k - ?n) (drop (?n - ?k) fs)"
  proof -
    have "min (nat (int ?n - int ?k)) ?n = ?n - ?k" and "min (nat (int ?k)) ?n = ?k"
      by auto
    moreover have "?k - (?n - ?k) = 2 * ?k - ?n" by simp
    ultimately show ?thesis
      by (simp add: py_slice_nonneg del: mult_2)
  qed
  ultimately show ?thesis
    using assms(2) k by (simp add: get_user_defined_indentical_call_stacks_def)
qed

text \<open>Top-down selection with a depth of at most half
  the stack selects nothing: the signature is the empty string, whatever the frames
  (spec section 9 flags this slice; the spec's intent is the last \<open>k\<close> frames).\<close>

theorem signature_top_down_empty:
  assumes "0 \<le> dof" and "dir \<noteq> 0" and "2 * dof \<le> int (length fs)"
  shows "signature_of fs dof dir = []"
proof -
  from assms(1,3) have "2 * min (nat dof) (length fs) - length fs = 0"
    by linarith
  with assms(1,2) show ?thesis
    by (simp add: signature_top_down)
qed

text \<open>A depth below the sentinel is not rejected:
  \<open>d < -1\<close> makes the bottom-up slice \<open>[0:d]\<close>, which drops the last \<open>-d\<close> frames.\<close>

theorem signature_negative_depth:
  assumes "dof < -1"
  shows "signature_of fs dof 0 =
    py_join '';'' (map frame_symbol (take (length fs - nat (- dof)) fs))"
proof -
  from assms have "min dof (int (length fs)) = dof" by simp
  moreover from assms have "nat (int (length fs) + dof) = length fs - nat (- dof)"
    by simp
  ultimately show ?thesis
    using assms by (simp add: get_user_defined_indentical_call_stacks_def py_slice_neg_stop)
qed

subsection \<open>Witnesses\<close>

text \<open>Scenario C of the spec: depth 2, bottom-up, on \<open>main, foo, bar\<close>.\<close>

lemma signature_scenario_C:
  "0 \<le> (2::int) \<and>
   signature_of [''0x1 main'', ''0x2 foo'', ''0x3 bar''] 2 0 = ''main;foo''"
proof -
  have "signature_of [''0x1 main'', ''0x2 foo'', ''0x3 bar''] 2 0 =
    py_join '';'' (map frame_symbol (take (nat 2) [''0x1 main'', ''0x2 foo'', ''0x3 bar'']))"
    by (rule signature_bottom_up) simp
  then show ?thesis
    by (simp add: frame_symbol_def py_split.simps py_isspace_def)
qed

lemma signature_top_down_empty_witness:
  "0 \<le> (1::int) \<and> (1::int) \<noteq> 0 \<and> 2 * 1 \<le> int (length [''0x1 main'', ''0x2 foo'', ''0x3 bar''])
   \<and> signature_of [''0x1 main'', ''0x2 foo'', ''0x3 bar''] 1 1 = []"
  using signature_top_down_empty [of 1 1 "[''0x1 main'', ''0x2 foo'', ''0x3 bar'']"]
  by simp

lemma signature_negative_depth_witness:
  "(-2::int) < -1 \<and> signature_of [''0x1 main'', ''0x2 foo'', ''0x3 bar''] (-2) 0 = ''main''"
proof -
  have "signature_of [''0x1 main'', ''0x2 foo'', ''0x3 bar''] (-2) 0 =
    py_join '';'' (map frame_symbol (take (3 - nat 2) [''0x1 main'', ''0x2 foo'', ''0x3 bar'']))"
    using signature_negative_depth [of "-2" "[''0x1 main'', ''0x2 foo'', ''0x3 bar'']"] by simp
  then show ?thesis
    by (simp add: frame_symbol_def py_split.simps py_isspace_def)
qed

subsection \<open>Frames\<close>

text \<open>A frame printed as its address followed by its symbol tokens renders as the
  tokens joined by one blank, the address stripped.\<close>

lemma frame_symbol_join:
  assumes "py_word addr" and "\<forall>w\<in>set syms. py_word w"
  shows "frame_symbol (py_join '' '' (addr # syms)) = py_join '' '' syms"
  using assms by (simp add: frame_symbol_def py_split_join)

end
