(* ===== verification/Compressor.thy ===== *)
theory Compressor
  imports Signature
begin

text \<open>
  The Stack-Pattern Compressor of \<^verbatim>\<open>src/filtering.py\<close>. A \<open>cicp\<close> is one row of the
  frame that \<^verbatim>\<open>_process_single_thread_cics\<close> (lines 75-105) returns: the columns
  the later stages read, with the aggregated \<open>timestamp\<close> column kept as the list
  \<open>timestamps\<close>, and the pandas index label \<open>idx\<close> (the per-thread \<open>RangeIndex\<close>
  that \<^verbatim>\<open>groupby(..., as_index=False)\<close> produces and \<^verbatim>\<open>pd.concat\<close> keeps).
  The columns \<open>cpu\<close> and \<open>top_function\<close>, aggregated as lists and never read again,
  are left out.

  The code finds runs of equal signatures with the pandas idiom
  \<^verbatim>\<open>(key != key.shift()).cumsum()\<close> followed by a \<^verbatim>\<open>groupby\<close> on that token;
  \<open>cics_tokens\<close> and \<open>group_by_token\<close> model the two steps as written, and
  \<open>runs_by\<close> is the reference notion of maximal runs they are proved to compute.
\<close>

record cicp =
  idx :: nat
  timestamps :: "real list"
  command :: string
  tid :: int
  event :: string
  call_stack :: "string list"
  function_call_stack :: string
  signature :: string
  duration_length :: nat
  ts_begin :: real
  ts_end :: real

type_synonym keyed_sample = "sample \<times> string"

subsection \<open>Run tokens and grouping, as the code computes them\<close>

text \<open>\<open>prev = None\<close> is the \<open>NaN\<close> that \<open>shift()\<close> puts before the first row.\<close>

fun run_tokens :: "'k option \<Rightarrow> nat \<Rightarrow> 'k list \<Rightarrow> nat list" where
  "run_tokens prev acc [] = []"
| "run_tokens prev acc (k # ks) =
     (let acc' = (if prev = Some k then acc else Suc acc) in acc' # run_tokens (Some k) acc' ks)"

definition cics_tokens :: "'k list \<Rightarrow> nat list" where
  "cics_tokens ks = run_tokens None 0 ks"

text \<open>\<^verbatim>\<open>groupby(["token"]).aggregate(list)\<close>: one group per token value, in ascending
  token order, each holding its rows in their original order.\<close>

definition group_of_token :: "nat list \<Rightarrow> 'a list \<Rightarrow> nat \<Rightarrow> 'a list" where
  "group_of_token toks rows t = map snd (filter (\<lambda>p. fst p = t) (zip toks rows))"

definition group_by_token :: "nat list \<Rightarrow> 'a list \<Rightarrow> 'a list list" where
  "group_by_token toks rows = map (group_of_token toks rows) (sort (remdups toks))"

text \<open>One aggregated group becomes one CICP (lines 89-103): first values of the
  per-sample columns, first and last timestamp, the run length.\<close>

definition cicp_of_run :: "nat \<Rightarrow> keyed_sample list \<Rightarrow> cicp" where
  "cicp_of_run i g =
     \<lparr>idx = i,
      timestamps = map (smp_timestamp \<circ> fst) g,
      command = smp_command (fst (hd g)),
      tid = smp_tid (fst (hd g)),
      event = smp_event (fst (hd g)),
      call_stack = smp_call_stack (fst (hd g)),
      function_call_stack = smp_function_call_stack (fst (hd g)),
      signature = snd (hd g),
      duration_length = length g,
      ts_begin = smp_timestamp (fst (hd g)),
      ts_end = smp_timestamp (fst (last g))\<rparr>"

definition process_single_thread_cics :: "keyed_sample list \<Rightarrow> cicp list" where
  "process_single_thread_cics thread_rows =
     (if thread_rows = [] then []
      else (let toks = cics_tokens (map snd thread_rows);
                groups = group_by_token toks thread_rows
            in map (case_prod cicp_of_run) (enumerate 0 groups)))"

text \<open>\<^verbatim>\<open>identify_consecutive_identical_call_stacks_parallel\<close> (lines 108-143): the
  signature column for every sample, one group per thread id (\<^verbatim>\<open>groupby("tid")\<close>
  orders the ids ascending and keeps the samples' order inside a group), the
  per-thread compression, and \<^verbatim>\<open>pd.concat\<close> of the results in that order; joblib
  returns results in task order. \<^verbatim>\<open>pd.concat([])\<close> raises \<open>ValueError\<close>.\<close>

definition identify_consecutive_identical_call_stacks_parallel ::
  "sample list \<Rightarrow> int \<Rightarrow> int \<Rightarrow> py_error + cicp list" where
  "identify_consecutive_identical_call_stacks_parallel perf_records degrees_of_freedom direction =
     (let rows = map (\<lambda>s. (s, signature_of (smp_call_stack s) degrees_of_freedom direction))
                   perf_records;
          thread_groups = map (\<lambda>t. filter (\<lambda>r. smp_tid (fst r) = t) rows)
                            (sort (remdups (map smp_tid perf_records)))
      in if thread_groups = [] then Inl ValueError
         else Inr (concat (map process_single_thread_cics thread_groups)))"

subsection \<open>Reference: maximal runs of equal keys\<close>

fun runs_by :: "('a \<Rightarrow> 'k) \<Rightarrow> 'a list \<Rightarrow> 'a list list" where
  "runs_by f [] = []"
| "runs_by f (x # xs) =
     (case runs_by f xs of
        [] \<Rightarrow> [[x]]
      | g # gs \<Rightarrow> (if f (hd g) = f x then (x # g) # gs else [x] # g # gs))"

fun tok_blocks :: "nat \<Rightarrow> 'a list list \<Rightarrow> nat list" where
  "tok_blocks a [] = []"
| "tok_blocks a (g # gs) = replicate (length g) a @ tok_blocks (Suc a) gs"

lemma runs_by_Nil_iff [simp]: "(runs_by f xs = []) = (xs = [])"
  by (cases xs) (auto split: list.splits)

lemma runs_by_nonempty: "g \<in> set (runs_by f xs) \<Longrightarrow> g \<noteq> []"
  by (induction xs arbitrary: g) (auto split: list.splits if_splits)

lemma concat_runs_by [simp]: "concat (runs_by f xs) = xs"
  by (induction xs) (auto split: list.splits)

lemma runs_by_hd: "runs_by f (x # xs) = g # gs \<Longrightarrow> hd g = x"
  by (auto split: list.splits if_splits)

lemma runs_by_const:
  "g \<in> set (runs_by f xs) \<Longrightarrow> y \<in> set g \<Longrightarrow> f y = f (hd g)"
proof (induction xs arbitrary: g y)
  case Nil
  then show ?case by simp
next
  case (Cons x xs)
  note IH = Cons.IH and prems = Cons.prems
  show ?case
  proof (cases "runs_by f xs")
    case Nil
    with prems show ?thesis by simp
  next
    case (Cons h hs)
    then have "h \<in> set (runs_by f xs)" by simp
    with IH have h: "\<forall>z\<in>set h. f z = f (hd h)" by blast
    from Cons IH have hs: "\<forall>k\<in>set hs. \<forall>z\<in>set k. f z = f (hd k)" by simp
    from Cons prems h hs show ?thesis
      by (auto split: if_splits)
  qed
qed

lemma runs_by_adjacent:
  "successively (\<lambda>g h. f (hd g) \<noteq> f (hd h)) (runs_by f xs)"
proof (induction xs)
  case (Cons x xs)
  then show ?case
    by (auto simp: successively_Cons split: list.splits if_splits)
qed simp

lemma runs_by_subset: "g \<in> set (runs_by f xs) \<Longrightarrow> set g \<subseteq> set xs"
proof -
  assume "g \<in> set (runs_by f xs)"
  then have "set g \<subseteq> set (concat (runs_by f xs))"
    by (auto simp del: concat_runs_by)
  then show ?thesis by simp
qed

lemmas runs_by_facts = runs_by_nonempty runs_by_const concat_runs_by

subsection \<open>The token grouping computes the runs\<close>

lemma run_tokens_runs_by:
  "run_tokens prev acc (map f xs) =
     (case runs_by f xs of
        [] \<Rightarrow> []
      | g # gs \<Rightarrow> tok_blocks (if prev = Some (f (hd g)) then acc else Suc acc) (g # gs))"
proof (induction xs arbitrary: prev acc)
  case Nil
  then show ?case by simp
next
  case (Cons x xs)
  note IH = Cons.IH
  define a' where "a' = (if prev = Some (f x) then acc else Suc acc)"
  have step: "run_tokens prev acc (map f (x # xs)) = a' # run_tokens (Some (f x)) a' (map f xs)"
    by (simp add: a'_def Let_def)
  show ?case
  proof (cases "runs_by f xs")
    case Nil
    with step show ?thesis by (simp add: a'_def)
  next
    case (Cons g gs)
    with IH [of "Some (f x)" a']
    have ih: "run_tokens (Some (f x)) a' (map f xs) =
        tok_blocks (if f x = f (hd g) then a' else Suc a') (g # gs)"
      by simp
    show ?thesis
    proof (cases "f (hd g) = f x")
      case True
      with Cons have "runs_by f (x # xs) = (x # g) # gs" by simp
      with step ih True show ?thesis by (simp add: a'_def)
    next
      case False
      with Cons have "runs_by f (x # xs) = [x] # g # gs" by simp
      with step ih False show ?thesis by (simp add: a'_def)
    qed
  qed
qed

lemma length_tok_blocks: "length (tok_blocks a gs) = length (concat gs)"
  by (induction gs arbitrary: a) auto

lemma group_of_token_blocks:
  assumes "\<forall>g\<in>set gs. g \<noteq> []"
  shows "group_of_token (tok_blocks a gs) (concat gs) t =
           (if a \<le> t \<and> t < a + length gs then gs ! (t - a) else [])"
  using assms
proof (induction gs arbitrary: a)
  case Nil
  then show ?case by (auto simp: group_of_token_def)
next
  case (Cons g gs)
  have split: "group_of_token (replicate (length g) a @ tok_blocks (Suc a) gs) (g @ concat gs) t =
    (if t = a then g else []) @ group_of_token (tok_blocks (Suc a) gs) (concat gs) t"
    by (simp add: group_of_token_def length_tok_blocks zip_replicate1 comp_def)
  from Cons show ?case
    by (auto simp: split nth_Cons' not_less_eq_eq Suc_diff_le)
qed

lemma set_tok_blocks:
  "\<forall>g\<in>set gs. g \<noteq> [] \<Longrightarrow> set (tok_blocks a gs) = {a..<a + length gs}"
  by (induction gs arbitrary: a) auto

lemma group_by_token_blocks:
  assumes "\<forall>g\<in>set gs. g \<noteq> []"
  shows "group_by_token (tok_blocks a gs) (concat gs) = gs"
proof -
  have "sort (remdups (tok_blocks a gs)) = [a..<a + length gs]"
    using assms by (simp add: sorted_list_of_set_sort_remdups [symmetric] set_tok_blocks)
  then have "group_by_token (tok_blocks a gs) (concat gs) =
      map (\<lambda>t. gs ! (t - a)) [a..<a + length gs]"
    using assms by (simp add: group_by_token_def group_of_token_blocks)
  also have "\<dots> = gs"
    by (rule nth_equalityI) auto
  finally show ?thesis .
qed

lemma group_by_token_cics_tokens:
  "group_by_token (cics_tokens (map f xs)) xs = runs_by f xs"
proof (cases "runs_by f xs")
  case Nil
  then show ?thesis
    by (simp add: cics_tokens_def group_by_token_def)
next
  case (Cons g gs)
  then have "cics_tokens (map f xs) = tok_blocks 1 (runs_by f xs)"
    by (simp add: cics_tokens_def run_tokens_runs_by)
  moreover have "\<forall>h\<in>set (runs_by f xs). h \<noteq> []"
    by (auto dest: runs_by_nonempty)
  ultimately show ?thesis
    using group_by_token_blocks [of "runs_by f xs" 1] by simp
qed

text \<open>C6 (group_by_token_runs). The \<open>cumsum\<close>-token grouping of the code puts the
  samples of a thread into exactly the maximal runs of consecutive samples with equal
  key, in order: the groups are those of \<open>runs_by\<close>, they concatenate to the input,
  each is non-empty and constant in the key, and adjacent groups have different keys.\<close>

theorem group_by_token_runs:
  "group_by_token (cics_tokens (map f xs)) xs = runs_by f xs \<and>
   concat (group_by_token (cics_tokens (map f xs)) xs) = xs \<and>
   list_all (\<lambda>g. g \<noteq> [] \<and> list_all (\<lambda>y. f y = f (hd g)) g) (group_by_token (cics_tokens (map f xs)) xs) \<and>
   successively (\<lambda>g h. f (hd g) \<noteq> f (hd h)) (group_by_token (cics_tokens (map f xs)) xs)"
  unfolding group_by_token_cics_tokens
  using runs_by_adjacent[of f xs]
  by (auto simp add: list_all_iff dest: runs_by_nonempty runs_by_const)

subsection \<open>The CICPs of one thread\<close>

lemma process_single_thread_cics_runs:
  "process_single_thread_cics rows = map (case_prod cicp_of_run) (enumerate 0 (runs_by snd rows))"
  by (simp add: process_single_thread_cics_def group_by_token_cics_tokens)

lemma map_cicp_of_run_enumerate:
  assumes "\<And>i g. h (cicp_of_run i g) = k g"
  shows "map h (map (case_prod cicp_of_run) (enumerate n gs)) = map k gs"
  by (induction gs arbitrary: n) (simp_all add: assms)

lemma in_process_single_thread_cics:
  assumes "c \<in> set (process_single_thread_cics rows)"
  obtains i g where "c = cicp_of_run i g" and "g \<in> set (runs_by snd rows)"
proof -
  from assms obtain p where "p \<in> set (enumerate 0 (runs_by snd rows))" and "c = case_prod cicp_of_run p"
    by (auto simp: process_single_thread_cics_runs)
  moreover from this(1) have "snd p \<in> set (runs_by snd rows)"
    unfolding enumerate_eq_zip by (metis prod.collapse set_zip_rightD)
  moreover obtain i g where "p = (i, g)"
    by (rule prod.exhaust)
  ultimately show ?thesis
    using that by simp
qed

text \<open>A CICP describes the run it was built from (spec section 3).\<close>

definition cicp_of_samples :: "cicp \<Rightarrow> keyed_sample list \<Rightarrow> bool" where
  "cicp_of_samples c g \<longleftrightarrow>
     g \<noteq> [] \<and> timestamps c = map (smp_timestamp \<circ> fst) g \<and>
     ts_begin c = smp_timestamp (fst (hd g)) \<and> ts_end c = smp_timestamp (fst (last g)) \<and>
     duration_length c = length g \<and> (\<forall>r\<in>set g. snd r = signature c)"

text \<open>C21 (process_single_thread_cics_wf). Every CICP of a thread is built from one
  maximal run of consecutive samples: it starts at the run's first timestamp, ends at its
  last, its \<open>duration_length\<close> is the number of samples merged, and every merged
  sample has the CICP's signature.\<close>

theorem process_single_thread_cics_wf:
  assumes "c \<in> set (process_single_thread_cics rows)"
  shows "\<exists>g\<in>set (runs_by snd rows). cicp_of_samples c g"
proof -
  from assms obtain i g where c: "c = cicp_of_run i g" and g: "g \<in> set (runs_by snd rows)"
    by (rule in_process_single_thread_cics)
  have sig: "signature c = snd (hd g)"
    by (simp add: c cicp_of_run_def)
  have "\<forall>r\<in>set g. snd r = signature c"
  proof
    fix r
    assume "r \<in> set g"
    with g have "snd r = snd (hd g)" by (rule runs_by_const)
    with sig show "snd r = signature c" by simp
  qed
  moreover from g have "g \<noteq> []" by (rule runs_by_nonempty)
  moreover have "timestamps c = map (smp_timestamp \<circ> fst) g \<and>
      ts_begin c = smp_timestamp (fst (hd g)) \<and> ts_end c = smp_timestamp (fst (last g)) \<and>
      duration_length c = length g"
    by (simp add: c cicp_of_run_def)
  ultimately have "cicp_of_samples c g"
    unfolding cicp_of_samples_def by blast
  with g show ?thesis ..
qed

text \<open>The CICPs of a thread cover its samples
  exactly, in order, without gaps or overlaps (spec section 4.2).\<close>

theorem process_single_thread_cics_cover:
  "concat (map timestamps (process_single_thread_cics rows)) = map (smp_timestamp \<circ> fst) rows"
proof -
  have "map timestamps (process_single_thread_cics rows) =
      map (map (smp_timestamp \<circ> fst)) (runs_by snd rows)"
    unfolding process_single_thread_cics_runs
    by (rule map_cicp_of_run_enumerate) (simp add: cicp_of_run_def)
  then show ?thesis
    by (simp add: map_concat [symmetric])
qed

lemma process_single_thread_cics_durations:
  "sum_list (map duration_length (process_single_thread_cics rows)) = length rows"
proof -
  have "map duration_length (process_single_thread_cics rows) = map length (runs_by snd rows)"
    unfolding process_single_thread_cics_runs
    by (rule map_cicp_of_run_enumerate) (simp add: cicp_of_run_def)
  then show ?thesis
    by (simp add: length_concat [symmetric])
qed

lemma map_idx_enumerate:
  "map idx (map (case_prod cicp_of_run) (enumerate n gs)) = map fst (enumerate n gs)"
  by (induction gs arbitrary: n) (simp_all add: cicp_of_run_def)

lemma process_single_thread_cics_idx:
  "map idx (process_single_thread_cics rows) = [0..<length (process_single_thread_cics rows)]"
  unfolding process_single_thread_cics_runs map_idx_enumerate map_fst_enumerate by simp

text \<open>Consecutive CICPs of a thread have different signatures: the runs are maximal.\<close>

lemma process_single_thread_cics_maximal:
  "successively (\<lambda>c d. signature c \<noteq> signature d) (process_single_thread_cics rows)"
proof -
  have "map signature (process_single_thread_cics rows) = map (snd \<circ> hd) (runs_by snd rows)"
    unfolding process_single_thread_cics_runs
    by (rule map_cicp_of_run_enumerate) (simp add: cicp_of_run_def)
  moreover have "successively (\<noteq>) (map (snd \<circ> hd) (runs_by snd rows))"
    using runs_by_adjacent [of snd rows] by (simp add: successively_map)
  ultimately have "successively (\<noteq>) (map signature (process_single_thread_cics rows))"
    by (simp only:)
  then show ?thesis
    by (simp add: successively_map)
qed

text \<open>When a thread's timestamps strictly increase, each of its CICPs ends before the
  next one begins.\<close>

lemma process_single_thread_cics_ordered:
  assumes "sorted_wrt (<) (map (smp_timestamp \<circ> fst) rows)"
  shows "sorted_wrt (\<lambda>c d. ts_end c < ts_begin d) (process_single_thread_cics rows)"
proof -
  let ?F = "smp_timestamp \<circ> fst"
  from assms have "sorted_wrt (\<lambda>x y. ?F x < ?F y) (concat (runs_by snd rows))"
    by (simp add: sorted_wrt_map)
  then have "sorted_wrt (\<lambda>g h. ?F (last g) < ?F (hd h)) (runs_by snd rows)"
    by (rule sorted_wrt_concat_last_hd) (auto dest: runs_by_nonempty)
  then show ?thesis
    unfolding process_single_thread_cics_runs
    by (rule sorted_wrt_map_enumerate [rotated]) (simp add: cicp_of_run_def)
qed

subsection \<open>All threads\<close>

definition thread_ordered :: "cicp list \<Rightarrow> bool" where
  "thread_ordered cs \<longleftrightarrow>
     (\<forall>c\<in>set cs. \<forall>d\<in>set cs. c \<noteq> d \<longrightarrow> tid c = tid d \<longrightarrow>
        ts_end c < ts_begin d \<or> ts_end d < ts_begin c)"

definition samples_time_ordered :: "sample list \<Rightarrow> bool" where
  "samples_time_ordered samples \<longleftrightarrow>
     (\<forall>t\<in>set (map smp_tid samples).
        sorted_wrt (<) (map smp_timestamp (filter (\<lambda>s. smp_tid s = t) samples)))"

lemma process_single_thread_cics_Nil [simp]: "process_single_thread_cics [] = []"
  by (simp add: process_single_thread_cics_def)

lemma process_single_thread_cics_Nil_iff [simp]:
  "(process_single_thread_cics rows = []) = (rows = [])"
proof -
  have e: "(enumerate 0 xs = []) = (xs = [])" for xs :: "'a list"
    by (cases xs) simp_all
  show ?thesis
    by (simp add: process_single_thread_cics_runs e)
qed

lemma process_single_thread_cics_tid:
  assumes "c \<in> set (process_single_thread_cics rows)" and "\<forall>r\<in>set rows. smp_tid (fst r) = t"
  shows "tid c = t"
proof -
  from assms(1) obtain i g where c: "c = cicp_of_run i g" and g: "g \<in> set (runs_by snd rows)"
    by (rule in_process_single_thread_cics)
  from g have "hd g \<in> set rows"
    using runs_by_subset [OF g] runs_by_nonempty [OF g] by auto
  with assms(2) show ?thesis
    by (simp add: c cicp_of_run_def)
qed

lemma identify_parallel_eq:
  "identify_consecutive_identical_call_stacks_parallel samples dof dir =
     (if samples = [] then Inl ValueError
      else Inr (concat (map (\<lambda>t. process_single_thread_cics
                  (filter (\<lambda>r. smp_tid (fst r) = t)
                     (map (\<lambda>s. (s, signature_of (smp_call_stack s) dof dir)) samples)))
              (sort (remdups (map smp_tid samples))))))"
proof -
  have "(sort (remdups (map smp_tid samples)) = []) = (samples = [])"
    by (metis length_0_conv length_sort map_is_Nil_conv remdups_eq_nil_iff)
  then show ?thesis
    by (simp add: identify_consecutive_identical_call_stacks_parallel_def Let_def comp_def)
qed

text \<open>The only failure is an empty trace, on which \<^verbatim>\<open>pd.concat\<close> raises.\<close>

lemma identify_parallel_error:
  "(identify_consecutive_identical_call_stacks_parallel samples dof dir = Inl e) =
     (samples = [] \<and> e = ValueError)"
  by (auto simp: identify_parallel_eq)

text \<open>C25 (identify_parallel_durations). Compression conserves samples: the durations
  of all CICPs of all threads add up to the number of samples of the trace.\<close>

theorem identify_parallel_durations:
  assumes "identify_consecutive_identical_call_stacks_parallel samples dof dir = Inr recs"
  shows "sum_list (map duration_length recs) = length samples"
proof -
  let ?rows = "map (\<lambda>s. (s, signature_of (smp_call_stack s) dof dir)) samples"
  let ?ts = "sort (remdups (map smp_tid samples))"
  from assms have recs: "recs = concat (map (\<lambda>t. process_single_thread_cics
      (filter (\<lambda>r. smp_tid (fst r) = t) ?rows)) ?ts)"
    by (simp add: identify_parallel_eq split: if_splits)
  have "sum_list (map duration_length recs) =
      sum_list (map (\<lambda>t. length (filter (\<lambda>r. smp_tid (fst r) = t) ?rows)) ?ts)"
    by (simp add: recs sum_list_map_concat comp_def process_single_thread_cics_durations)
  also have "\<dots> = length ?rows"
    by (rule sum_list_filter_partition) auto
  finally show ?thesis by simp
qed

lemma identify_parallel_member:
  assumes "identify_consecutive_identical_call_stacks_parallel samples dof dir = Inr recs"
    and "c \<in> set recs"
  shows "c \<in> set (process_single_thread_cics (filter (\<lambda>r. smp_tid (fst r) = tid c)
           (map (\<lambda>s. (s, signature_of (smp_call_stack s) dof dir)) samples)))"
proof -
  from assms obtain t where
    c: "c \<in> set (process_single_thread_cics (filter (\<lambda>r. smp_tid (fst r) = t)
           (map (\<lambda>s. (s, signature_of (smp_call_stack s) dof dir)) samples)))"
    by (auto simp: identify_parallel_eq split: if_splits)
  then have "tid c = t"
    by (rule process_single_thread_cics_tid) simp
  with c show ?thesis by simp
qed

text \<open>Every CICP of the trace is identified by
  its thread id and its per-thread index label; the index label alone is not unique
  (every thread numbers its CICPs from 0).\<close>

theorem identify_parallel_keys_distinct:
  assumes "identify_consecutive_identical_call_stacks_parallel samples dof dir = Inr recs"
  shows "distinct (map (\<lambda>c. (tid c, idx c)) recs)"
proof -
  let ?F = "\<lambda>t. process_single_thread_cics (filter (\<lambda>r. smp_tid (fst r) = t)
               (map (\<lambda>s. (s, signature_of (smp_call_stack s) dof dir)) samples))"
  have tids: "\<forall>c\<in>set (?F t). tid c = t" for t
    by (auto intro: process_single_thread_cics_tid)
  have one: "distinct (map (\<lambda>c. (tid c, idx c)) (?F t))" for t
  proof -
    have "distinct (map idx (?F t))"
      by (subst process_single_thread_cics_idx) simp
    then show ?thesis
      by (simp add: distinct_map inj_on_def)
  qed
  have gen: "distinct ts \<Longrightarrow> distinct (map (\<lambda>c. (tid c, idx c)) (concat (map ?F ts)))" for ts
  proof (induction ts)
    case (Cons t ts)
    have "set (map (\<lambda>c. (tid c, idx c)) (?F t)) \<inter>
        set (map (\<lambda>c. (tid c, idx c)) (concat (map ?F ts))) = {}"
      using Cons.prems tids by fastforce
    with Cons one show ?case by simp
  qed simp
  from gen [of "sort (remdups (map smp_tid samples))"]
  have "distinct (map (\<lambda>c. (tid c, idx c))
          (concat (map ?F (sort (remdups (map smp_tid samples))))))"
    by simp
  with assms show ?thesis
    by (simp add: identify_parallel_eq split: if_splits)
qed

text \<open>If each thread's samples come in strictly increasing time, two different CICPs of
  one thread never overlap: one ends before the other begins.\<close>

lemma identify_parallel_thread_ordered:
  assumes "identify_consecutive_identical_call_stacks_parallel samples dof dir = Inr recs"
    and "samples_time_ordered samples"
  shows "thread_ordered recs"
  unfolding thread_ordered_def
proof (intro ballI impI)
  fix c d
  assume c: "c \<in> set recs" and d: "d \<in> set recs" and ne: "c \<noteq> d" and t: "tid c = tid d"
  let ?rows = "filter (\<lambda>r. smp_tid (fst r) = tid c)
                 (map (\<lambda>s. (s, signature_of (smp_call_stack s) dof dir)) samples)"
  from assms(1) c have cm: "c \<in> set (process_single_thread_cics ?rows)"
    by (rule identify_parallel_member)
  from assms(1) d t have dm: "d \<in> set (process_single_thread_cics ?rows)"
    using identify_parallel_member by fastforce
  have "?rows \<noteq> []"
  proof
    assume "?rows = []"
    with cm show False by simp
  qed
  then have "tid c \<in> set (map smp_tid samples)"
    by (auto simp: filter_empty_conv) (metis image_eqI)
  with assms(2) have "sorted_wrt (<) (map smp_timestamp (filter (\<lambda>s. smp_tid s = tid c) samples))"
    unfolding samples_time_ordered_def by blast
  then have "sorted_wrt (<) (map (smp_timestamp \<circ> fst) ?rows)"
    by (simp add: comp_def filter_map)
  then have "sorted_wrt (\<lambda>c d. ts_end c < ts_begin d) (process_single_thread_cics ?rows)"
    by (rule process_single_thread_cics_ordered)
  from this cm dm ne show "ts_end c < ts_begin d \<or> ts_end d < ts_begin c"
    by (rule sorted_wrt_distinct_cases)
qed

lemma identify_parallel_Inr:
  "samples \<noteq> [] \<Longrightarrow>
   identify_consecutive_identical_call_stacks_parallel samples dof dir =
     Inr (projr (identify_consecutive_identical_call_stacks_parallel samples dof dir))"
  by (simp add: identify_parallel_eq)

subsection \<open>Witnesses\<close>

text \<open>Two threads sampled alternately; thread 1 holds \<open>lock\<close> for two samples, then
  runs \<open>work\<close>.\<close>

definition ex_sample :: "real \<Rightarrow> int \<Rightarrow> string \<Rightarrow> sample" where
  "ex_sample t i f =
     \<lparr>smp_timestamp = t, smp_command = ''java'', smp_tid = i, smp_cpu = 0, smp_event = ''cpu-clock'',
      smp_call_stack = [''0x1 main'', f], smp_top_function = ''0x1 main'',
      smp_function_call_stack = ''main''\<rparr>"

definition example_trace :: "sample list" where
  "example_trace =
     [ex_sample 0 1 ''0x2 lock'', ex_sample (1/2) 2 ''0x2 lock'', ex_sample 1 1 ''0x2 lock'',
      ex_sample (3/2) 2 ''0x2 lock'', ex_sample 2 1 ''0x3 work'']"

definition example_rows :: "keyed_sample list" where
  "example_rows = map (\<lambda>s. (s, signature_of (smp_call_stack s) (-1) 0))
                    (filter (\<lambda>s. smp_tid s = 1) example_trace)"

lemma example_rows_nonempty: "example_rows \<noteq> []"
  by (simp add: example_rows_def example_trace_def ex_sample_def)

lemma process_single_thread_cics_wf_witness:
  "hd (process_single_thread_cics example_rows) \<in> set (process_single_thread_cics example_rows) \<and>
   (\<exists>g\<in>set (runs_by snd example_rows).
      cicp_of_samples (hd (process_single_thread_cics example_rows)) g)"
proof -
  have m: "hd (process_single_thread_cics example_rows) \<in> set (process_single_thread_cics example_rows)"
    using example_rows_nonempty by simp
  from m process_single_thread_cics_wf [OF m] show ?thesis by blast
qed

lemma identify_parallel_durations_witness:
  "identify_consecutive_identical_call_stacks_parallel example_trace (-1) 0 =
     Inr (projr (identify_consecutive_identical_call_stacks_parallel example_trace (-1) 0)) \<and>
   sum_list (map duration_length
     (projr (identify_consecutive_identical_call_stacks_parallel example_trace (-1) 0))) = 5"
proof -
  have e: "identify_consecutive_identical_call_stacks_parallel example_trace (-1) 0 =
     Inr (projr (identify_consecutive_identical_call_stacks_parallel example_trace (-1) 0))"
    by (rule identify_parallel_Inr) (simp add: example_trace_def)
  from e identify_parallel_durations [OF e] show ?thesis
    by (simp add: example_trace_def)
qed

lemma identify_parallel_keys_distinct_witness:
  "identify_consecutive_identical_call_stacks_parallel example_trace (-1) 0 =
     Inr (projr (identify_consecutive_identical_call_stacks_parallel example_trace (-1) 0)) \<and>
   distinct (map (\<lambda>c. (tid c, idx c))
     (projr (identify_consecutive_identical_call_stacks_parallel example_trace (-1) 0)))"
proof -
  have e: "identify_consecutive_identical_call_stacks_parallel example_trace (-1) 0 =
     Inr (projr (identify_consecutive_identical_call_stacks_parallel example_trace (-1) 0))"
    by (rule identify_parallel_Inr) (simp add: example_trace_def)
  from e identify_parallel_keys_distinct [OF e] show ?thesis by blast
qed


end
