(* ===== verification/Quality_Filter.thy ===== *)
theory Quality_Filter
  imports Compressor
begin

text \<open>
  The Quality Filter, \<^verbatim>\<open>filtering_operation\<close> (\<^verbatim>\<open>src/filtering.py\<close>, lines 226-239):
  CICPs of a single sample are dropped, then every CICP whose command contains an entry
  of \<^verbatim>\<open>useless_command_list\<close> (\<^verbatim>\<open>["swapper"]\<close>, the idle task) as a substring.
  The loop over the list is a \<open>fold\<close>; each step is a pure filter, so order is kept.
\<close>

definition filtering_operation :: "cicp list \<Rightarrow> cicp list" where
  "filtering_operation df =
     (let threshold_duration_length = (1::nat);
          df = filter (\<lambda>c. threshold_duration_length < duration_length c) df;
          useless_command_list = [''swapper'']
      in fold (\<lambda>cmd df. filter (\<lambda>c. \<not> py_contains (command c) cmd) df) useless_command_list df)"

lemma filtering_operation_eq:
  "filtering_operation df =
     filter (\<lambda>c. 1 < duration_length c \<and> \<not> py_contains (command c) ''swapper'') df"
  by (simp add: filtering_operation_def conj_commute)

lemma filtering_operation_subset: "set (filtering_operation df) \<subseteq> set df"
  by (auto simp: filtering_operation_eq)

text \<open>C24 (filtering_operation_proper). After the filter, every CICP of a thread whose
  samples strictly increase in time is a proper interval: it begins strictly before it
  ends, which is what the partitioner's sweep needs of its input.\<close>

theorem filtering_operation_proper:
  assumes "c \<in> set (filtering_operation (process_single_thread_cics rows))"
    and "sorted_wrt (<) (map (smp_timestamp \<circ> fst) rows)"
  shows "ts_begin c < ts_end c \<and> \<not> py_contains (command c) ''swapper''"
proof -
  from assms(1) have c: "c \<in> set (process_single_thread_cics rows)" and d: "1 < duration_length c"
    and sw: "\<not> py_contains (command c) ''swapper''"
    by (auto simp: filtering_operation_eq)
  from c obtain i g where cg: "c = cicp_of_run i g" and g: "g \<in> set (runs_by snd rows)"
    by (rule in_process_single_thread_cics)
  let ?F = "smp_timestamp \<circ> fst"
  from assms(2) have "sorted_wrt (\<lambda>x y. ?F x < ?F y) (concat (runs_by snd rows))"
    by (simp add: sorted_wrt_map)
  then have sg: "sorted_wrt (\<lambda>x y. ?F x < ?F y) g"
    using g by (rule sorted_wrt_concat_elem)
  from cg d have "2 \<le> length g" by (simp add: cicp_of_run_def)
  with sg have "?F (hd g) < ?F (last g)"
    by (rule sorted_wrt_hd_last)
  with cg sw show ?thesis
    by (simp add: cicp_of_run_def)
qed

lemma filtering_operation_proper_witness:
  "hd (filtering_operation (process_single_thread_cics example_rows)) \<in>
     set (filtering_operation (process_single_thread_cics example_rows)) \<and>
   sorted_wrt (<) (map (smp_timestamp \<circ> fst) example_rows) \<and>
   ts_begin (hd (filtering_operation (process_single_thread_cics example_rows))) <
     ts_end (hd (filtering_operation (process_single_thread_cics example_rows))) \<and>
   \<not> py_contains (command (hd (filtering_operation (process_single_thread_cics example_rows))))
       ''swapper''"
proof -
  have "filtering_operation (process_single_thread_cics example_rows) \<noteq> []"
    by (simp add: filtering_operation_eq process_single_thread_cics_def example_rows_def
        example_trace_def ex_sample_def cics_tokens_def group_by_token_def group_of_token_def
        cicp_of_run_def)
  then have m: "hd (filtering_operation (process_single_thread_cics example_rows)) \<in>
     set (filtering_operation (process_single_thread_cics example_rows))"
    by simp
  have s: "sorted_wrt (<) (map (smp_timestamp \<circ> fst) example_rows)"
    by (simp add: example_rows_def example_trace_def ex_sample_def)
  from m s filtering_operation_proper [OF m s] show ?thesis by blast
qed

end
