(* ===== verification/Partitioner.thy ===== *)
theory Partitioner
  imports Quality_Filter
begin

text \<open>
  The Window Partitioner, \<^verbatim>\<open>divide_TOCC_optimized\<close> (\<^verbatim>\<open>src/filtering.py\<close>, lines 5-72).
  Every CICP gives a START event \<open>(ts_begin, 1, row)\<close> and an END event
  \<open>(ts_end, -1, row)\<close>; \<^verbatim>\<open>events.sort()\<close> orders the tuples lexicographically, so at
  equal timestamps END (\<open>-1\<close>) comes before START (\<open>1\<close>), and ties beyond that are
  broken by the row's namedtuple, whose fields start with the index label, the token
  (the label plus one), the timestamp list, the command and the thread id.
  \<open>event_key\<close> is that comparison cut after the thread id: rows produced by the
  compressor differ in \<open>(tid, idx)\<close>, so the rest of the tuple is never reached.
  The sweep keeps \<^verbatim>\<open>active_threads\<close> (a set of thread ids),
  \<^verbatim>\<open>current_tocc_cicps\<close> and \<^verbatim>\<open>tocc_list\<close>; \<open>sweep_step\<close> is the loop body,
  with the \<^verbatim>\<open>KeyError\<close> of \<^verbatim>\<open>set.remove\<close> as a value that the handler catches.
  A closed window is turned into a frame by \<^verbatim>\<open>df.loc[labels]\<close>, which selects, for
  each label in turn, every row of \<open>df\<close> carrying that label (\<open>df_loc\<close>).
\<close>

type_synonym event = "real \<times> int \<times> cicp"

definition start_event :: "cicp \<Rightarrow> event" where
  "start_event c = (ts_begin c, 1, c)"

definition end_event :: "cicp \<Rightarrow> event" where
  "end_event c = (ts_end c, -1, c)"

definition cicp_events :: "cicp list \<Rightarrow> event list" where
  "cicp_events df = concat (map (\<lambda>c. [start_event c, end_event c]) df)"

definition event_key :: "event \<Rightarrow> real \<times> int \<times> nat \<times> real list \<times> string \<times> int" where
  "event_key e = (case e of (ts, ty, c) \<Rightarrow> (ts, ty, idx c, timestamps c, command c, tid c))"

definition sorted_events :: "cicp list \<Rightarrow> event list" where
  "sorted_events df = sort_key event_key (cicp_events df)"

record sweep_state =
  active_threads :: "int set"
  current_tocc_cicps :: "cicp list"
  tocc_list :: "cicp list list"

definition sweep_init :: sweep_state where
  "sweep_init = \<lparr>active_threads = {}, current_tocc_cicps = [], tocc_list = []\<rparr>"

definition py_set_remove :: "int \<Rightarrow> int set \<Rightarrow> py_error + int set" where
  "py_set_remove x s = (if x \<in> s then Inr (s - {x}) else Inl KeyError)"

definition df_loc :: "cicp list \<Rightarrow> nat list \<Rightarrow> cicp list" where
  "df_loc df labels = concat (map (\<lambda>l. filter (\<lambda>c. idx c = l) df) labels)"

fun sweep_step :: "cicp list \<Rightarrow> sweep_state \<Rightarrow> event \<Rightarrow> sweep_state" where
  "sweep_step df st (ts, event_type, c) =
     (if event_type = 1 then
        (let cur = (if active_threads st = {} then [] else current_tocc_cicps st)
         in st\<lparr>active_threads := insert (tid c) (active_threads st),
               current_tocc_cicps := cur @ [c]\<rparr>)
      else
        (let act = (case py_set_remove (tid c) (active_threads st) of
                      Inl _ \<Rightarrow> active_threads st
                    | Inr s \<Rightarrow> s)
         in if act = {} then
              st\<lparr>active_threads := act,
                 tocc_list :=
                   (if 1 < length (current_tocc_cicps st)
                    then tocc_list st @ [df_loc df (map idx (current_tocc_cicps st))]
                    else tocc_list st),
                 current_tocc_cicps := []\<rparr>
            else st\<lparr>active_threads := act\<rparr>))"

definition sweep :: "cicp list \<Rightarrow> event list \<Rightarrow> sweep_state" where
  "sweep df evs = fold (\<lambda>e st. sweep_step df st e) evs sweep_init"

definition divide_TOCC_optimized :: "cicp list \<Rightarrow> cicp list list" where
  "divide_TOCC_optimized df =
     (if df = [] then []
      else sort_len_desc (tocc_list (sweep df (sorted_events df))))"

definition thread_disjoint :: "cicp list \<Rightarrow> bool" where
  "thread_disjoint df \<longleftrightarrow>
     (\<forall>c\<in>set df. \<forall>d\<in>set df. c \<noteq> d \<longrightarrow> tid c = tid d \<longrightarrow>
        ts_end c \<le> ts_begin d \<or> ts_end d \<le> ts_begin c)"

text \<open>A CICP with only the fields the partitioner reads, for the scenarios.\<close>

definition mk_cicp :: "nat \<Rightarrow> int \<Rightarrow> real \<Rightarrow> real \<Rightarrow> cicp" where
  "mk_cicp i t b e =
     \<lparr>idx = i, timestamps = [b, e], command = ''app'', tid = t, event = ''cpu-clock'',
      call_stack = [], function_call_stack = [], signature = [], duration_length = 2,
      ts_begin = b, ts_end = e\<rparr>"

text \<open>The scenarios of spec section 8, with one index label per row.\<close>

definition scenario_A :: "cicp list" where
  "scenario_A = [mk_cicp 0 1 0 3, mk_cicp 1 2 2 5, mk_cicp 2 3 10 12]"

definition scenario_B :: "cicp list" where
  "scenario_B = [mk_cicp 0 1 0 5, mk_cicp 1 2 1 4, mk_cicp 2 3 2 3]"

definition scenario_D :: "cicp list" where
  "scenario_D = [mk_cicp 0 1 0 10, mk_cicp 1 2 1 3, mk_cicp 2 2 3 6]"

subsection \<open>Order of the sorted events\<close>

definition opened :: "cicp list \<Rightarrow> event list \<Rightarrow> cicp set" where
  "opened df P = {c \<in> set df. start_event c \<in> set P \<and> end_event c \<notin> set P}"

definition well_bracketed :: "cicp list \<Rightarrow> event list \<Rightarrow> bool" where
  "well_bracketed df E \<longleftrightarrow>
     distinct E \<and> set E = set (cicp_events df) \<and>
     (\<forall>c\<in>set df. before E (start_event c) (end_event c)) \<and>
     (\<forall>c\<in>set df. \<forall>d\<in>set df. c \<noteq> d \<longrightarrow> tid c = tid d \<longrightarrow>
        before E (end_event c) (start_event d) \<or> before E (end_event d) (start_event c))"

lemma set_cicp_events: "set (cicp_events df) = start_event ` set df \<union> end_event ` set df"
  by (auto simp: cicp_events_def)

lemma start_ne_end [simp]: "start_event c \<noteq> end_event d" "end_event d \<noteq> start_event c"
  by (simp_all add: start_event_def end_event_def)

lemma start_event_eq [simp]: "(start_event c = start_event d) = (c = d)"
  by (auto simp: start_event_def)

lemma end_event_eq [simp]: "(end_event c = end_event d) = (c = d)"
  by (auto simp: end_event_def)

lemma distinct_cicp_events: "distinct df \<Longrightarrow> distinct (cicp_events df)"
  by (induction df) (auto simp: cicp_events_def)

lemma event_key_end_start:
  "ts_end c \<le> ts_begin d \<Longrightarrow> event_key (end_event c) < event_key (start_event d)"
  by (auto simp: event_key_def end_event_def start_event_def)

lemma event_key_start_end:
  "ts_begin c < ts_end c \<Longrightarrow> event_key (start_event c) < event_key (end_event c)"
  by (simp add: event_key_def end_event_def start_event_def)

lemma sorted_before_key:
  assumes "sorted (map f xs)" and "before xs a b"
  shows "f a \<le> f b"
proof -
  from assms(2) obtain i j where "i < j" "j < length xs" "xs ! i = a" "xs ! j = b"
    by (auto simp: before_def)
  with assms(1) show ?thesis by (auto simp: sorted_iff_nth_mono)
qed

text \<open>The sorted events of well-formed input: each CICP starts before it ends, and two
  CICPs of one thread are bracketed one after the other.\<close>

lemma sorted_events_well_bracketed:
  assumes "distinct df" and "\<forall>c\<in>set df. ts_begin c < ts_end c" and "thread_disjoint df"
  shows "well_bracketed df (sorted_events df)"
proof -
  let ?E = "sorted_events df"
  have sorted: "sorted (map event_key ?E)"
    by (simp add: sorted_events_def sorted_sort_key)
  have set_E: "set ?E = set (cicp_events df)"
    by (simp add: sorted_events_def)
  have mem: "start_event c \<in> set ?E" "end_event c \<in> set ?E" if "c \<in> set df" for c
    using that by (auto simp: set_E set_cicp_events)
  have w2: "before ?E (start_event c) (end_event c)" if "c \<in> set df" for c
    using sorted mem [OF that] event_key_start_end assms(2) that
    by (blast intro: sorted_key_before)
  have w3: "before ?E (end_event c) (start_event d) \<or> before ?E (end_event d) (start_event c)"
    if "c \<in> set df" "d \<in> set df" "c \<noteq> d" "tid c = tid d" for c d
  proof -
    from assms(3) that have "ts_end c \<le> ts_begin d \<or> ts_end d \<le> ts_begin c"
      by (auto simp: thread_disjoint_def)
    then show ?thesis
      using sorted mem that event_key_end_start by (blast intro: sorted_key_before)
  qed
  from assms(1) have "distinct ?E"
    by (simp add: sorted_events_def distinct_cicp_events)
  with set_E w2 w3 show ?thesis
    by (simp add: well_bracketed_def)
qed

subsection \<open>Open CICPs during the sweep\<close>

lemma well_bracketed_end_mem:
  "well_bracketed df E \<Longrightarrow> c \<in> set df \<Longrightarrow> end_event c \<in> set E"
  by (simp add: well_bracketed_def set_cicp_events)

lemma opened_tid_inj:
  assumes wb: "well_bracketed df (P @ S)"
  shows "inj_on tid (opened df P)"
proof (rule inj_onI)
  fix c d
  assume c: "c \<in> opened df P" and d: "d \<in> opened df P" and t: "tid c = tid d"
  show "c = d"
  proof (rule ccontr)
    assume ne: "c \<noteq> d"
    from wb have dist: "distinct (P @ S)" by (simp add: well_bracketed_def)
    from c d have cd: "c \<in> set df" "d \<in> set df" by (auto simp: opened_def)
    have "end_event c \<in> set (P @ S)" "end_event d \<in> set (P @ S)"
      using wb cd by (blast intro: well_bracketed_end_mem)+
    moreover from c d have "end_event c \<notin> set P" "end_event d \<notin> set P"
      by (auto simp: opened_def)
    ultimately have "end_event c \<in> set S" "end_event d \<in> set S"
      by auto
    moreover from c d have "start_event c \<in> set P" "start_event d \<in> set P"
      by (auto simp: opened_def)
    ultimately have b1: "before (P @ S) (start_event d) (end_event c)"
      and b2: "before (P @ S) (start_event c) (end_event d)"
      by (auto intro: before_append)
    have "\<not> before (P @ S) (end_event c) (start_event d)"
      using dist b1 by (rule before_asym)
    moreover have "\<not> before (P @ S) (end_event d) (start_event c)"
      using dist b2 by (rule before_asym)
    ultimately show False
      using wb cd ne t by (auto simp: well_bracketed_def)
  qed
qed

lemma opened_start:
  assumes wb: "well_bracketed df (P @ [start_event c] @ S)" and c: "c \<in> set df"
  shows "opened df (P @ [start_event c]) = insert c (opened df P)"
    and "c \<notin> opened df P"
proof -
  from wb have dist: "distinct (P @ [start_event c] @ S)" by (simp add: well_bracketed_def)
  from wb c have b: "before (P @ [start_event c] @ S) (start_event c) (end_event c)"
    by (simp add: well_bracketed_def)
  have "end_event c \<notin> set P"
  proof
    assume "end_event c \<in> set P"
    then have e: "before (P @ [start_event c] @ S) (end_event c) (start_event c)"
      by (intro before_append) simp_all
    have "\<not> before (P @ [start_event c] @ S) (end_event c) (start_event c)"
      using dist b by (rule before_asym)
    with e show False by contradiction
  qed
  with c show "opened df (P @ [start_event c]) = insert c (opened df P)"
    by (auto simp: opened_def)
  from dist show "c \<notin> opened df P"
    by (auto simp: opened_def)
qed

lemma opened_end:
  assumes wb: "well_bracketed df (P @ [end_event c] @ S)" and c: "c \<in> set df"
  shows "opened df (P @ [end_event c]) = opened df P - {c}"
    and "c \<in> opened df P"
proof -
  from wb have dist: "distinct (P @ [end_event c] @ S)" by (simp add: well_bracketed_def)
  from wb c have "before (P @ [end_event c] @ S) (start_event c) (end_event c)"
    by (simp add: well_bracketed_def)
  with dist have "start_event c \<in> set P"
    by (rule before_snoc_last)
  with dist c show "c \<in> opened df P"
    by (auto simp: opened_def)
  show "opened df (P @ [end_event c]) = opened df P - {c}"
    by (auto simp: opened_def)
qed

subsection \<open>The sweep invariant\<close>

text \<open>After a prefix \<open>P\<close> of a well-bracketed event list, the active thread ids are
  the ids of the open CICPs, the open CICPs belong to the current window, and every
  window with two or more CICPs, open or already emitted, spans two threads.\<close>

definition sweep_inv :: "cicp list \<Rightarrow> event list \<Rightarrow> sweep_state \<Rightarrow> bool" where
  "sweep_inv df P st \<longleftrightarrow>
     active_threads st = tid ` opened df P \<and>
     opened df P \<subseteq> set (current_tocc_cicps st) \<and>
     set (current_tocc_cicps st) \<subseteq> set df \<and>
     (1 < length (current_tocc_cicps st) \<longrightarrow> 2 \<le> card (tid ` set (current_tocc_cicps st))) \<and>
     (\<forall>w\<in>set (tocc_list st). 2 \<le> card (tid ` set w))"

lemma py_set_remove_caught [simp]:
  "(case py_set_remove x s of Inl _ \<Rightarrow> s | Inr s' \<Rightarrow> s') = s - {x}"
  by (auto simp: py_set_remove_def)

lemma df_loc_superset:
  "set cur \<subseteq> set df \<Longrightarrow> set cur \<subseteq> set (df_loc df (map idx cur))"
  by (auto simp: df_loc_def)

lemma df_loc_subset: "set (df_loc df labels) \<subseteq> set df"
  by (auto simp: df_loc_def)

lemma sweep_rows_subset:
  "\<forall>w\<in>set (tocc_list st0). set w \<subseteq> set df \<Longrightarrow>
   \<forall>w\<in>set (tocc_list (fold (\<lambda>e st. sweep_step df st e) evs st0)). set w \<subseteq> set df"
proof (induction evs arbitrary: st0)
  case (Cons e evs)
  obtain ts ty c where e: "e = (ts, ty, c)" by (cases e) auto
  have "\<forall>w\<in>set (tocc_list (sweep_step df st0 e)). set w \<subseteq> set df"
    using Cons.prems df_loc_subset by (auto simp: e Let_def)
  then show ?case using Cons.IH by simp
qed simp

lemma divide_TOCC_optimized_subset:
  "w \<in> set (divide_TOCC_optimized df) \<Longrightarrow> set w \<subseteq> set df"
  using sweep_rows_subset[of sweep_init df "sorted_events df"]
  by (auto simp add: divide_TOCC_optimized_def sweep_def sweep_init_def split: if_splits)

lemma two_le_card:
  assumes "a \<in> A" and "b \<in> A" and "a \<noteq> b" and "finite A"
  shows "2 \<le> card A"
proof -
  from assms have "card {a, b} \<le> card A" by (intro card_mono) auto
  with assms(3) show ?thesis by simp
qed

lemma sweep_step_start_inv:
  assumes wb: "well_bracketed df (P @ [start_event c] @ S)" and c: "c \<in> set df"
    and inv: "sweep_inv df P st"
  shows "sweep_inv df (P @ [start_event c]) (sweep_step df st (start_event c))"
proof -
  let ?O = "opened df P" and ?cur = "current_tocc_cicps st"
  have O': "opened df (P @ [start_event c]) = insert c ?O" and cO: "c \<notin> ?O"
    using wb c by (rule opened_start)+
  from wb have "well_bracketed df ((P @ [start_event c]) @ S)" by simp
  then have inj: "inj_on tid (insert c ?O)"
    using O' opened_tid_inj by metis
  from inv have A: "active_threads st = tid ` ?O" and sub: "?O \<subseteq> set ?cur"
    and cdf: "set ?cur \<subseteq> set df"
    by (simp_all add: sweep_inv_def)
  show ?thesis
  proof (cases "?O = {}")
    case True
    with A inv c O' show ?thesis
      by (simp add: sweep_inv_def start_event_def)
  next
    case False
    then obtain d where d: "d \<in> ?O" by blast
    with cO have "d \<noteq> c" by blast
    with inj_onD [OF inj, of d c] d have "tid d \<noteq> tid c" by blast
    moreover from d sub have "tid d \<in> tid ` set (?cur @ [c])" by auto
    moreover have "tid c \<in> tid ` set (?cur @ [c])" by simp
    ultimately have two: "2 \<le> card (tid ` set (?cur @ [c]))"
      by (intro two_le_card) auto
    from False A have "active_threads st \<noteq> {}" by simp
    with A inv c O' sub cdf two show ?thesis
      by (auto simp: sweep_inv_def start_event_def)
  qed
qed

lemma sweep_step_end_inv:
  assumes wb: "well_bracketed df (P @ [end_event c] @ S)" and c: "c \<in> set df"
    and inv: "sweep_inv df P st"
  shows "sweep_inv df (P @ [end_event c]) (sweep_step df st (end_event c))"
proof -
  let ?O = "opened df P" and ?cur = "current_tocc_cicps st"
  have O': "opened df (P @ [end_event c]) = ?O - {c}" and cO: "c \<in> ?O"
    using wb c by (rule opened_end)+
  have inj: "inj_on tid ?O"
    using wb by (intro opened_tid_inj [where S = "[end_event c] @ S"]) simp
  from inv have A: "active_threads st = tid ` ?O" and sub: "?O \<subseteq> set ?cur"
    and cdf: "set ?cur \<subseteq> set df"
    and two: "1 < length ?cur \<longrightarrow> 2 \<le> card (tid ` set ?cur)"
    and toccs: "\<forall>w\<in>set (tocc_list st). 2 \<le> card (tid ` set w)"
    by (simp_all add: sweep_inv_def)
  have act: "active_threads st - {tid c} = tid ` (?O - {c})"
    using inj cO A by (simp add: inj_on_image_set_diff)
  have new: "2 \<le> card (tid ` set (df_loc df (map idx ?cur)))" if "1 < length ?cur"
  proof -
    from cdf have "tid ` set ?cur \<subseteq> tid ` set (df_loc df (map idx ?cur))"
      by (intro image_mono df_loc_superset)
    then have "card (tid ` set ?cur) \<le> card (tid ` set (df_loc df (map idx ?cur)))"
      by (intro card_mono) simp_all
    with two that show ?thesis by simp
  qed
  show ?thesis
  proof (cases "?O - {c} = {}")
    case True
    with act O' toccs new show ?thesis
      by (simp add: sweep_inv_def end_event_def)
  next
    case False
    with act O' sub cdf two toccs show ?thesis
      by (auto simp: sweep_inv_def end_event_def)
  qed
qed

lemma sweep_inv_init: "sweep_inv df [] sweep_init"
  by (simp add: sweep_inv_def sweep_init_def opened_def)

lemma sweep_inv_prefix:
  assumes "well_bracketed df (P @ S)"
  shows "sweep_inv df P (fold (\<lambda>e st. sweep_step df st e) P sweep_init)"
  using assms
proof (induction P arbitrary: S rule: rev_induct)
  case Nil
  show ?case by (simp add: sweep_inv_init)
next
  case (snoc x P)
  from snoc.prems have wb: "well_bracketed df (P @ [x] @ S)" by simp
  then have IH: "sweep_inv df P (fold (\<lambda>e st. sweep_step df st e) P sweep_init)"
    using snoc.IH [of "[x] @ S"] by simp
  from wb have "x \<in> set (cicp_events df)"
    by (auto simp: well_bracketed_def)
  then obtain c where c: "c \<in> set df" and x: "x = start_event c \<or> x = end_event c"
    by (auto simp: set_cicp_events)
  from x show ?case
  proof
    assume "x = start_event c"
    with sweep_step_start_inv [OF _ c IH] wb show ?case by simp
  next
    assume "x = end_event c"
    with sweep_step_end_inv [OF _ c IH] wb show ?case by simp
  qed
qed

text \<open>C3 (divide_TOCC_optimized_two_threads). Every TOCC that
  \<^verbatim>\<open>divide_TOCC_optimized\<close> emits holds CICPs of at least two distinct threads
  (spec section 8), provided no CICP is empty in time and the CICPs of one thread do
  not overlap, which the compressor guarantees for time-ordered samples.\<close>

theorem divide_TOCC_optimized_two_threads:
  assumes "distinct df" and "\<forall>c\<in>set df. ts_begin c < ts_end c" and "thread_disjoint df"
    and "w \<in> set (divide_TOCC_optimized df)"
  shows "2 \<le> card (tid ` set w)"
proof -
  from assms(1-3) have "well_bracketed df (sorted_events df @ [])"
    by (simp add: sorted_events_well_bracketed)
  then have "sweep_inv df (sorted_events df) (sweep df (sorted_events df))"
    unfolding sweep_def by (rule sweep_inv_prefix)
  moreover from assms(4) have "w \<in> set (tocc_list (sweep df (sorted_events df)))"
    by (simp add: divide_TOCC_optimized_def split: if_splits)
  ultimately show ?thesis
    by (simp add: sweep_inv_def)
qed

lemma divide_TOCC_optimized_scenario_A:
  "divide_TOCC_optimized scenario_A = [[mk_cicp 0 1 0 3, mk_cicp 1 2 2 5]]"
  by code_simp

lemma divide_TOCC_optimized_two_threads_witness:
  "distinct scenario_A \<and> list_all (\<lambda>c. ts_begin c < ts_end c) scenario_A \<and>
   thread_disjoint scenario_A \<and>
   [mk_cicp 0 1 0 3, mk_cicp 1 2 2 5] \<in> set (divide_TOCC_optimized scenario_A) \<and>
   2 \<le> card (tid ` set [mk_cicp 0 1 0 3, mk_cicp 1 2 2 5])"
proof -
  have h1: "distinct scenario_A" and h2: "\<forall>c\<in>set scenario_A. ts_begin c < ts_end c"
    and h3: "thread_disjoint scenario_A"
    by (simp_all add: scenario_A_def mk_cicp_def thread_disjoint_def)
  have h4: "[mk_cicp 0 1 0 3, mk_cicp 1 2 2 5] \<in> set (divide_TOCC_optimized scenario_A)"
    by (simp add: divide_TOCC_optimized_scenario_A)
  from h1 h2 h3 h4 divide_TOCC_optimized_two_threads [OF h1 h2 h3 h4] show ?thesis
    by (simp add: list_all_iff)
qed

text \<open>Scenario B: three threads overlapping at
  one instant form exactly one TOCC holding all three CICPs.\<close>

theorem divide_TOCC_optimized_scenario_B:
  "divide_TOCC_optimized scenario_B = [scenario_B]"
  by code_simp

text \<open>Scenario D: a thread contributing two
  back-to-back CICPs inside another thread's CICP does not close the window early, even
  when the second begins at the instant the first ends.\<close>

theorem divide_TOCC_optimized_scenario_D:
  "divide_TOCC_optimized scenario_D = [scenario_D]"
  by code_simp

text \<open>END sorts before START at equal timestamps:
  a CICP that begins at the instant another thread's CICP ends does not overlap it, and
  the two form no TOCC.\<close>

theorem divide_TOCC_optimized_touching:
  "divide_TOCC_optimized [mk_cicp 0 1 0 3, mk_cicp 1 2 3 5] = []"
  by code_simp

text \<open>C28 (sorted_events_start_end). After \<^verbatim>\<open>events.sort()\<close>, the START event of a CICP
  comes before its END event exactly when the CICP has a positive length: for a CICP with
  \<open>ts_begin = ts_end\<close> the END (\<open>-1\<close>) is sorted first, so the sweep removes its thread
  before adding it, and the thread stays active after the CICP has ended.\<close>

theorem sorted_events_start_end:
  assumes "c \<in> set df"
  shows "before (sorted_events df) (start_event c) (end_event c) \<longleftrightarrow> ts_begin c < ts_end c"
proof -
  let ?E = "sorted_events df"
  have sorted: "sorted (map event_key ?E)" by (simp add: sorted_events_def sorted_sort_key)
  have mem: "start_event c \<in> set ?E" "end_event c \<in> set ?E"
    using assms by (auto simp: sorted_events_def set_cicp_events)
  show ?thesis
  proof
    assume b: "before ?E (start_event c) (end_event c)"
    show "ts_begin c < ts_end c"
    proof (rule ccontr)
      assume "\<not> ts_begin c < ts_end c"
      then have "event_key (end_event c) < event_key (start_event c)" by (simp add: event_key_end_start)
      with sorted_before_key[OF sorted b] show False by simp
    qed
  next
    assume "ts_begin c < ts_end c"
    then show "before ?E (start_event c) (end_event c)"
      using sorted mem event_key_start_end by (blast intro: sorted_key_before)
  qed
qed

lemma sorted_events_start_end_witness:
  "mk_cicp 0 1 2 2 \<in> set [mk_cicp 0 1 2 2, mk_cicp 1 1 7 9] \<and>
   \<not> before (sorted_events [mk_cicp 0 1 2 2, mk_cicp 1 1 7 9]) (start_event (mk_cicp 0 1 2 2)) (end_event (mk_cicp 0 1 2 2)) \<and>
   mk_cicp 1 1 7 9 \<in> set [mk_cicp 0 1 2 2, mk_cicp 1 1 7 9] \<and>
   before (sorted_events [mk_cicp 0 1 2 2, mk_cicp 1 1 7 9]) (start_event (mk_cicp 1 1 7 9)) (end_event (mk_cicp 1 1 7 9))"
proof -
  have m: "mk_cicp 0 1 2 2 \<in> set [mk_cicp 0 1 2 2, mk_cicp 1 1 7 9]"
          "mk_cicp 1 1 7 9 \<in> set [mk_cicp 0 1 2 2, mk_cicp 1 1 7 9]" by simp_all
  show ?thesis using sorted_events_start_end[OF m(1)] sorted_events_start_end[OF m(2)] m
    by (simp add: mk_cicp_def)
qed

text \<open>On two CICPs of one thread, the first of length zero, the code emits a TOCC of a
  single thread.\<close>

lemma divide_TOCC_optimized_zero_length:
  "divide_TOCC_optimized [mk_cicp 0 1 2 2, mk_cicp 1 1 7 9] = [[mk_cicp 0 1 2 2, mk_cicp 1 1 7 9]] \<and>
   card (tid ` set [mk_cicp 0 1 2 2, mk_cicp 1 1 7 9]) = 1"
proof
  show "divide_TOCC_optimized [mk_cicp 0 1 2 2, mk_cicp 1 1 7 9] =
      [[mk_cicp 0 1 2 2, mk_cicp 1 1 7 9]]"
    by code_simp
  show "card (tid ` set [mk_cicp 0 1 2 2, mk_cicp 1 1 7 9]) = 1"
    by (simp add: mk_cicp_def)
qed

text \<open>The per-thread index labels repeat
  across threads after \<^verbatim>\<open>pd.concat\<close>, and \<^verbatim>\<open>df.loc[labels]\<close> returns every row
  carrying a label: here thread 2's CICP labelled 0, which ends before the window opens,
  is put into the TOCC of thread 1's CICP 0 and thread 2's CICP 1.\<close>

theorem divide_TOCC_optimized_duplicate_labels:
  "divide_TOCC_optimized [mk_cicp 0 1 0 2, mk_cicp 0 2 (-5) (-4), mk_cicp 1 2 1 3] =
     [[mk_cicp 0 1 0 2, mk_cicp 0 2 (-5) (-4), mk_cicp 1 2 1 3]]"
  by code_simp

text \<open>Every TOCC is drawn from the input rows, and the
  TOCCs come sorted by descending number of rows, ties in the order the windows
  closed.\<close>

theorem divide_TOCC_optimized_shape:
  "list_all (\<lambda>w. set w \<subseteq> set df) (divide_TOCC_optimized df) \<and>
   sorted_wrt (\<lambda>a b. length b \<le> length a) (divide_TOCC_optimized df)"
proof
  show "list_all (\<lambda>w. set w \<subseteq> set df) (divide_TOCC_optimized df)"
    using divide_TOCC_optimized_subset by (simp add: list_all_iff)
  show "sorted_wrt (\<lambda>a b. length b \<le> length a) (divide_TOCC_optimized df)"
    by (simp add: divide_TOCC_optimized_def sort_len_desc_sorted)
qed

end
