(* ===== verification/Exec_Mode.thy ===== *)
theory Exec_Mode
  imports Compressor "HOL-Library.Word"
begin

text \<open>
  Execution-mode classifier (\<^verbatim>\<open>src/filtering.py\<close>, \<open>judge_execution_mode\<close> and
  \<open>distinguish_execution_mode\<close>).  The classifier reads the address token of the top
  frame of a CICP's call stack and compares it, as a string, with the kernel address
  bounds.  Beside the code we state the numeric contract of the design (the address
  read as an unsigned hexadecimal number, width inferred from the digit count) and
  prove that the string comparison implements it exactly for 8- and 16-digit
  lower-case addresses, and differs from it on other lengths.
\<close>

section \<open>The classifier as written\<close>

text \<open>Lines 327--345: the comparisons on the address token; \<open>1\<close> is user, \<open>0\<close> kernel.\<close>

definition address_execution_mode :: "string \<Rightarrow> int" where
  "address_execution_mode function_address =
     (let function_address_len = length function_address
      in if 10 < function_address_len then
           (if ''ffffffff80000000'' \<le> function_address \<and> function_address \<le> ''ffffffffffffffff''
            then 0 else 1)
         else
           (if ''c0000000'' \<le> function_address \<and> function_address \<le> ''xffffffff''
            then 0 else 1))"

text \<open>Lines 314--326: \<open>call_stack[-1]\<close> raises \<open>IndexError\<close> on an empty stack; the
  address is the first field of \<open>top_function.split(" ")\<close>, which always exists.\<close>

definition judge_execution_mode :: "string list \<Rightarrow> py_error + int" where
  "judge_execution_mode stack =
     (if stack = [] then Inl IndexError
      else let top_function = last stack;
               top_function_list = py_split_sep (CHR '' '') top_function;
               function_address = hd top_function_list
           in Inr (address_execution_mode function_address))"

text \<open>Lines 306--308: the boolean masks \<open>execution_mode == 0\<close> and \<open>== 1\<close>.\<close>

definition split_execution_modes :: "cicp list \<Rightarrow> int list \<Rightarrow> cicp list \<times> cicp list" where
  "split_execution_modes each_df modes =
     (map fst (filter (\<lambda>p. snd p = 0) (zip each_df modes)),
      map fst (filter (\<lambda>p. snd p = 1) (zip each_df modes)))"

definition distinguish_execution_mode ::
  "cicp list list \<Rightarrow> py_error + (cicp list \<times> cicp list) list" where
  "distinguish_execution_mode df_list =
     py_map_all (\<lambda>each_df.
        case py_map_all (\<lambda>c. judge_execution_mode (call_stack c)) each_df of
          Inl e \<Rightarrow> Inl e
        | Inr execution_mode \<Rightarrow> Inr (split_execution_modes each_df execution_mode)) df_list"

section \<open>The numeric contract\<close>

definition hex_digit :: "char \<Rightarrow> nat option" where
  "hex_digit c =
     (let n = of_char c :: nat in
      if 48 \<le> n \<and> n \<le> 57 then Some (n - 48)
      else if 97 \<le> n \<and> n \<le> 102 then Some (n - 87)
      else if 65 \<le> n \<and> n \<le> 70 then Some (n - 55)
      else None)"

definition digit_val :: "char \<Rightarrow> nat" where
  "digit_val c = (case hex_digit c of Some d \<Rightarrow> d | None \<Rightarrow> 0)"

definition hex_nat :: "string \<Rightarrow> nat" where
  "hex_nat s = foldl (\<lambda>acc c. 16 * acc + digit_val c) 0 s"

definition hex_value :: "string \<Rightarrow> nat option" where
  "hex_value s = (if s \<noteq> [] \<and> list_all (\<lambda>c. hex_digit c \<noteq> None) s then Some (hex_nat s) else None)"

text \<open>The same reading at machine width: a 64-bit accumulator, which wraps.\<close>

definition hex_word :: "string \<Rightarrow> 64 word" where
  "hex_word s = foldl (\<lambda>acc c. 16 * acc + of_nat (digit_val c)) 0 s"

definition kernel_address :: "string \<Rightarrow> bool" where
  "kernel_address a =
     (case hex_value a of
        None \<Rightarrow> False
      | Some v \<Rightarrow> if 10 < length a then 0xffffffff80000000 \<le> v \<and> v \<le> 0xffffffffffffffff
                 else 0xc0000000 \<le> v \<and> v \<le> 0xffffffff)"

definition spec_execution_mode :: "string \<Rightarrow> int" where
  "spec_execution_mode a = (if kernel_address a then 0 else 1)"

definition lower_hex_digit :: "char \<Rightarrow> bool" where
  "lower_hex_digit c = (let n = of_char c :: nat in (48 \<le> n \<and> n \<le> 57) \<or> (97 \<le> n \<and> n \<le> 102))"

section \<open>Place-value lemmas\<close>

lemma digit_val_less [simp]: "digit_val c < 16"
  by (auto simp add: digit_val_def hex_digit_def Let_def split: option.split)

lemma hex_nat_acc:
  "foldl (\<lambda>acc c. 16 * acc + digit_val c) a cs = a * 16 ^ length cs + hex_nat cs"
proof (induction cs arbitrary: a)
  case Nil
  then show ?case by (simp add: hex_nat_def)
next
  case (Cons c cs)
  have "foldl (\<lambda>acc c. 16 * acc + digit_val c) a (c # cs)
        = (16 * a + digit_val c) * 16 ^ length cs + hex_nat cs"
    using Cons.IH by simp
  also have "\<dots> = a * 16 ^ length (c # cs) + (digit_val c * 16 ^ length cs + hex_nat cs)"
    by (simp add: algebra_simps)
  also have "digit_val c * 16 ^ length cs + hex_nat cs = hex_nat (c # cs)"
    using Cons.IH[of "digit_val c"] by (simp add: hex_nat_def)
  finally show ?case .
qed

lemma hex_nat_Cons [simp]: "hex_nat (c # cs) = digit_val c * 16 ^ length cs + hex_nat cs"
proof -
  have "hex_nat (c # cs) = foldl (\<lambda>acc c. 16 * acc + digit_val c) (digit_val c) cs"
    by (simp add: hex_nat_def)
  then show ?thesis by (simp only: hex_nat_acc)
qed

lemma hex_nat_Nil [simp]: "hex_nat [] = 0"
  by (simp add: hex_nat_def)

lemma hex_nat_less: "hex_nat cs < 16 ^ length cs"
proof (induction cs)
  case Nil
  then show ?case by simp
next
  case (Cons c cs)
  have "digit_val c * 16 ^ length cs + hex_nat cs < (digit_val c + 1) * 16 ^ length cs"
    using Cons.IH by simp
  also have "\<dots> \<le> 16 * 16 ^ length cs"
    using digit_val_less[of c] by (intro mult_le_mono1) linarith
  finally show ?case by simp
qed

lemma place_value_less:
  fixes a b x y B :: nat
  assumes "a < b" "x < B"
  shows "a * B + x < b * B + y"
proof -
  have "a * B + x < (a + 1) * B" using assms(2) by simp
  also have "\<dots> \<le> b * B" using assms(1) by (intro mult_le_mono1) simp
  finally show ?thesis by simp
qed

lemma lower_hex_digit_mono:
  assumes "lower_hex_digit c" "lower_hex_digit d"
  shows "c < d \<longleftrightarrow> digit_val c < digit_val d"
  using assms
  by (auto simp add: less_char_def lower_hex_digit_def digit_val_def hex_digit_def Let_def)

lemma lower_hex_digit_inj:
  assumes "lower_hex_digit c" "lower_hex_digit d" "digit_val c = digit_val d"
  shows "c = d"
  using assms lower_hex_digit_mono[of c d] lower_hex_digit_mono[of d c]
  by (metis less_irrefl neqE)

text \<open>On lower-case hexadecimal strings of one length, the string order that
  \<open>>=\<close> and \<open><=\<close> use is the order of the numbers they denote.\<close>

lemma hex_lex_le:
  assumes "list_all lower_hex_digit xs" "list_all lower_hex_digit ys" "length xs = length ys"
  shows "xs \<le> ys \<longleftrightarrow> hex_nat xs \<le> hex_nat ys"
  using assms(3,1,2)
proof (induction xs ys rule: list_induct2)
  case Nil
  then show ?case by simp
next
  case (Cons c cs d ds)
  let ?B = "16 ^ length cs :: nat"
  have lc: "lower_hex_digit c" and ld: "lower_hex_digit d"
    using Cons.prems by simp_all
  have bc: "hex_nat cs < ?B" and bd: "hex_nat ds < ?B"
    using hex_nat_less[of cs] hex_nat_less[of ds] Cons.hyps by simp_all
  consider "c < d" | "c = d" | "d < c" by fastforce
  then show ?case
  proof cases
    case 1
    then have "digit_val c < digit_val d" using lower_hex_digit_mono[OF lc ld] by simp
    then have "hex_nat (c # cs) < hex_nat (d # ds)"
      using place_value_less[OF _ bc] Cons.hyps by simp
    with 1 show ?thesis by simp
  next
    case 2
    with Cons show ?thesis by simp
  next
    case 3
    then have "digit_val d < digit_val c" using lower_hex_digit_mono[OF ld lc] by simp
    then have "hex_nat (d # ds) < hex_nat (c # cs)"
      using place_value_less[OF _ bd] Cons.hyps by simp
    with 3 show ?thesis by (auto dest: order.asym)
  qed
qed

lemma lower_hex_digit_hex_digit:
  "lower_hex_digit c \<Longrightarrow> hex_digit c \<noteq> None"
  by (simp add: lower_hex_digit_def hex_digit_def Let_def; arith)

lemma hex_value_lower:
  "list_all lower_hex_digit a \<Longrightarrow> a \<noteq> [] \<Longrightarrow> hex_value a = Some (hex_nat a)"
  by (auto simp add: hex_value_def list_all_iff lower_hex_digit_hex_digit)

lemma lower_hex_below_x:
  "lower_hex_digit c \<Longrightarrow> c < CHR ''x''"
  by (simp add: lower_hex_digit_def less_char_def Let_def; arith)

lemma lower_hex_le_x: "list_all lower_hex_digit (c # cs) \<Longrightarrow> c # cs \<le> ''xffffffff''"
  by (simp add: lower_hex_below_x)

lemma hex_nat_mono_len:
  "length a = n \<Longrightarrow> hex_nat a \<le> 16 ^ n - 1"
  using hex_nat_less[of a] by simp

lemmas hex_literal_simps = hex_nat_Cons digit_val_def hex_digit_def lower_hex_digit_def Let_def

section \<open>The string comparison against the numeric contract\<close>

text \<open>For an address token of 16 lower-case
  hexadecimal digits (a 64-bit address as perf prints it) or of 8 digits (a 32-bit
  address), the string comparisons of \<open>judge_execution_mode\<close> classify the address
  exactly as the numeric contract of the design does: kernel iff the number lies in
  \<open>0xffffffff80000000..0xffffffffffffffff\<close>, resp. \<open>0xc0000000..0xffffffff\<close>.  The stray
  \<open>x\<close> in the 32-bit upper bound is harmless there, since every hexadecimal digit
  sorts below it.\<close>

lemma address_execution_mode_numeric:
  assumes hex: "list_all lower_hex_digit a" and len: "length a = 16 \<or> length a = 8"
  shows "address_execution_mode a = spec_execution_mode a"
proof -
  have ne: "a \<noteq> []" using len by auto
  have hv: "hex_value a = Some (hex_nat a)" using hex_value_lower[OF hex ne] .
  from len show ?thesis
  proof
    assume l16: "length a = 16"
    have lo: "''ffffffff80000000'' \<le> a \<longleftrightarrow> 0xffffffff80000000 \<le> hex_nat a"
      using hex_lex_le[OF _ hex, of "''ffffffff80000000''"] l16 by (simp add: hex_literal_simps)
    have hi: "a \<le> ''ffffffffffffffff'' \<longleftrightarrow> hex_nat a \<le> 0xffffffffffffffff"
      using hex_lex_le[OF hex _, of "''ffffffffffffffff''"] l16 by (simp add: hex_literal_simps)
    show ?thesis
      using lo hi l16 hv by (simp add: address_execution_mode_def spec_execution_mode_def kernel_address_def)
  next
    assume l8: "length a = 8"
    have lo: "''c0000000'' \<le> a \<longleftrightarrow> 0xc0000000 \<le> hex_nat a"
      using hex_lex_le[OF _ hex, of "''c0000000''"] l8 by (simp add: hex_literal_simps)
    have hi: "a \<le> ''xffffffff''"
      using hex ne lower_hex_le_x by (cases a) simp_all
    have bound: "hex_nat a \<le> 0xffffffff"
      using hex_nat_mono_len[OF l8] by simp
    show ?thesis
      using lo hi bound l8 hv by (simp add: address_execution_mode_def spec_execution_mode_def kernel_address_def)
  qed
qed

lemma hd_py_split_sep [py_simps]: "hd (py_split_sep d s) = takeWhile (\<lambda>c. c \<noteq> d) s"
  by (induction d s rule: py_split_sep.induct) (simp_all add: Let_def)

lemma lower_hex_not_space: "list_all lower_hex_digit a \<Longrightarrow> takeWhile (\<lambda>c. c \<noteq> CHR '' '') (a @ CHR '' '' # symbol) = a"
proof (induction a)
  case (Cons c a)
  then have "c \<noteq> CHR '' ''" by (auto simp add: lower_hex_digit_def Let_def)
  with Cons show ?case by simp
qed simp

text \<open>C5 (judge_execution_mode_numeric). When the top frame of a call stack starts with an
  address of 16 (64-bit) or 8 (32-bit) lower-case hexadecimal digits followed by a space,
  \<open>judge_execution_mode\<close> returns the mode the numeric contract of the design assigns to
  that address: kernel (0) iff it lies in the kernel range of its width.\<close>

theorem judge_execution_mode_numeric:
  assumes "list_all lower_hex_digit addr" "length addr = 16 \<or> length addr = 8"
  shows "judge_execution_mode (frames @ [addr @ CHR '' '' # symbol]) = Inr (spec_execution_mode addr)"
  using address_execution_mode_numeric[OF assms] lower_hex_not_space[OF assms(1)]
  by (simp add: judge_execution_mode_def hd_py_split_sep)

theorem judge_execution_mode_numeric_witness:
  "list_all lower_hex_digit ''ffffffff81a3c8f4'' \<and> length ''ffffffff81a3c8f4'' = 16 \<and>
   judge_execution_mode [''    55d0c1b2a3f0 main (/usr/bin/app)'',
                         ''ffffffff81a3c8f4 native_safe_halt ([kernel.kallsyms])''] =
     Inr (spec_execution_mode ''ffffffff81a3c8f4'') \<and>
   spec_execution_mode ''ffffffff81a3c8f4'' = 0"
proof -
  have h: "list_all lower_hex_digit ''ffffffff81a3c8f4''" by (simp add: lower_hex_digit_def)
  have "judge_execution_mode ([''    55d0c1b2a3f0 main (/usr/bin/app)''] @
          [''ffffffff81a3c8f4'' @ CHR '' '' # ''native_safe_halt ([kernel.kallsyms])'']) =
        Inr (spec_execution_mode ''ffffffff81a3c8f4'')"
    by (rule judge_execution_mode_numeric) (use h in simp_all)
  moreover have "spec_execution_mode ''ffffffff81a3c8f4'' = 0"
    using h by (simp add: spec_execution_mode_def kernel_address_def hex_value_lower hex_literal_simps)
  ultimately show ?thesis using h by simp
qed

text \<open>Outside those two widths the string
  comparison disagrees with the numeric contract: an 11-digit token \<open>ffffffff9ab\<close>
  (a 44-bit number, a user address) and a 3-digit token \<open>d00\<close> are both classified
  kernel, because \<open>"ffffffff9ab" >= "ffffffff80000000"\<close> and \<open>"d00" >= "c0000000"\<close>
  hold for strings.\<close>

theorem judge_execution_mode_lexicographic:
  "judge_execution_mode [''main'', ''ffffffff9ab foo''] = Inr 0 \<and>
   spec_execution_mode ''ffffffff9ab'' = 1 \<and>
   judge_execution_mode [''d00 bar''] = Inr 0 \<and> spec_execution_mode ''d00'' = 1"
  by (simp add: judge_execution_mode_def address_execution_mode_def hd_py_split_sep
        spec_execution_mode_def kernel_address_def hex_value_def hex_literal_simps)

section \<open>The contract at machine width\<close>

lemma hex_word_acc:
  "foldl (\<lambda>acc c. 16 * acc + of_nat (digit_val c)) (of_nat a :: 64 word) cs =
   of_nat (foldl (\<lambda>acc c. 16 * acc + digit_val c) a cs)"
proof (induction cs arbitrary: a)
  case (Cons c cs)
  show ?case using Cons.IH[of "16 * a + digit_val c"] by simp
qed simp

lemma hex_word_of_nat: "hex_word s = of_nat (hex_nat s)"
  using hex_word_acc[of 0 s] by (simp add: hex_word_def hex_nat_def)

text \<open>Up to 16 digits a 64-bit accumulator holds the exact value of the address, so
  the numeric contract can be evaluated at machine width; a 17th digit wraps.\<close>

lemma hex_word_unat: "length s \<le> 16 \<Longrightarrow> unat (hex_word s) = hex_nat s"
proof -
  assume "length s \<le> 16"
  then have "hex_nat s < 2 ^ 64"
    using hex_nat_less[of s] power_increasing[of "length s" 16 "16::nat"] by simp
  then show ?thesis by (simp add: hex_word_of_nat unat_of_nat)
qed

lemma hex_word_wraps: "hex_word ''10000000000000000'' = 0"
  by (simp add: hex_word_of_nat hex_literal_simps)

section \<open>Splitting the windows\<close>

lemma judge_execution_mode_isl [simp]: "isl (judge_execution_mode stack) \<longleftrightarrow> stack = []"
  by (simp add: judge_execution_mode_def Let_def)

lemma judge_execution_mode_Nil [simp]: "judge_execution_mode [] = Inl IndexError"
  by (simp add: judge_execution_mode_def)

lemma judge_execution_mode_range:
  "stack \<noteq> [] \<Longrightarrow> judge_execution_mode stack = Inr 0 \<or> judge_execution_mode stack = Inr 1"
  by (simp add: judge_execution_mode_def address_execution_mode_def Let_def)

lemma split_execution_modes_map:
  "split_execution_modes df (map g df) = (filter (\<lambda>c. g c = 0) df, filter (\<lambda>c. g c = 1) df)"
  by (induction df) (simp_all add: split_execution_modes_def)

lemma judge_window:
  "py_map_all (\<lambda>c. judge_execution_mode (call_stack c)) df =
     (if list_ex (\<lambda>c. call_stack c = []) df then Inl IndexError
      else Inr (map (\<lambda>c. projr (judge_execution_mode (call_stack c))) df))"
proof (cases "list_ex (\<lambda>c. call_stack c = []) df")
  case True
  let ?bad = "filter (\<lambda>c. isl (judge_execution_mode (call_stack c))) df"
  have "?bad \<noteq> []" using True by (simp add: list_ex_iff filter_empty_conv)
  then have "call_stack (hd ?bad) = []" using hd_in_set[of ?bad] by simp
  then show ?thesis using True py_map_all_Inl[of "\<lambda>c. judge_execution_mode (call_stack c)" df] by simp
next
  case False
  then show ?thesis by (simp add: py_map_all_Inr list_ex_iff list_all_iff)
qed

lemma filter_projr_judge:
  "\<not> list_ex (\<lambda>c. call_stack c = []) df \<Longrightarrow>
   filter (\<lambda>c. projr (judge_execution_mode (call_stack c)) = m) df =
   filter (\<lambda>c. judge_execution_mode (call_stack c) = Inr m) df"
  by (rule filter_cong) (auto simp add: list_ex_iff judge_execution_mode_def)

lemma distinguish_execution_mode_char:
  "distinguish_execution_mode df_list =
     (if list_ex (\<lambda>df. list_ex (\<lambda>c. call_stack c = []) df) df_list then Inl IndexError
      else Inr (map (\<lambda>df. (filter (\<lambda>c. judge_execution_mode (call_stack c) = Inr 0) df,
                          filter (\<lambda>c. judge_execution_mode (call_stack c) = Inr 1) df)) df_list))"
  unfolding distinguish_execution_mode_def
  by (induction df_list)
     (simp_all add: judge_window split_execution_modes_map filter_projr_judge split: sum.split)

lemma window_modes_partition:
  assumes "\<not> list_ex (\<lambda>c. call_stack c = []) df"
  shows "mset (filter (\<lambda>c. judge_execution_mode (call_stack c) = Inr 0) df) +
         mset (filter (\<lambda>c. judge_execution_mode (call_stack c) = Inr 1) df) = mset df"
proof -
  have "filter (\<lambda>c. judge_execution_mode (call_stack c) = Inr 1) df =
        filter (\<lambda>c. \<not> judge_execution_mode (call_stack c) = Inr 0) df"
    using assms judge_execution_mode_range by (intro filter_cong) (auto simp: list_ex_iff)
  then show ?thesis by (simp add: mset_filter multiset_partition[symmetric])
qed

lemma distinguish_execution_mode_parts:
  assumes "distinguish_execution_mode df_list = Inr pairs" "p \<in> set pairs"
  shows "\<exists>df\<in>set df_list. set (fst p) \<subseteq> set df \<and> set (snd p) \<subseteq> set df"
  using assms by (fastforce simp add: distinguish_execution_mode_char split: if_splits)

text \<open>\<open>distinguish_execution_mode\<close> fails exactly
  when some window holds a CICP with an empty call stack, and then with the
  \<open>IndexError\<close> of \<open>call_stack[-1]\<close>; no other error is possible.\<close>

theorem distinguish_execution_mode_error:
  "distinguish_execution_mode df_list = Inl e \<longleftrightarrow>
     e = IndexError \<and> list_ex (\<lambda>df. list_ex (\<lambda>c. call_stack c = []) df) df_list"
  by (auto simp add: distinguish_execution_mode_char)

text \<open>C23 (distinguish_execution_mode_partition). When it succeeds, the result has one
  pair per window; the first component holds exactly the window's CICPs classified
  kernel, and the two components together hold every CICP of the window exactly once.\<close>

theorem distinguish_execution_mode_partition:
  assumes "distinguish_execution_mode df_list = Inr pairs"
  shows "list_all2 (\<lambda>df p. fst p = filter (\<lambda>c. judge_execution_mode (call_stack c) = Inr 0) df \<and>
                           mset (fst p) + mset (snd p) = mset df) df_list pairs"
proof -
  have ok: "\<not> list_ex (\<lambda>df. list_ex (\<lambda>c. call_stack c = []) df) df_list"
    and pairs: "pairs = map (\<lambda>df. (filter (\<lambda>c. judge_execution_mode (call_stack c) = Inr 0) df,
                          filter (\<lambda>c. judge_execution_mode (call_stack c) = Inr 1) df)) df_list"
    using assms by (simp_all add: distinguish_execution_mode_char split: if_splits)
  have "list_all (\<lambda>df. \<not> list_ex (\<lambda>c. call_stack c = []) df) df_list"
    using ok by (simp add: list_ex_iff list_all_iff)
  then show ?thesis
    unfolding pairs by (induction df_list) (simp_all add: window_modes_partition[simplified])
qed

definition ex_mode_cicp :: "nat \<Rightarrow> int \<Rightarrow> string list \<Rightarrow> cicp" where
  "ex_mode_cicp i t cs =
     \<lparr>idx = i, timestamps = [0, 1], command = ''app'', tid = t, event = ''cpu-clock'',
      call_stack = cs, function_call_stack = function_call_stack_of cs, signature = '''',
      duration_length = 2, ts_begin = 0, ts_end = 1\<rparr>"

definition ex_windows :: "cicp list list" where
  "ex_windows =
     [[ex_mode_cicp 0 1 [''ffffffff81a3c8f4 native_safe_halt ([kernel.kallsyms])''],
       ex_mode_cicp 0 2 [''    55d0c1b2a3f0 main (/usr/bin/app)'']]]"

theorem distinguish_execution_mode_partition_witness:
  "distinguish_execution_mode ex_windows = Inr (projr (distinguish_execution_mode ex_windows)) \<and>
   list_all2 (\<lambda>df p. fst p = filter (\<lambda>c. judge_execution_mode (call_stack c) = Inr 0) df \<and>
                     mset (fst p) + mset (snd p) = mset df)
     ex_windows (projr (distinguish_execution_mode ex_windows)) \<and>
   projr (distinguish_execution_mode ex_windows) =
     [([ex_mode_cicp 0 1 [''ffffffff81a3c8f4 native_safe_halt ([kernel.kallsyms])'']],
       [ex_mode_cicp 0 2 [''    55d0c1b2a3f0 main (/usr/bin/app)'']])]"
proof -
  have r: "distinguish_execution_mode ex_windows = Inr (projr (distinguish_execution_mode ex_windows))"
    by (simp add: distinguish_execution_mode_char ex_windows_def ex_mode_cicp_def)
  have v: "projr (distinguish_execution_mode ex_windows) =
     [([ex_mode_cicp 0 1 [''ffffffff81a3c8f4 native_safe_halt ([kernel.kallsyms])'']],
       [ex_mode_cicp 0 2 [''    55d0c1b2a3f0 main (/usr/bin/app)'']])]"
    by (simp add: distinguish_execution_mode_char ex_windows_def ex_mode_cicp_def
          judge_execution_mode_def address_execution_mode_def hd_py_split_sep)
  show ?thesis using r v distinguish_execution_mode_partition[OF r] by simp
qed

end
