(* ===== verification/Pruner.thy ===== *)
theory Pruner
  imports Exec_Mode
begin

text \<open>
  Threshold pruner (\<^verbatim>\<open>src/filtering.py\<close>, \<open>pruning_by_threshold\<close> and
  \<open>duration_threshold_setting\<close>).  The threshold is a variable of the loop over the
  groups: the sentinel \<open>-1\<close> is replaced by the mean of the first group and that value
  is kept for all later groups.  The mean of an empty group is \<open>0 / 0\<close> on a numpy
  integer, which is \<open>nan\<close>, not an exception; it is modelled as \<open>None\<close>, and every
  comparison with it is false.
\<close>

section \<open>The pruner as written\<close>

text \<open>Lines 361--363: \<open>each_df["duration_length"].sum() / len(each_df)\<close>.\<close>

definition group_mean :: "cicp list \<Rightarrow> real option" where
  "group_mean each_df =
     (if each_df = [] then None
      else Some (real (sum_list (map duration_length each_df)) / real (length each_df)))"

text \<open>\<open>x >= t\<close> for a float \<open>t\<close>, \<open>None\<close> standing for \<open>nan\<close>.\<close>

definition py_ge :: "real \<Rightarrow> real option \<Rightarrow> bool" where
  "py_ge x t = (case t of None \<Rightarrow> False | Some v \<Rightarrow> v \<le> x)"

text \<open>Lines 358--365: the loop, the threshold carried from one group to the next.\<close>

fun pruning_loop :: "real option \<Rightarrow> cicp list list \<Rightarrow> cicp list list" where
  "pruning_loop duration_length_threshold [] = []"
| "pruning_loop duration_length_threshold (each_df # rest) =
     (let duration_length_threshold =
            (if duration_length_threshold = Some (-1) then group_mean each_df
             else duration_length_threshold);
          tmp_df = filter (\<lambda>c. py_ge (real (duration_length c)) duration_length_threshold) each_df
      in tmp_df # pruning_loop duration_length_threshold rest)"

definition pruning_by_threshold :: "cicp list list \<Rightarrow> int \<Rightarrow> cicp list list" where
  "pruning_by_threshold df_list duration_length_threshold =
     pruning_loop (Some (real_of_int duration_length_threshold)) df_list"

text \<open>Lines 382--395: the non-empty kernel parts and the non-empty user parts of all
  windows are collected into two lists, each pruned on its own.\<close>

definition duration_threshold_setting ::
  "(cicp list \<times> cicp list) list \<Rightarrow> int \<Rightarrow> cicp list list list" where
  "duration_threshold_setting df_list duration_length_threshold =
     (let kernel_tocc_df_list = filter (\<lambda>df. 0 < length df) (map fst df_list);
          user_tocc_df_list = filter (\<lambda>df. 0 < length df) (map snd df_list);
          tmp_res_df_list = [kernel_tocc_df_list, user_tocc_df_list]
      in map (\<lambda>each_df_list. pruning_by_threshold each_df_list duration_length_threshold)
           tmp_res_df_list)"

section \<open>The contract of the design\<close>

definition mean_duration :: "cicp list \<Rightarrow> real" where
  "mean_duration g = real (sum_list (map duration_length g)) / real (length g)"

text \<open>Each group pruned independently, against the explicit threshold or, for the
  sentinel, against the group's own mean.\<close>

definition spec_pruning :: "int \<Rightarrow> cicp list list \<Rightarrow> cicp list list" where
  "spec_pruning thr gs =
     map (\<lambda>g. filter (\<lambda>c. (if thr = -1 then mean_duration g else real_of_int thr)
                            \<le> real (duration_length c)) g) gs"

section \<open>Behaviour of the loop\<close>

lemma group_mean_Some: "g \<noteq> [] \<Longrightarrow> group_mean g = Some (mean_duration g)"
  by (simp add: group_mean_def mean_duration_def)

lemma mean_duration_nonneg: "0 \<le> mean_duration g"
  by (simp add: mean_duration_def)

lemma pruning_loop_const:
  "t \<noteq> Some (-1) \<Longrightarrow> pruning_loop t gs = map (filter (\<lambda>c. py_ge (real (duration_length c)) t)) gs"
  by (induction gs) (simp_all add: Let_def)

lemma pruning_by_threshold_sentinel:
  assumes "g \<noteq> []"
  shows "pruning_by_threshold (g # gs) (-1) =
           map (filter (\<lambda>c. mean_duration g \<le> real (duration_length c))) (g # gs)"
proof -
  have "Some (mean_duration g) \<noteq> Some (-1)"
    using mean_duration_nonneg[of g] by auto
  then show ?thesis
    using assms by (simp add: pruning_by_threshold_def group_mean_Some pruning_loop_const py_ge_def)
qed

lemma sum_below_bound:
  fixes f :: "cicp \<Rightarrow> nat"
  assumes "g \<noteq> []" "\<forall>c\<in>set g. real (f c) < m"
  shows "real (sum_list (map f g)) < real (length g) * m"
  using assms
proof (induction g)
  case (Cons a g)
  show ?case
  proof (cases "g = []")
    case False
    with Cons have "real (sum_list (map f g)) < real (length g) * m" by simp
    with Cons.prems show ?thesis by (simp add: algebra_simps)
  qed (use Cons.prems in simp)
qed simp

lemma mean_duration_attained:
  assumes "g \<noteq> []"
  shows "filter (\<lambda>c. mean_duration g \<le> real (duration_length c)) g \<noteq> []"
proof
  assume "filter (\<lambda>c. mean_duration g \<le> real (duration_length c)) g = []"
  then have "\<forall>c\<in>set g. real (duration_length c) < mean_duration g"
    by (auto simp add: filter_empty_conv)
  then have "real (sum_list (map duration_length g)) < real (length g) * mean_duration g"
    using sum_below_bound[OF assms] by blast
  then show False using assms by (simp add: mean_duration_def)
qed

lemma duration_threshold_setting_groups:
  "duration_threshold_setting pairs thr =
     [pruning_by_threshold (filter (\<lambda>df. df \<noteq> []) (map fst pairs)) thr,
      pruning_by_threshold (filter (\<lambda>df. df \<noteq> []) (map snd pairs)) thr]"
  by (simp add: duration_threshold_setting_def)

lemma pruning_by_threshold_sentinel_nonempty:
  "list_all (\<lambda>g. g \<noteq> []) gs \<Longrightarrow>
   pruning_by_threshold gs (-1) = map (filter (\<lambda>c. mean_duration (hd gs) \<le> real (duration_length c))) gs"
proof (cases gs)
  case Nil
  then show ?thesis by (simp add: pruning_by_threshold_def)
next
  case (Cons g gs')
  assume "list_all (\<lambda>g. g \<noteq> []) gs"
  with Cons show ?thesis using pruning_by_threshold_sentinel[of g gs'] by simp
qed

lemma pruning_loop_subset: "r \<in> set (pruning_loop t gs) \<Longrightarrow> \<exists>g\<in>set gs. set r \<subseteq> set g"
  by (induction t gs rule: pruning_loop.induct) (auto simp add: Let_def)

lemma duration_threshold_setting_subset:
  assumes "gs \<in> set (duration_threshold_setting pairs thr)" "g \<in> set gs"
  shows "\<exists>p\<in>set pairs. set g \<subseteq> set (fst p) \<or> set g \<subseteq> set (snd p)"
  using assms pruning_loop_subset
  by (fastforce simp add: duration_threshold_setting_groups pruning_by_threshold_def)

section \<open>Properties\<close>

text \<open>C4 (duration_threshold_setting_sentinel). With the sentinel \<open>-1\<close>,
  \<open>duration_threshold_setting\<close> returns the kernel list and the user list of the
  non-empty parts of the windows, every group of a list pruned against the mean
  duration of the first group of that list (the sentinel is overwritten by the first
  mean and never restored).\<close>

theorem duration_threshold_setting_sentinel:
  "duration_threshold_setting pairs (-1) =
     map (\<lambda>gs. map (filter (\<lambda>c. mean_duration (hd gs) \<le> real (duration_length c))) gs)
       [filter (\<lambda>df. df \<noteq> []) (map fst pairs), filter (\<lambda>df. df \<noteq> []) (map snd pairs)]"
  by (simp add: duration_threshold_setting_groups pruning_by_threshold_sentinel_nonempty list_all_iff)

text \<open>With the sentinel, the first group of
  each list keeps at least one CICP (one of maximal duration is never below the mean);
  later groups may be emptied.\<close>

theorem duration_threshold_setting_first_kept:
  "list_all (\<lambda>gs. gs = [] \<or> hd gs \<noteq> []) (duration_threshold_setting pairs (-1))"
proof -
  have "\<And>gs. list_all (\<lambda>g. g \<noteq> []) gs \<Longrightarrow>
          pruning_by_threshold gs (-1) = [] \<or> hd (pruning_by_threshold gs (-1)) \<noteq> []"
    by (case_tac gs) (simp_all add: pruning_by_threshold_sentinel_nonempty mean_duration_attained)
  then show ?thesis by (simp add: duration_threshold_setting_groups list_all_iff)
qed

text \<open>C29 (pruning_by_threshold_explicit). With an explicit threshold \<open>t \<noteq> -1\<close> the
  pruner implements the contract: every group keeps exactly its CICPs of
  \<open>duration_length \<ge> t\<close>.\<close>

theorem pruning_by_threshold_explicit:
  "thr \<noteq> -1 \<Longrightarrow> pruning_by_threshold gs thr = spec_pruning thr gs"
  by (simp add: pruning_by_threshold_def pruning_loop_const spec_pruning_def py_ge_def)

definition ex_dur_cicp :: "nat \<Rightarrow> nat \<Rightarrow> cicp" where
  "ex_dur_cicp i d = (ex_mode_cicp i 1 [])\<lparr>duration_length := d\<rparr>"

definition ex_groups :: "cicp list list" where
  "ex_groups = [[ex_dur_cicp 0 2, ex_dur_cicp 1 2], [ex_dur_cicp 2 10, ex_dur_cicp 3 20]]"

lemma duration_length_ex_dur_cicp [simp]: "duration_length (ex_dur_cicp i d) = d"
  by (simp add: ex_dur_cicp_def)

theorem pruning_by_threshold_explicit_witness:
  "(3::int) \<noteq> -1 \<and> pruning_by_threshold ex_groups 3 = spec_pruning 3 ex_groups \<and>
   spec_pruning 3 ex_groups = [[], [ex_dur_cicp 2 10, ex_dur_cicp 3 20]]"
  using pruning_by_threshold_explicit[of 3 ex_groups] by (simp add: spec_pruning_def ex_groups_def)

text \<open>The sentinel contract is not met: for a
  first group of durations 2, 2 (mean 2) and a second group of durations 10, 20 (own
  mean 15), the code prunes the second group against 2 and keeps both CICPs, where
  pruning against the group's own mean keeps only the CICP of duration 20.\<close>

theorem pruning_by_threshold_global_mean:
  "pruning_by_threshold ex_groups (-1) = ex_groups \<and>
   spec_pruning (-1) ex_groups = [[ex_dur_cicp 0 2, ex_dur_cicp 1 2], [ex_dur_cicp 3 20]]"
  by (simp add: ex_groups_def pruning_by_threshold_def group_mean_def py_ge_def
        spec_pruning_def mean_duration_def)

text \<open>An empty first group under the sentinel
  makes the threshold \<open>nan\<close>; no duration compares \<open>>=\<close> to it, and since \<open>nan\<close> is
  not \<open>-1\<close> it is kept: every group of the list is pruned to nothing.\<close>

theorem pruning_by_threshold_empty_first:
  "pruning_by_threshold ([] # gs) (-1) = replicate (Suc (length gs)) []"
proof -
  have "map (filter (\<lambda>c. False)) gs = replicate (length gs) ([] :: cicp list)"
    by (induction gs) simp_all
  then show ?thesis by (simp add: pruning_by_threshold_def group_mean_def pruning_loop_const py_ge_def)
qed

end
