(* ===== verification/Subdivider.thy ===== *)
theory Subdivider
  imports Partitioner Pruner
begin

text \<open>
  Recursive subdivider (\<^verbatim>\<open>src/filtering.py\<close>, \<open>divide_TOCC\<close>, \<open>divide_each_subTOCC\<close>,
  \<open>divide_subTOCC\<close>).  The subdivider does not reuse the sweep of
  \<open>divide_TOCC_optimized\<close>: it runs the older quadratic \<open>divide_TOCC\<close>, which grows an
  interval \<open>[ts_begin_bound, ts_end_bound]\<close> from each not yet used row and identifies
  rows by their \<open>ts_begin\<close> value (the keys \<open>str(ts_begin)\<close> of \<open>ts_begin_dic\<close>; the
  string of a float determines it, so the keys are modelled as the reals, the
  dictionary as the list of its keys).  \<open>sort_values(by=["ts_begin"])\<close> is modelled as
  a stable sort; pandas' default quicksort does not promise it, which matters only
  for rows of equal \<open>ts_begin\<close>.
\<close>

section \<open>divide_TOCC\<close>

text \<open>Lines 261--275: the inner loop over the rows after row \<open>i\<close>.\<close>

fun tocc_scan :: "real list \<Rightarrow> real \<Rightarrow> real \<Rightarrow> real list \<Rightarrow> cicp list \<Rightarrow> real list \<times> real list" where
  "tocc_scan ts_begin_dic ts_begin_bound ts_end_bound tocc [] = (ts_begin_dic, tocc)"
| "tocc_scan ts_begin_dic ts_begin_bound ts_end_bound tocc (r # rs) =
     (let tmp_ts_begin = ts_begin r; tmp_ts_end = ts_end r in
      if tmp_ts_begin \<in> set ts_begin_dic then tocc_scan ts_begin_dic ts_begin_bound ts_end_bound tocc rs
      else if ts_begin_bound > tmp_ts_end \<or> ts_end_bound < tmp_ts_begin
      then tocc_scan ts_begin_dic ts_begin_bound ts_end_bound tocc rs
      else tocc_scan (tmp_ts_begin # ts_begin_dic)
             (if ts_begin_bound > tmp_ts_begin then tmp_ts_begin else ts_begin_bound)
             (if ts_end_bound < tmp_ts_end then tmp_ts_end else ts_end_bound)
             (tocc @ [tmp_ts_begin]) rs)"

text \<open>Lines 250--277: the outer loop, \<open>i\<close> ranging over all rows but the last.\<close>

fun tocc_outer :: "real list \<Rightarrow> cicp list \<Rightarrow> real list list" where
  "tocc_outer ts_begin_dic [] = []"
| "tocc_outer ts_begin_dic [r] = []"
| "tocc_outer ts_begin_dic (r # r' # rs) =
     (if ts_begin r \<in> set ts_begin_dic then tocc_outer ts_begin_dic (r' # rs)
      else let (ts_begin_dic', tocc) =
                 tocc_scan (ts_begin r # ts_begin_dic) (ts_begin r) (ts_end r) [ts_begin r] (r' # rs)
           in (if 1 < length tocc then [tocc] else []) @ tocc_outer ts_begin_dic' (r' # rs))"

text \<open>Lines 246--290: sort the rows, collect the TOCCs of \<open>ts_begin\<close> values, sort
  them by descending length and select for each value all rows that begin there.\<close>

definition divide_TOCC :: "cicp list \<Rightarrow> cicp list list" where
  "divide_TOCC df0 =
     (let df = sort_key ts_begin df0;
          tocc_list = sort_len_desc (tocc_outer [] df)
      in map (\<lambda>tocc. concat (map (\<lambda>t. filter (\<lambda>r. ts_begin r = t) df) tocc)) tocc_list)"

text \<open>Lines 398--415 and 418--433.\<close>

definition divide_each_subTOCC :: "cicp list list \<Rightarrow> cicp list list" where
  "divide_each_subTOCC df_list = sort_len_desc (concat (map divide_TOCC df_list))"

definition divide_subTOCC :: "cicp list list list \<Rightarrow> cicp list list list" where
  "divide_subTOCC df_list = map divide_each_subTOCC df_list"

section \<open>The keys a scan collects\<close>

lemma tocc_scan_new:
  "tocc_scan dic lo hi tocc rs = (dic', tocc') \<Longrightarrow>
   \<exists>new. tocc' = tocc @ new \<and> dic' = rev new @ dic \<and> distinct new \<and>
         set new \<inter> set dic = {} \<and> set new \<subseteq> ts_begin ` set rs"
proof (induction rs arbitrary: dic lo hi tocc dic' tocc')
  case Nil
  then show ?case by simp
next
  case (Cons r rs)
  show ?case
  proof (cases "ts_begin r \<in> set dic \<or> lo > ts_end r \<or> hi < ts_begin r")
    case True
    then have "tocc_scan dic lo hi tocc (r # rs) = tocc_scan dic lo hi tocc rs"
      by (cases "ts_begin r \<in> set dic") (simp_all add: Let_def)
    then have "tocc_scan dic lo hi tocc rs = (dic', tocc')"
      using Cons.prems by simp
    from Cons.IH[OF this] obtain new where "tocc' = tocc @ new" "dic' = rev new @ dic"
      "distinct new" "set new \<inter> set dic = {}" "set new \<subseteq> ts_begin ` set rs"
      by blast
    then show ?thesis by (intro exI[of _ new]) auto
  next
    case False
    let ?lo = "if lo > ts_begin r then ts_begin r else lo"
    let ?hi = "if hi < ts_end r then ts_end r else hi"
    have "tocc_scan (ts_begin r # dic) ?lo ?hi (tocc @ [ts_begin r]) rs = (dic', tocc')"
      using Cons.prems False by (simp add: Let_def)
    from Cons.IH[OF this] obtain new where "tocc' = (tocc @ [ts_begin r]) @ new"
      "dic' = rev new @ ts_begin r # dic" "distinct new" "set new \<inter> set (ts_begin r # dic) = {}"
      "set new \<subseteq> ts_begin ` set rs"
      by blast
    then show ?thesis using False
      by (intro exI[of _ "ts_begin r # new"]) auto
  qed
qed

lemma tocc_outer_keys:
  "distinct (concat (tocc_outer dic rs)) \<and> set (concat (tocc_outer dic rs)) \<inter> set dic = {} \<and>
   set (concat (tocc_outer dic rs)) \<subseteq> ts_begin ` set rs \<and>
   list_all (\<lambda>tocc. 1 < length tocc) (tocc_outer dic rs)"
proof (induction dic rs rule: tocc_outer.induct)
  case (3 dic r r' rs)
  show ?case
  proof (cases "ts_begin r \<in> set dic")
    case True
    then show ?thesis using "3.IH"(1) by auto
  next
    case False
    obtain dic' tocc where sc:
      "tocc_scan (ts_begin r # dic) (ts_begin r) (ts_end r) [ts_begin r] (r' # rs) = (dic', tocc)"
      by (metis surj_pair)
    then obtain new where new: "tocc = [ts_begin r] @ new" "dic' = rev new @ ts_begin r # dic"
      "distinct new" "set new \<inter> set (ts_begin r # dic) = {}" "set new \<subseteq> ts_begin ` set (r' # rs)"
      using tocc_scan_new by blast
    have ih: "distinct (concat (tocc_outer dic' (r' # rs))) \<and>
      set (concat (tocc_outer dic' (r' # rs))) \<inter> set dic' = {} \<and>
      set (concat (tocc_outer dic' (r' # rs))) \<subseteq> ts_begin ` set (r' # rs) \<and>
      list_all (\<lambda>tocc. 1 < length tocc) (tocc_outer dic' (r' # rs))"
      using "3.IH"(2)[OF False sc[symmetric]] by simp
    have eq: "tocc_outer dic (r # r' # rs) =
      (if 1 < length tocc then [tocc] else []) @ tocc_outer dic' (r' # rs)"
      using False sc by simp
    let ?E = "if 1 < length tocc then [tocc] else []"
    let ?C = "concat (tocc_outer dic' (r' # rs))"
    have E: "set (concat ?E) \<subseteq> set tocc" "distinct tocc \<Longrightarrow> distinct (concat ?E)"
      "list_all (\<lambda>tocc. 1 < length tocc) ?E"
      by auto
    have dt: "distinct tocc" and td: "set tocc \<inter> set dic = {}"
      and tb: "set tocc \<subseteq> ts_begin ` set (r # r' # rs)"
      using new False by auto
    have "set ?C \<inter> set tocc = {}"
      using ih new by auto
    then have "distinct (concat ?E @ ?C)"
      using E(1,2) dt ih by auto
    moreover have "set (concat ?E @ ?C) \<inter> set dic = {}"
    proof -
      have "set ?C \<inter> set dic' = {}" using ih by blast
      moreover have "set dic \<subseteq> set dic'" using new by auto
      ultimately show ?thesis using E(1) td by auto
    qed
    moreover have "set (concat ?E @ ?C) \<subseteq> ts_begin ` set (r # r' # rs)"
      using E(1) tb ih by auto
    ultimately show ?thesis
      unfolding eq using ih E(3) by simp
  qed
qed simp_all

section \<open>The rows of a subTOCC\<close>

lemma set_rows_by_key:
  "set (concat (map (\<lambda>t. filter (\<lambda>r. f r = t) xs) ts)) = {r \<in> set xs. f r \<in> set ts}"
  by auto

lemma distinct_rows_by_key:
  "distinct ts \<Longrightarrow> distinct xs \<Longrightarrow> distinct (concat (map (\<lambda>t. filter (\<lambda>r. f r = t) xs) ts))"
  by (induction ts) auto

lemma concat_map_concat:
  "concat (map (\<lambda>xs. concat (map g xs)) xss) = concat (map g (concat xss))"
  by (induction xss) simp_all

lemma distinct_concat_perm:
  "mset xss = mset yss \<Longrightarrow> distinct (concat xss) \<longleftrightarrow> distinct (concat yss)"
  by (rule mset_eq_imp_distinct_iff) (simp add: mset_concat sum_mset_sum_list[symmetric] mset_map)

lemma distinct_concat_member: "distinct (concat xss) \<Longrightarrow> xs \<in> set xss \<Longrightarrow> distinct xs"
  by (induction xss) auto

lemma divide_TOCC_rows:
  assumes "w \<in> set (divide_TOCC df)"
  shows "set w \<subseteq> set df \<and> 2 \<le> card (ts_begin ` set w)"
proof -
  let ?df = "sort_key ts_begin df"
  obtain tocc where t: "tocc \<in> set (tocc_outer [] ?df)"
    and w: "w = concat (map (\<lambda>t. filter (\<lambda>r. ts_begin r = t) ?df) tocc)"
    using assms by (auto simp add: divide_TOCC_def Let_def)
  have keys: "distinct (concat (tocc_outer [] ?df))" "set (concat (tocc_outer [] ?df)) \<subseteq> ts_begin ` set ?df"
    "list_all (\<lambda>tocc. 1 < length tocc) (tocc_outer [] ?df)"
    using tocc_outer_keys[of "[]" ?df] by simp_all
  have sw: "set w = {r \<in> set df. ts_begin r \<in> set tocc}"
    unfolding w set_rows_by_key by simp
  have "set tocc \<subseteq> ts_begin ` set df"
    using keys(2) t by auto
  then have "ts_begin ` set w = set tocc"
    unfolding sw by auto
  moreover have "card (set tocc) = length tocc" "1 < length tocc"
    using distinct_concat_member[OF keys(1) t] keys(3) t by (simp_all add: distinct_card list_all_iff)
  ultimately show ?thesis using sw by auto
qed

text \<open>Within one group no row is put into two subTOCCs, nor
  twice into one: \<open>ts_begin_dic\<close> is shared by all iterations of the outer loop and a
  \<open>ts_begin\<close> value enters at most one TOCC.\<close>

theorem divide_TOCC_distinct:
  assumes "distinct df"
  shows "distinct (concat (divide_TOCC df))"
proof -
  let ?df = "sort_key ts_begin df"
  have "distinct (concat (tocc_outer [] ?df))"
    using tocc_outer_keys[of "[]" ?df] by simp
  then have "distinct (concat (sort_len_desc (tocc_outer [] ?df)))"
    using distinct_concat_perm[of "sort_len_desc (tocc_outer [] ?df)" "tocc_outer [] ?df"] by simp
  moreover have "distinct ?df" using assms by simp
  ultimately show ?thesis
    by (simp add: divide_TOCC_def Let_def concat_map_concat distinct_rows_by_key)
qed

section \<open>Two threads in every subTOCC of thread-ordered rows\<close>

text \<open>The second key of a TOCC comes from a row that meets the interval of the row the
  scan started from: the bounds are still those of that row when it is joined.\<close>

lemma tocc_scan_first_join:
  assumes "tocc_scan dic lo hi [b] rs = (dic', tocc')" "1 < length tocc'"
  shows "\<exists>r\<in>set rs. ts_begin r = tocc' ! 1 \<and> ts_begin r \<le> hi \<and> lo \<le> ts_end r"
  using assms
proof (induction rs arbitrary: dic)
  case Nil
  then show ?case by auto
next
  case (Cons r rs)
  show ?case
  proof (cases "ts_begin r \<in> set dic \<or> lo > ts_end r \<or> hi < ts_begin r")
    case True
    then have "tocc_scan dic lo hi [b] (r # rs) = tocc_scan dic lo hi [b] rs"
      by (cases "ts_begin r \<in> set dic") (simp_all add: Let_def)
    then show ?thesis using Cons by auto
  next
    case False
    let ?lo = "if lo > ts_begin r then ts_begin r else lo"
    let ?hi = "if hi < ts_end r then ts_end r else hi"
    have "tocc_scan (ts_begin r # dic) ?lo ?hi [b, ts_begin r] rs = (dic', tocc')"
      using Cons.prems False by (simp add: Let_def)
    then obtain new where "tocc' = [b, ts_begin r] @ new"
      using tocc_scan_new by fastforce
    then show ?thesis using False by (intro bexI[of _ r]) auto
  qed
qed

lemma tocc_outer_pair:
  assumes "tocc \<in> set (tocc_outer dic rs)"
  shows "\<exists>r\<in>set rs. \<exists>r'\<in>set rs. ts_begin r = tocc ! 0 \<and> ts_begin r' = tocc ! 1 \<and>
           ts_begin r' \<le> ts_end r \<and> ts_begin r \<le> ts_end r'"
  using assms
proof (induction dic rs rule: tocc_outer.induct)
  case (3 dic r r' rs)
  show ?case
  proof (cases "ts_begin r \<in> set dic")
    case True
    then show ?thesis using "3.IH"(1) "3.prems" by fastforce
  next
    case False
    obtain dic' t where sc:
      "tocc_scan (ts_begin r # dic) (ts_begin r) (ts_end r) [ts_begin r] (r' # rs) = (dic', t)"
      by (metis surj_pair)
    have eq: "tocc_outer dic (r # r' # rs) = (if 1 < length t then [t] else []) @ tocc_outer dic' (r' # rs)"
      using False sc by simp
    show ?thesis
    proof (cases "tocc = t \<and> 1 < length t")
      case True
      obtain new where "t = [ts_begin r] @ new" using tocc_scan_new[OF sc] by blast
      moreover obtain x where "x \<in> set (r' # rs)" "ts_begin x = t ! 1"
        "ts_begin x \<le> ts_end r" "ts_begin r \<le> ts_end x"
        using tocc_scan_first_join[OF sc] True by blast
      ultimately show ?thesis using True by (intro bexI[of _ r] bexI[of _ x]) auto
    next
      case False
      then have "tocc \<in> set (tocc_outer dic' (r' # rs))" using "3.prems" eq by (auto split: if_splits)
      then show ?thesis using "3.IH"(2)[OF \<open>ts_begin r \<notin> set dic\<close> sc[symmetric]] by fastforce
    qed
  qed
qed simp_all

lemma thread_ordered_subset: "thread_ordered cs \<Longrightarrow> set ds \<subseteq> set cs \<Longrightarrow> thread_ordered ds"
  by (auto simp add: thread_ordered_def)

lemma divide_TOCC_two_threads:
  assumes "thread_ordered df" "w \<in> set (divide_TOCC df)"
  shows "2 \<le> card (tid ` set w)"
proof -
  let ?df = "sort_key ts_begin df"
  obtain tocc where t: "tocc \<in> set (tocc_outer [] ?df)"
    and w: "w = concat (map (\<lambda>t. filter (\<lambda>r. ts_begin r = t) ?df) tocc)"
    using assms(2) by (auto simp add: divide_TOCC_def Let_def)
  have len: "1 < length tocc" and dis: "distinct tocc"
    using tocc_outer_keys[of "[]" ?df] t distinct_concat_member[of "tocc_outer [] ?df" tocc]
    by (simp_all add: list_all_iff)
  obtain r r' where r: "r \<in> set df" "ts_begin r = tocc ! 0" and r': "r' \<in> set df" "ts_begin r' = tocc ! 1"
    and meet: "ts_begin r' \<le> ts_end r" "ts_begin r \<le> ts_end r'"
    using tocc_outer_pair[OF t] by auto
  have "tocc ! 0 \<noteq> tocc ! 1"
  proof
    assume "tocc ! 0 = tocc ! 1"
    moreover have "0 < length tocc" using len by linarith
    ultimately show False using nth_eq_iff_index_eq[OF dis, of 0 1] len by simp
  qed
  then have "r \<noteq> r'" using r r' by auto
  have tids: "tid r \<noteq> tid r'"
  proof
    assume "tid r = tid r'"
    with assms(1) r(1) r'(1) \<open>r \<noteq> r'\<close> have "ts_end r < ts_begin r' \<or> ts_end r' < ts_begin r"
      unfolding thread_ordered_def by blast
    with meet show False by linarith
  qed
  have m: "tocc ! 0 \<in> set tocc" "tocc ! 1 \<in> set tocc"
    using len by (intro nth_mem; linarith)+
  have "r \<in> set w" "r' \<in> set w"
    unfolding w set_rows_by_key using r r' m by auto
  then have "{tid r, tid r'} \<subseteq> tid ` set w" by auto
  then show ?thesis using tids card_mono[of "tid ` set w" "{tid r, tid r'}"] by simp
qed


lemma divide_subTOCC_member:
  "ws \<in> set (divide_subTOCC gss) \<Longrightarrow> w \<in> set ws \<Longrightarrow>
   \<exists>gs\<in>set gss. \<exists>g\<in>set gs. w \<in> set (divide_TOCC g)"
  by (auto simp add: divide_subTOCC_def divide_each_subTOCC_def)

section \<open>Properties\<close>

text \<open>C22 (divide_each_subTOCC_rows). Every subTOCC that \<open>divide_each_subTOCC\<close> returns
  for a list of groups is drawn from one of the groups and holds rows with at least
  two distinct \<open>ts_begin\<close> values.\<close>

theorem divide_each_subTOCC_rows:
  assumes "w \<in> set (divide_each_subTOCC gs)"
  shows "list_ex (\<lambda>g. set w \<subseteq> set g) gs \<and> 2 \<le> card (ts_begin ` set w)"
proof -
  obtain g where "g \<in> set gs" "w \<in> set (divide_TOCC g)"
    using assms by (auto simp add: divide_each_subTOCC_def)
  then show ?thesis using divide_TOCC_rows[of w g] by (auto simp add: list_ex_iff)
qed

theorem divide_each_subTOCC_rows_witness:
  "[mk_cicp 0 1 0 3, mk_cicp 1 2 2 5] \<in> set (divide_each_subTOCC [scenario_A]) \<and>
   list_ex (\<lambda>g. set [mk_cicp 0 1 0 3, mk_cicp 1 2 2 5] \<subseteq> set g) [scenario_A] \<and>
   2 \<le> card (ts_begin ` set [mk_cicp 0 1 0 3, mk_cicp 1 2 2 5])"
proof -
  have m: "[mk_cicp 0 1 0 3, mk_cicp 1 2 2 5] \<in> set (divide_each_subTOCC [scenario_A])"
    by code_simp
  show ?thesis using divide_each_subTOCC_rows[OF m] m by simp
qed

theorem divide_TOCC_distinct_witness:
  "distinct scenario_B \<and> distinct (concat (divide_TOCC scenario_B)) \<and>
   divide_TOCC scenario_B = [scenario_B]"
proof -
  have d: "distinct scenario_B" by code_simp
  have "divide_TOCC scenario_B = [scenario_B]" by code_simp
  then show ?thesis using d divide_TOCC_distinct[OF d] by simp
qed

text \<open>The subdivider ignores threads and joins touching
  intervals: two back-to-back CICPs of one thread, \<open>[0,2]\<close> and \<open>[2,4]\<close>, form a
  subTOCC of a single thread, where the window partitioner emits nothing for them.\<close>

theorem divide_TOCC_single_thread:
  "divide_TOCC [mk_cicp 0 1 0 2, mk_cicp 1 1 2 4] = [[mk_cicp 0 1 0 2, mk_cicp 1 1 2 4]] \<and>
   card (tid ` set [mk_cicp 0 1 0 2, mk_cicp 1 1 2 4]) = 1 \<and>
   divide_TOCC_optimized [mk_cicp 0 1 0 2, mk_cicp 1 1 2 4] = []"
proof -
  have "divide_TOCC [mk_cicp 0 1 0 2, mk_cicp 1 1 2 4] = [[mk_cicp 0 1 0 2, mk_cicp 1 1 2 4]]"
    by code_simp
  moreover have "divide_TOCC_optimized [mk_cicp 0 1 0 2, mk_cicp 1 1 2 4] = []"
    by code_simp
  moreover have "card (tid ` set [mk_cicp 0 1 0 2, mk_cicp 1 1 2 4]) = 1"
    by (simp add: mk_cicp_def)
  ultimately show ?thesis by simp
qed

text \<open>Rows of one \<open>ts_begin\<close> value are one key of
  \<open>ts_begin_dic\<close>: CICPs \<open>[0,5]\<close> and \<open>[0,3]\<close> of two threads, overlapping on
  \<open>[0,3]\<close>, form no subTOCC (the TOCC of key 0 has length 1), where the window
  partitioner emits one TOCC of both.\<close>

theorem divide_TOCC_same_begin:
  "divide_TOCC [mk_cicp 0 1 0 5, mk_cicp 1 2 0 3] = [] \<and>
   divide_TOCC_optimized [mk_cicp 0 1 0 5, mk_cicp 1 2 0 3] = [[mk_cicp 0 1 0 5, mk_cicp 1 2 0 3]]"
proof -
  have "divide_TOCC [mk_cicp 0 1 0 5, mk_cicp 1 2 0 3] = []"
    by code_simp
  moreover have "divide_TOCC_optimized [mk_cicp 0 1 0 5, mk_cicp 1 2 0 3] =
                   [[mk_cicp 0 1 0 5, mk_cicp 1 2 0 3]]"
    by code_simp
  ultimately show ?thesis by simp
qed

text \<open>Only the first row of a \<open>ts_begin\<close> value in
  the sorted frame extends the interval, so the result depends on the order of rows
  with equal \<open>ts_begin\<close>, which \<open>sort_values\<close> keeps from the input: with
  \<open>A = [0,10]\<close>, \<open>B = [0,1]\<close> and \<open>C = [5,6]\<close>, the input order A, B, C yields one
  subTOCC of all three rows and the order B, A, C yields none.\<close>

theorem divide_TOCC_order_dependent:
  "divide_TOCC [mk_cicp 0 1 0 10, mk_cicp 1 2 0 1, mk_cicp 2 3 5 6] =
     [[mk_cicp 0 1 0 10, mk_cicp 1 2 0 1, mk_cicp 2 3 5 6]] \<and>
   divide_TOCC [mk_cicp 1 2 0 1, mk_cicp 0 1 0 10, mk_cicp 2 3 5 6] = []"
proof -
  have "divide_TOCC [mk_cicp 0 1 0 10, mk_cicp 1 2 0 1, mk_cicp 2 3 5 6] =
          [[mk_cicp 0 1 0 10, mk_cicp 1 2 0 1, mk_cicp 2 3 5 6]]"
    by code_simp
  moreover have "divide_TOCC [mk_cicp 1 2 0 1, mk_cicp 0 1 0 10, mk_cicp 2 3 5 6] = []"
    by code_simp
  ultimately show ?thesis by simp
qed

text \<open>\<open>divide_subTOCC\<close> returns one list per mode list it is
  given, each sorted by descending number of rows.\<close>

theorem divide_subTOCC_shape:
  "length (divide_subTOCC xs) = length xs \<and>
   list_all (sorted_wrt (\<lambda>a b. length b \<le> length a)) (divide_subTOCC xs)"
  by (simp add: divide_subTOCC_def divide_each_subTOCC_def list_all_iff sort_len_desc_sorted)

end
