(* ===== verification/Py_Numbers.thy ===== *)
theory Py_Numbers
  imports TCSA_Prelude
begin

text \<open>
  Python's conversions between strings and numbers, as the analysis code and its
  command-line handling use them: \<open>str.strip()\<close>, \<open>int(s)\<close> on a string (surrounding
  whitespace, an optional sign, decimal digits with single underscores between them,
  \<open>ValueError\<close> otherwise) and \<open>str(n)\<close> on an integer.  Strings are byte lists, so only
  the ASCII digits and whitespace are modelled.
\<close>

definition py_strip :: "string \<Rightarrow> string" where
  "py_strip s = rev (dropWhile py_isspace (rev (dropWhile py_isspace s)))"

definition py_is_digit :: "char \<Rightarrow> bool" where
  "py_is_digit c \<longleftrightarrow> 48 \<le> (of_char c :: nat) \<and> (of_char c :: nat) \<le> 57"

definition digit_value :: "char \<Rightarrow> nat" where
  "digit_value c = of_char c - 48"

text \<open>The digits after the first one; \<open>prev\<close> tells whether the last character read
  was a digit, so that an underscore stands only between two digits.\<close>

fun digits_acc :: "nat \<Rightarrow> bool \<Rightarrow> string \<Rightarrow> nat option" where
  "digits_acc acc prev [] = (if prev then Some acc else None)"
| "digits_acc acc prev (c # cs) =
     (if py_is_digit c then digits_acc (10 * acc + digit_value c) True cs
      else if c = CHR ''_'' \<and> prev then digits_acc acc False cs
      else None)"

definition py_digits :: "string \<Rightarrow> nat option" where
  "py_digits s = (case s of [] \<Rightarrow> None
                   | c # cs \<Rightarrow> if py_is_digit c then digits_acc (digit_value c) True cs else None)"

definition py_int :: "string \<Rightarrow> py_error + int" where
  "py_int s =
     (let t = py_strip s;
          (sign, body) = (case t of
              c # r \<Rightarrow> if c = CHR ''-'' then (-1, r) else if c = CHR ''+'' then (1, r) else (1, t)
            | [] \<Rightarrow> (1, t))
      in case py_digits body of None \<Rightarrow> Inl ValueError | Some n \<Rightarrow> Inr (sign * int n))"

definition digit_char :: "nat \<Rightarrow> char" where
  "digit_char d = char_of (48 + d)"

fun nat_digits :: "nat \<Rightarrow> string" where
  "nat_digits n = (if n < 10 then [digit_char n] else nat_digits (n div 10) @ [digit_char (n mod 10)])"

definition py_str_int :: "int \<Rightarrow> string" where
  "py_str_int i = (if i < 0 then CHR ''-'' # nat_digits (nat (- i)) else nat_digits (nat i))"

text \<open>\<open>float(s)\<close> on a decimal literal: a sign, digits with an optional fraction (at least
  one digit in all), an optional exponent.  The value is the exact rational the
  literal denotes; the rounding to the nearest double is not modelled, nor are the
  spellings \<open>inf\<close>, \<open>infinity\<close> and \<open>nan\<close>, which perf never prints and which the
  model rejects.\<close>

fun scan_digits :: "nat \<Rightarrow> nat \<Rightarrow> string \<Rightarrow> nat \<times> nat \<times> string" where
  "scan_digits v k [] = (v, k, [])"
| "scan_digits v k (c # cs) =
     (if py_is_digit c then scan_digits (10 * v + digit_value c) (Suc k) cs
      else if c = CHR ''_'' \<and> 0 < k \<and> cs \<noteq> [] \<and> py_is_digit (hd cs) then scan_digits v k cs
      else (v, k, c # cs))"

definition py_sign :: "string \<Rightarrow> int \<times> string" where
  "py_sign t = (case t of c # r \<Rightarrow> if c = CHR ''-'' then (-1, r) else if c = CHR ''+'' then (1, r) else (1, t)
                | [] \<Rightarrow> (1, t))"

definition py_float :: "string \<Rightarrow> py_error + real" where
  "py_float s =
     (let (sgn, b) = py_sign (py_strip s);
          (ip, ni, r1) = scan_digits 0 0 b;
          (fp, nf, r2) = (case r1 of c # r \<Rightarrow> if c = CHR ''.'' then scan_digits 0 0 r else (0, 0, r1)
                          | [] \<Rightarrow> (0, 0, r1));
          mant = real ip + real fp / 10 ^ nf
      in if ni + nf = 0 then Inl ValueError
         else case r2 of
           [] \<Rightarrow> Inr (of_int sgn * mant)
         | e # r3 \<Rightarrow>
             if e = CHR ''e'' \<or> e = CHR ''E'' then
               (let (esgn, eb) = py_sign r3; (ev, ne, r4) = scan_digits 0 0 eb
                in if ne = 0 \<or> r4 \<noteq> [] then Inl ValueError
                   else Inr (of_int sgn * mant * (if esgn < 0 then 1 / 10 ^ ev else 10 ^ ev)))
             else Inl ValueError)"

declare nat_digits.simps [simp del]

section \<open>Reading back what str writes\<close>

lemma digit_char_digit [simp]: "d < 10 \<Longrightarrow> py_is_digit (digit_char d)"
  by (simp add: digit_char_def py_is_digit_def)

lemma digit_value_digit_char [simp]: "d < 10 \<Longrightarrow> digit_value (digit_char d) = d"
  by (simp add: digit_char_def digit_value_def)

lemma digits_acc_digits:
  "list_all py_is_digit ds \<Longrightarrow>
   digits_acc acc True ds = Some (foldl (\<lambda>a c. 10 * a + digit_value c) acc ds)"
  by (induction ds arbitrary: acc) simp_all

lemma nat_digits_Cons: "\<exists>c cs. nat_digits n = c # cs"
  by (induction n rule: nat_digits.induct) (subst nat_digits.simps, auto)

lemma nat_digits_digits: "list_all py_is_digit (nat_digits n)"
  by (induction n rule: nat_digits.induct) (subst nat_digits.simps, simp)

lemma nat_digits_value: "foldl (\<lambda>a c. 10 * a + digit_value c) 0 (nat_digits n) = n"
proof (induction n rule: nat_digits.induct)
  case (1 n)
  show ?case
  proof (cases "n < 10")
    case True
    then show ?thesis by (subst nat_digits.simps) simp
  next
    case False
    then have "foldl (\<lambda>a c. 10 * a + digit_value c) 0 (nat_digits n) =
               10 * (n div 10) + n mod 10"
      using "1.IH" by (subst nat_digits.simps) simp
    then show ?thesis by simp
  qed
qed

lemma py_digits_nat_digits: "py_digits (nat_digits n) = Some n"
proof -
  obtain c cs where n: "nat_digits n = c # cs" using nat_digits_Cons by blast
  have "list_all py_is_digit (c # cs)" using nat_digits_digits[of n] n by simp
  then have "py_digits (c # cs) = Some (foldl (\<lambda>a c. 10 * a + digit_value c) 0 (c # cs))"
    by (simp add: py_digits_def digits_acc_digits)
  then show ?thesis using nat_digits_value[of n] n by simp
qed

lemma py_isspace_digit: "py_is_digit c \<Longrightarrow> \<not> py_isspace c"
  by (auto simp add: py_is_digit_def py_isspace_def)

lemma py_strip_no_space:
  "s = [] \<or> (\<not> py_isspace (hd s) \<and> \<not> py_isspace (last s)) \<Longrightarrow> py_strip s = s"
proof (cases "s = []")
  case False
  assume a: "s = [] \<or> \<not> py_isspace (hd s) \<and> \<not> py_isspace (last s)"
  with False have d: "dropWhile py_isspace s = s" by (simp add: dropWhile_eq_self_iff)
  from a False have "dropWhile py_isspace (rev s) = rev s" by (simp add: dropWhile_eq_self_iff hd_rev)
  with d show ?thesis by (simp add: py_strip_def)
qed (simp add: py_strip_def)

lemma py_is_digit_not_sign: "py_is_digit c \<Longrightarrow> c \<noteq> CHR ''-'' \<and> c \<noteq> CHR ''+''"
  by (auto simp add: py_is_digit_def)

lemma py_strip_nat_digits:
  "py_strip (nat_digits n) = nat_digits n \<and> py_strip (CHR ''-'' # nat_digits n) = CHR ''-'' # nat_digits n"
proof -
  obtain c cs where n: "nat_digits n = c # cs" using nat_digits_Cons by blast
  have dig: "list_all py_is_digit (c # cs)" using nat_digits_digits[of n] n by simp
  then have "\<not> py_isspace c" "\<not> py_isspace (last (c # cs))"
    using py_isspace_digit by (auto simp add: list_all_iff)
  moreover have "\<not> py_isspace (CHR ''-'')" by (simp add: py_isspace_def)
  ultimately show ?thesis using n by (simp add: py_strip_no_space)
qed

lemma py_int_error: "py_int s = Inl e \<Longrightarrow> e = ValueError"
  by (auto simp add: py_int_def Let_def split: prod.splits list.splits if_splits option.splits)

lemma py_float_error: "py_float s = Inl e \<Longrightarrow> e = ValueError"
  by (auto simp add: py_float_def Let_def split: prod.splits list.splits if_splits option.splits)

text \<open>\<open>int(str(i)) == i\<close> for every integer \<open>i\<close>: reading
  back the decimal string that \<open>str\<close> writes gives the integer, negative ones
  included.\<close>

theorem py_int_str_roundtrip: "py_int (py_str_int i) = Inr i"
proof -
  obtain c cs where n: "nat_digits (nat \<bar>i\<bar>) = c # cs" using nat_digits_Cons by blast
  have "py_is_digit c" using nat_digits_digits[of "nat \<bar>i\<bar>"] n by simp
  then have c: "c \<noteq> CHR ''-''" "c \<noteq> CHR ''+''" using py_is_digit_not_sign by blast+
  show ?thesis
  proof (cases "i < 0")
    case True
    then have "py_str_int i = CHR ''-'' # nat_digits (nat \<bar>i\<bar>)" by (simp add: py_str_int_def)
    then show ?thesis
      using True py_strip_nat_digits[of "nat \<bar>i\<bar>"] py_digits_nat_digits[of "nat \<bar>i\<bar>"]
      by (simp add: py_int_def)
  next
    case False
    then have "py_str_int i = nat_digits (nat \<bar>i\<bar>)" by (simp add: py_str_int_def)
    then show ?thesis
      using False n c py_strip_nat_digits[of "nat \<bar>i\<bar>"] py_digits_nat_digits[of "nat \<bar>i\<bar>"]
      by (simp add: py_int_def)
  qed
qed

lemma py_float_example: "py_float '' 691089.368816 '' = Inr (691089368816 / 1000000)"
  by (simp add: py_float_def py_sign_def py_strip_def py_isspace_def py_is_digit_def digit_value_def)

end
