(* ===== verification/CLI.thy ===== *)
theory CLI
  imports Py_Numbers Signature
begin

text \<open>
  Command-line handling (\<^verbatim>\<open>src/main.py\<close>, \<open>input_argv\<close>).  \<open>sys.argv\<close> is the
  argument list, program name first.  A missing input or output path is caught and
  printed, which leaves the local variable unbound, so the \<open>return\<close> raises
  \<open>UnboundLocalError\<close>; a missing or unparsable numeric argument falls back to its
  default through a bare \<open>except\<close>.
\<close>

definition py_argv :: "string list \<Rightarrow> nat \<Rightarrow> string option" where
  "py_argv argv i = (if i < length argv then Some (argv ! i) else None)"

text \<open>\<open>try: x = int(sys.argv[i]) except: x = default\<close>.\<close>

definition int_arg_or :: "string list \<Rightarrow> nat \<Rightarrow> int \<Rightarrow> int" where
  "int_arg_or argv i dflt =
     (case py_argv argv i of
        None \<Rightarrow> dflt
      | Some a \<Rightarrow> (case py_int a of Inl _ \<Rightarrow> dflt | Inr n \<Rightarrow> n))"

definition input_argv :: "string list \<Rightarrow> py_error + (string \<times> string \<times> int \<times> int \<times> int)" where
  "input_argv argv =
     (let perf_file_path = py_argv argv 1;
          output_path = py_argv argv 2;
          direction = int_arg_or argv 3 0;
          degrees_of_freedom = int_arg_or argv 4 (-1);
          threshold = int_arg_or argv 5 (-1)
      in case (perf_file_path, output_path) of
           (Some pth, Some outp) \<Rightarrow> Inr (pth, outp, direction, degrees_of_freedom, threshold)
         | _ \<Rightarrow> Inl UnboundLocalError)"

section \<open>Behaviour\<close>

text \<open>With both paths given, \<open>input_argv\<close> returns them and, for
  each numeric argument, the integer \<open>int()\<close> reads from it, or its default (direction
  0, degrees of freedom -1, threshold -1) when it is missing or not an integer.\<close>

theorem input_argv_parse:
  "input_argv (prog # pth # outp # rest) =
     Inr (pth, outp, int_arg_or (prog # pth # outp # rest) 3 0, int_arg_or (prog # pth # outp # rest) 4 (-1),
          int_arg_or (prog # pth # outp # rest) 5 (-1)) \<and>
   input_argv [prog, pth, outp] = Inr (pth, outp, 0, -1, -1) \<and>
   input_argv [prog, pth, outp, ''1'', '' -5 '', ''1_000''] = Inr (pth, outp, 1, -5, 1000)"
  by (simp add: input_argv_def py_argv_def int_arg_or_def py_int_def py_strip_def py_isspace_def
        py_digits_def py_is_digit_def digit_value_def)

text \<open>Without an input or an output path the function
  does not report a usage error: it prints the caught \<open>IndexError\<close> and then fails
  with \<open>UnboundLocalError\<close> at its \<open>return\<close>.\<close>

theorem input_argv_missing_path:
  "input_argv [prog] = Inl UnboundLocalError \<and> input_argv [prog, pth] = Inl UnboundLocalError"
  by (simp add: input_argv_def py_argv_def)

text \<open>Configuration is not validated: a direction
  other than 0 and 1 and a negative depth other than -1 are accepted, and an argument
  that is not an integer silently becomes the default; the extractor then treats
  every direction other than 0 as top-down.\<close>

theorem input_argv_no_validation:
  "input_argv [prog, pth, outp, ''7'', ''-5'', ''ten''] = Inr (pth, outp, 7, -5, -1) \<and>
   get_user_defined_indentical_call_stacks fs k 7 = get_user_defined_indentical_call_stacks fs k 1"
  by (simp add: input_argv_def py_argv_def int_arg_or_def py_int_def py_strip_def py_isspace_def
        py_digits_def py_is_digit_def digit_value_def get_user_defined_indentical_call_stacks_def)

end
