(* ===== verification/Ingestion.thy ===== *)
theory Ingestion
  imports Py_Numbers Signature
begin

text \<open>
  Trace ingestion (\<^verbatim>\<open>src/timing.py\<close>, \<open>DataPreparation.data_loading\<close> and
  \<open>DataPreparation.data_processing\<close>), the loader \<^verbatim>\<open>main.py\<close> uses.  The loader is a
  loop over the lines of the \<^verbatim>\<open>perf script\<close> text with the fields of the current event
  as its state; it is modelled as a step function on a record of that state, folded
  over \<open>readlines()\<close>, every exception of the loop body an \<open>Inl\<close>.  The rows it
  produces hold strings; \<open>data_processing\<close> converts them into the samples of the
  analysis.
\<close>

section \<open>The loader\<close>

text \<open>One row of the frame built at line 64: \<open>(timestamp, command, tid, cpu, event,
  call_stack)\<close>.\<close>

record perf_row =
  row_timestamp :: string
  row_command :: string
  row_tid :: string
  row_cpu :: string
  row_event :: string
  row_call_stack :: "string list"

record loader_state =
  top_message :: "string list"
  perf_records :: "perf_row list"
  ld_call_stack :: "string list"
  ld_command :: string
  ld_timestamp :: string
  ld_event :: string
  ld_cpu :: string
  ld_tid :: string

definition loader_init :: loader_state where
  "loader_init =
     \<lparr>top_message = [], perf_records = [], ld_call_stack = [], ld_command = [], ld_timestamp = [],
      ld_event = [], ld_cpu = [], ld_tid = []\<rparr>"

text \<open>Lines 40--57: a header with a \<open>[cpu]\<close> field.  The words before the bracket are
  the command and the thread id; after it, with \<open>:\<close>, \<open>[\<close> and \<open>]\<close> removed, come the
  cpu, the timestamp and the third field, which the code calls the event.\<close>

definition header_bracket :: "loader_state \<Rightarrow> string \<Rightarrow> int \<Rightarrow> py_error + loader_state" where
  "header_bracket st each_line position_flag =
     (let tmp_perf_record = py_split (py_slice each_line 0 (position_flag - 1));
          command = py_join '' '' (py_slice tmp_perf_record 0 (int (length tmp_perf_record) - 1))
      in case py_getitem tmp_perf_record (int (length tmp_perf_record) - 1) of
           Inl e \<Rightarrow> Inl e
         | Inr tid \<Rightarrow>
             (let tmp_perf_record =
                    py_split (filter (\<lambda>x. x \<noteq> CHR '']'') (filter (\<lambda>x. x \<noteq> CHR ''['')
                      (filter (\<lambda>x. x \<noteq> CHR '':'') (drop (nat position_flag) each_line))))
              in case (py_getitem tmp_perf_record 0, py_getitem tmp_perf_record 1,
                       py_getitem tmp_perf_record 2) of
                   (Inr cpu, Inr timestamp, Inr event) \<Rightarrow>
                     Inr (st\<lparr>ld_command := command, ld_tid := tid, ld_cpu := cpu,
                             ld_timestamp := timestamp, ld_event := event\<rparr>)
                 | _ \<Rightarrow> Inl IndexError))"

text \<open>Lines 58--63: a header without a bracket.\<close>

definition header_plain :: "loader_state \<Rightarrow> string \<Rightarrow> py_error + loader_state" where
  "header_plain st each_line =
     (let tmp_perf_record = py_split (py_strip each_line)
      in case (py_getitem tmp_perf_record (-3), py_getitem tmp_perf_record (-1),
               py_getitem tmp_perf_record (-4)) of
           (Inr timestamp, Inr event, Inr tid) \<Rightarrow>
             Inr (st\<lparr>ld_timestamp := timestamp, ld_event := event, ld_tid := tid,
                     ld_command := concat (py_slice tmp_perf_record 0 (-4))\<rparr>)
         | _ \<Rightarrow> Inl IndexError)"

text \<open>Lines 25--63: the body of the loop.  A blank line ends an event: its call stack
  is reversed and the row appended, and the fields are reset.\<close>

definition load_line :: "loader_state \<Rightarrow> string \<Rightarrow> py_error + loader_state" where
  "load_line st each_line =
     (case each_line of
        [] \<Rightarrow> Inl IndexError
      | c # _ \<Rightarrow>
          if c = CHR ''#'' then Inr (st\<lparr>top_message := top_message st @ [each_line]\<rparr>)
          else if c = CHR 0x09 then
            Inr (st\<lparr>ld_call_stack := ld_call_stack st @
                     [filter (\<lambda>x. x \<noteq> CHR 0x0A) (filter (\<lambda>x. x \<noteq> CHR 0x09) each_line)]\<rparr>)
          else if c = CHR 0x0A then
            Inr (st\<lparr>perf_records := perf_records st @
                      [\<lparr>row_timestamp = ld_timestamp st, row_command = ld_command st,
                        row_tid = ld_tid st, row_cpu = ld_cpu st, row_event = ld_event st,
                        row_call_stack = rev (ld_call_stack st)\<rparr>],
                    ld_call_stack := [], ld_command := [], ld_timestamp := [], ld_event := [],
                    ld_cpu := [], ld_tid := []\<rparr>)
          else
            (let position_flag = py_rfind CHR ''['' each_line
             in if position_flag \<noteq> -1 then header_bracket st each_line position_flag
                else header_plain st each_line))"

fun load_lines :: "loader_state \<Rightarrow> string list \<Rightarrow> py_error + loader_state" where
  "load_lines st [] = Inr st"
| "load_lines st (l # ls) = (case load_line st l of Inl e \<Rightarrow> Inl e | Inr st' \<Rightarrow> load_lines st' ls)"

text \<open>Lines 12--65: the file's text, read with \<open>readlines()\<close>.\<close>

definition data_loading :: "string \<Rightarrow> py_error + perf_row list" where
  "data_loading text =
     (case load_lines loader_init (py_readlines text) of
        Inl e \<Rightarrow> Inl e
      | Inr st \<Rightarrow> Inr (perf_records st))"

section \<open>Conversion into samples\<close>

text \<open>Lines 143--159: \<open>astype(int)\<close> on the thread ids and cpus, \<open>astype(float)\<close> on the
  timestamps (the first column that fails raises \<open>ValueError\<close>), the top frame as a
  string (\<open>str([])\<close> for an empty stack) and the frame symbols joined.  On an empty frame
  \<open>apply(axis=1)\<close> returns an empty frame, and assigning it to the single column
  \<open>top_function\<close> raises \<open>ValueError\<close>.\<close>

definition sample_of_row :: "perf_row \<Rightarrow> int \<Rightarrow> int \<Rightarrow> real \<Rightarrow> sample" where
  "sample_of_row r tid cpu ts =
     \<lparr>smp_timestamp = ts, smp_command = row_command r, smp_tid = tid, smp_cpu = cpu,
      smp_event = row_event r, smp_call_stack = row_call_stack r,
      smp_top_function = (if row_call_stack r = [] then ''[]'' else hd (row_call_stack r)),
      smp_function_call_stack = function_call_stack_of (row_call_stack r)\<rparr>"

definition data_processing :: "perf_row list \<Rightarrow> py_error + sample list" where
  "data_processing perf_records_df =
     (if perf_records_df = [] then Inl ValueError
      else case py_map_all (\<lambda>r. py_int (row_tid r)) perf_records_df of
        Inl e \<Rightarrow> Inl e
      | Inr tids \<Rightarrow>
          (case py_map_all (\<lambda>r. py_int (row_cpu r)) perf_records_df of
             Inl e \<Rightarrow> Inl e
           | Inr cpus \<Rightarrow>
               (case py_map_all (\<lambda>r. py_float (row_timestamp r)) perf_records_df of
                  Inl e \<Rightarrow> Inl e
                | Inr tss \<Rightarrow>
                    Inr (map (\<lambda>(r, tid, cpu, ts). sample_of_row r tid cpu ts)
                           (zip perf_records_df (zip tids (zip cpus tss)))))))"

section \<open>The perf script format read back\<close>

text \<open>What \<^verbatim>\<open>perf script\<close> prints for one sample: the header
  \<open>command tid [cpu] time: period event:\<close>, one tab-indented line per frame (innermost
  first), and a blank line.\<close>

record perf_event =
  pe_words :: "string list"
  pe_tid :: string
  pe_cpu :: string
  pe_time :: string
  pe_period :: string
  pe_name :: string
  pe_frames :: "string list"

definition perf_token :: "string \<Rightarrow> bool" where
  "perf_token t \<longleftrightarrow>
     py_word t \<and> (\<forall>c\<in>set t. c \<noteq> CHR '':'' \<and> c \<noteq> CHR ''['' \<and> c \<noteq> CHR '']'' \<and> c \<noteq> CHR ''#'')"

definition perf_event_wf :: "perf_event \<Rightarrow> bool" where
  "perf_event_wf e \<longleftrightarrow>
     list_all (\<lambda>w. py_word w \<and> CHR ''['' \<notin> set w \<and> CHR ''#'' \<notin> set w) (pe_words e) \<and>
     perf_token (pe_tid e) \<and> perf_token (pe_cpu e) \<and> perf_token (pe_time e) \<and>
     perf_token (pe_period e) \<and> perf_token (pe_name e) \<and>
     list_all (\<lambda>f. CHR 0x09 \<notin> set f \<and> CHR 0x0A \<notin> set f) (pe_frames e)"

definition perf_header_line :: "perf_event \<Rightarrow> string" where
  "perf_header_line e =
     py_join '' '' (pe_words e @ [pe_tid e]) @ '' ['' @ pe_cpu e @ ''] '' @ pe_time e @ '': '' @
     pe_period e @ '' '' @ pe_name e @ '':'' @ [CHR 0x0A]"

definition perf_event_lines :: "perf_event \<Rightarrow> string list" where
  "perf_event_lines e =
     [perf_header_line e] @ map (\<lambda>f. CHR 0x09 # f @ [CHR 0x0A]) (pe_frames e) @ [[CHR 0x0A]]"

definition perf_script :: "perf_event list \<Rightarrow> string" where
  "perf_script evs = concat (concat (map perf_event_lines evs))"

definition row_of_event :: "perf_event \<Rightarrow> perf_row" where
  "row_of_event e =
     \<lparr>row_timestamp = pe_time e, row_command = py_join '' '' (pe_words e), row_tid = pe_tid e,
      row_cpu = pe_cpu e, row_event = pe_period e, row_call_stack = rev (pe_frames e)\<rparr>"

definition fields_clear :: "loader_state \<Rightarrow> bool" where
  "fields_clear st \<longleftrightarrow>
     ld_call_stack st = [] \<and> ld_command st = [] \<and> ld_timestamp st = [] \<and> ld_event st = [] \<and>
     ld_cpu st = [] \<and> ld_tid st = []"

lemma perf_token_word: "perf_token t \<Longrightarrow> py_word t"
  by (simp add: perf_token_def)

lemma perf_token_chars:
  "perf_token t \<Longrightarrow> CHR '':'' \<notin> set t \<and> CHR ''['' \<notin> set t \<and> CHR '']'' \<notin> set t \<and> CHR ''#'' \<notin> set t"
  unfolding perf_token_def by blast

lemma filter_token:
  "perf_token t \<Longrightarrow> filter (\<lambda>x. x \<noteq> CHR '':'' \<and> x \<noteq> CHR ''['' \<and> x \<noteq> CHR '']'') t = t"
  using perf_token_chars[of t] by (auto simp add: filter_id_conv)

lemma hd_py_join: "w \<noteq> [] \<Longrightarrow> hd (py_join sep (w # ws)) = hd w"
  by (cases ws) simp_all

lemma not_in_py_join:
  "c \<notin> set sep \<Longrightarrow> \<forall>w\<in>set ws. c \<notin> set w \<Longrightarrow> c \<notin> set (py_join sep ws)"
  by (induction sep ws rule: py_join.induct) auto

lemma py_join_nonempty: "ws \<noteq> [] \<Longrightarrow> \<forall>w\<in>set ws. w \<noteq> [] \<Longrightarrow> py_join sep ws \<noteq> []"
  by (induction sep ws rule: py_join.induct) auto

lemma load_line_header:
  assumes wf: "perf_event_wf e"
  shows "load_line st (perf_header_line e) =
           Inr (st\<lparr>ld_command := py_join '' '' (pe_words e), ld_tid := pe_tid e, ld_cpu := pe_cpu e,
                   ld_timestamp := pe_time e, ld_event := pe_period e\<rparr>)"
proof -
  let ?ws = "pe_words e @ [pe_tid e]"
  let ?H = "py_join '' '' ?ws"
  let ?rest = "pe_cpu e @ ''] '' @ pe_time e @ '': '' @ pe_period e @ '' '' @ pe_name e @ '':'' @ [CHR 0x0A]"
  have line: "perf_header_line e = (?H @ '' '') @ CHR ''['' # ?rest"
    by (simp add: perf_header_line_def)
  have tok: "perf_token (pe_tid e)" "perf_token (pe_cpu e)" "perf_token (pe_time e)"
    "perf_token (pe_period e)" "perf_token (pe_name e)"
    and wds: "list_all (\<lambda>w. py_word w \<and> CHR ''['' \<notin> set w \<and> CHR ''#'' \<notin> set w) (pe_words e)"
    using wf by (simp_all add: perf_event_wf_def)
  have nb: "CHR ''['' \<notin> set ?rest"
    using perf_token_chars[OF tok(2)] perf_token_chars[OF tok(3)] perf_token_chars[OF tok(4)]
      perf_token_chars[OF tok(5)] by simp
  have words: "\<forall>w\<in>set ?ws. py_word w"
    using wds perf_token_word[OF tok(1)] by (auto simp add: list_all_iff)
  have pf: "py_rfind CHR ''['' (perf_header_line e) = int (length ?H + 1)"
    unfolding line using py_rfind_last[OF nb, of "?H @ '' ''"] by simp
  have Hne: "?H \<noteq> []"
    using words by (intro py_join_nonempty) (auto simp add: py_word_def)
  obtain w0 ws0 where ws: "?ws = w0 # ws0" by (cases "pe_words e") auto
  have "w0 \<in> set ?ws" using ws by simp
  then have w0: "py_word w0 \<and> CHR ''#'' \<notin> set w0"
    using wds perf_token_word[OF tok(1)] perf_token_chars[OF tok(1)] by (auto simp add: list_all_iff)
  then have hd: "hd ?H = hd w0" using ws by (simp add: hd_py_join py_word_def del: py_join.simps)
  have hd_ok: "hd w0 \<noteq> CHR ''#'' \<and> hd w0 \<noteq> CHR 0x09 \<and> hd w0 \<noteq> CHR 0x0A"
    using w0 by (cases w0) (auto simp add: py_word_def py_isspace_def)
  obtain c t where ct: "perf_header_line e = c # t" "c = hd w0"
    using Hne hd by (cases ?H) (auto simp add: perf_header_line_def)
  have slice: "py_slice (perf_header_line e) 0 (int (length ?H + 1) - 1) = ?H"
    by (simp add: py_slice_prefix perf_header_line_def)
  have split1: "py_split ?H = ?ws" using words by (rule py_split_join)
  have dr: "drop (nat (int (length ?H + 1))) (perf_header_line e) = CHR ''['' # ?rest"
    unfolding line nat_int by simp
  have tail: "filter (\<lambda>x. x \<noteq> CHR '']'') (filter (\<lambda>x. x \<noteq> CHR ''['')
                (filter (\<lambda>x. x \<noteq> CHR '':'') (drop (nat (int (length ?H + 1))) (perf_header_line e)))) =
              py_join '' '' [pe_cpu e, pe_time e, pe_period e, pe_name e] @ [CHR 0x0A]"
    unfolding dr
    using filter_token[OF tok(2)] filter_token[OF tok(3)] filter_token[OF tok(4)] filter_token[OF tok(5)]
    by simp
  have words2: "\<forall>w\<in>set [pe_cpu e, pe_time e, pe_period e, pe_name e]. py_word w"
    using tok by (simp add: perf_token_word)
  have split2: "py_split (py_join '' '' [pe_cpu e, pe_time e, pe_period e, pe_name e] @ [CHR 0x0A]) =
                [pe_cpu e, pe_time e, pe_period e, pe_name e]"
    using py_split_join_append[OF _ words2, of "[CHR 0x0A]"] py_split_spaces[of "[CHR 0x0A]"]
    by (simp add: py_isspace_def)
  have last: "py_getitem ?ws (int (length ?ws) - 1) = Inr (pe_tid e)"
    by (simp add: py_getitem_def Let_def nth_append)
  have init: "py_slice ?ws 0 (int (length ?ws) - 1) = pe_words e"
    by (simp add: py_slice_prefix)
  have step: "load_line st (perf_header_line e) = header_bracket st (perf_header_line e) (int (length ?H + 1))"
    using ct hd_ok pf by (simp add: load_line_def Let_def)
  show ?thesis
    unfolding step header_bracket_def Let_def slice split1 last init tail split2
    by (simp add: py_getitem_def)
qed

lemma load_line_frame:
  "CHR 0x09 \<notin> set f \<Longrightarrow> CHR 0x0A \<notin> set f \<Longrightarrow>
   load_line st (CHR 0x09 # f @ [CHR 0x0A]) = Inr (st\<lparr>ld_call_stack := ld_call_stack st @ [f]\<rparr>)"
proof -
  assume "CHR 0x09 \<notin> set f" "CHR 0x0A \<notin> set f"
  then have "filter (\<lambda>x. x \<noteq> CHR 0x09 \<and> x \<noteq> CHR 0x0A) f = f" by (auto simp add: filter_id_conv)
  then show ?thesis by (simp add: load_line_def)
qed

lemma load_lines_append:
  "load_lines st (xs @ ys) = py_then (load_lines st xs) (\<lambda>st'. load_lines st' ys)"
  by (induction xs arbitrary: st) (simp_all add: py_then_def split: sum.split)

lemma load_lines_frames:
  "list_all (\<lambda>f. CHR 0x09 \<notin> set f \<and> CHR 0x0A \<notin> set f) fs \<Longrightarrow>
   load_lines st (map (\<lambda>f. CHR 0x09 # f @ [CHR 0x0A]) fs) =
     Inr (st\<lparr>ld_call_stack := ld_call_stack st @ fs\<rparr>)"
  by (induction fs arbitrary: st) (simp_all add: load_line_frame)

lemma load_lines_event:
  assumes "perf_event_wf e" "fields_clear st"
  shows "load_lines st (perf_event_lines e) =
           Inr (st\<lparr>perf_records := perf_records st @ [row_of_event e]\<rparr>)"
proof -
  let ?st1 = "st\<lparr>ld_command := py_join '' '' (pe_words e), ld_tid := pe_tid e, ld_cpu := pe_cpu e,
                 ld_timestamp := pe_time e, ld_event := pe_period e\<rparr>"
  have fr: "list_all (\<lambda>f. CHR 0x09 \<notin> set f \<and> CHR 0x0A \<notin> set f) (pe_frames e)"
    using assms(1) by (simp add: perf_event_wf_def)
  have "load_lines st (perf_event_lines e) =
        py_then (load_line st (perf_header_line e)) (\<lambda>s. py_then (load_lines s (map (\<lambda>f. CHR 0x09 # f @ [CHR 0x0A]) (pe_frames e)))
           (\<lambda>s'. load_lines s' [[CHR 0x0A]]))"
    by (simp add: perf_event_lines_def load_lines_append py_then_def split: sum.split)
  also have "\<dots> = load_lines (?st1\<lparr>ld_call_stack := ld_call_stack ?st1 @ pe_frames e\<rparr>) [[CHR 0x0A]]"
    by (simp add: load_line_header[OF assms(1)] load_lines_frames[OF fr])
  also have "\<dots> = Inr (st\<lparr>perf_records := perf_records st @ [row_of_event e]\<rparr>)"
    using assms(2) by (simp add: load_line_def fields_clear_def row_of_event_def)
  finally show ?thesis .
qed

lemma load_lines_events:
  "list_all perf_event_wf evs \<Longrightarrow> fields_clear st \<Longrightarrow>
   load_lines st (concat (map perf_event_lines evs)) =
     Inr (st\<lparr>perf_records := perf_records st @ map row_of_event evs\<rparr>)"
proof (induction evs arbitrary: st)
  case (Cons e evs)
  have "fields_clear (st\<lparr>perf_records := perf_records st @ [row_of_event e]\<rparr>)"
    using Cons.prems(2) by (simp add: fields_clear_def)
  then show ?case
    using Cons by (simp add: load_lines_append load_lines_event)
qed simp

lemma perf_event_lines_end:
  "perf_event_wf e \<Longrightarrow>
   list_all (\<lambda>l. \<exists>b. l = b @ [CHR 0x0A] \<and> CHR 0x0A \<notin> set b) (perf_event_lines e)"
proof -
  assume wf: "perf_event_wf e"
  have nl: "CHR 0x0A \<notin> set w" if "py_word w" for w
    using that by (auto simp add: py_word_def py_isspace_def)
  have tok: "CHR 0x0A \<notin> set (pe_tid e)" "CHR 0x0A \<notin> set (pe_cpu e)" "CHR 0x0A \<notin> set (pe_time e)"
    "CHR 0x0A \<notin> set (pe_period e)" "CHR 0x0A \<notin> set (pe_name e)"
    using wf nl by (simp_all add: perf_event_wf_def perf_token_def)
  have "\<forall>w\<in>set (pe_words e @ [pe_tid e]). CHR 0x0A \<notin> set w"
    using wf nl tok(1) by (auto simp add: perf_event_wf_def list_all_iff)
  then have "CHR 0x0A \<notin> set (py_join '' '' (pe_words e @ [pe_tid e]))"
    by (intro not_in_py_join) simp_all
  then have "\<exists>b. perf_header_line e = b @ [CHR 0x0A] \<and> CHR 0x0A \<notin> set b"
    using tok by (simp add: perf_header_line_def)
  moreover have "list_all (\<lambda>f. CHR 0x09 \<notin> set f \<and> CHR 0x0A \<notin> set f) (pe_frames e)"
    using wf by (simp add: perf_event_wf_def)
  ultimately show ?thesis
    by (auto simp add: perf_event_lines_def list_all_iff)
qed

lemma py_readlines_perf_script:
  "list_all perf_event_wf evs \<Longrightarrow> py_readlines (perf_script evs) = concat (map perf_event_lines evs)"
  unfolding perf_script_def
  using perf_event_lines_end by (intro py_readlines_lines) (auto simp add: list_all_iff)

text \<open>C7 (data_loading_roundtrip). Loading the text \<^verbatim>\<open>perf script\<close> prints for a list of
  samples gives one row per sample, in order: the command words joined by single spaces,
  the thread id, cpu and timestamp as printed, as \<open>event\<close> the field after the timestamp
  (the sample period, not the event name), and the frames in reverse, outermost frame
  first.\<close>

theorem data_loading_roundtrip:
  assumes "list_all perf_event_wf evs"
  shows "data_loading (perf_script evs) = Inr (map row_of_event evs)"
proof -
  have "fields_clear loader_init" by (simp add: fields_clear_def loader_init_def)
  then show ?thesis using load_lines_events[OF assms] py_readlines_perf_script[OF assms]
    by (simp add: data_loading_def loader_init_def)
qed

definition ex_perf_event :: "nat \<Rightarrow> string \<Rightarrow> string list \<Rightarrow> perf_event" where
  "ex_perf_event k t frames =
     \<lparr>pe_words = [''java''], pe_tid = nat_digits k, pe_cpu = ''000'', pe_time = t,
      pe_period = ''250000'', pe_name = ''cpu-clock'', pe_frames = frames\<rparr>"

definition ex_kernel_frames :: "string list" where
  "ex_kernel_frames =
     [''ffffffff81a3c8f4 native_safe_halt ([kernel.kallsyms])'',
      ''ffffffff81000000 cpu_idle ([kernel.kallsyms])'']"

lemma perf_token_nat_digits: "perf_token (nat_digits k)"
proof -
  have "list_all py_is_digit (nat_digits k)" by (rule nat_digits_digits)
  moreover obtain c cs where "nat_digits k = c # cs" using nat_digits_Cons by blast
  ultimately show ?thesis
    by (auto simp add: perf_token_def py_word_def list_all_iff py_is_digit_def py_isspace_def)
qed

theorem data_loading_roundtrip_witness:
  "list_all perf_event_wf [ex_perf_event 7 ''691089.368816'' ex_kernel_frames] \<and>
   data_loading (perf_script [ex_perf_event 7 ''691089.368816'' ex_kernel_frames]) =
     Inr (map row_of_event [ex_perf_event 7 ''691089.368816'' ex_kernel_frames])"
proof -
  have "list_all perf_event_wf [ex_perf_event 7 ''691089.368816'' ex_kernel_frames]"
    using perf_token_nat_digits[of 7]
    by (simp add: perf_event_wf_def ex_perf_event_def ex_kernel_frames_def perf_token_def
                  py_word_def py_isspace_def)
  then show ?thesis using data_loading_roundtrip by blast
qed

text \<open>C26 (data_loading_drops_last_event). The loader stores an event only when it reads
  the blank line after it, and does nothing at the end of the file: for every trace of
  well-formed samples whose last sample is not followed by a blank line, the loaded rows
  are those of the samples before it, and the last sample is lost.\<close>

theorem data_loading_drops_last_event:
  assumes "list_all perf_event_wf (evs @ [e])"
  shows "data_loading (perf_script evs @ concat (butlast (perf_event_lines e))) = Inr (map row_of_event evs)"
proof -
  have wf: "list_all perf_event_wf evs" "perf_event_wf e" using assms by simp_all
  have lines: "list_all (\<lambda>l. \<exists>b. l = b @ [CHR 0x0A] \<and> CHR 0x0A \<notin> set b)
                 (concat (map perf_event_lines evs) @ butlast (perf_event_lines e))"
    using perf_event_lines_end wf by (auto simp add: list_all_iff dest: in_set_butlastD)
  have tx: "perf_script evs @ concat (butlast (perf_event_lines e)) =
              concat (concat (map perf_event_lines evs) @ butlast (perf_event_lines e))"
    by (simp add: perf_script_def)
  have fr: "list_all (\<lambda>f. CHR 0x09 \<notin> set f \<and> CHR 0x0A \<notin> set f) (pe_frames e)"
    using wf(2) by (simp add: perf_event_wf_def)
  have bl: "butlast (perf_event_lines e) = perf_header_line e # map (\<lambda>f. CHR 0x09 # f @ [CHR 0x0A]) (pe_frames e)"
    by (simp add: perf_event_lines_def butlast_append)
  have "fields_clear loader_init" by (simp add: fields_clear_def loader_init_def)
  then show ?thesis
    unfolding data_loading_def tx py_readlines_lines[OF lines]
    by (simp add: load_lines_append load_lines_events[OF wf(1)] bl load_line_header[OF wf(2)]
                  load_lines_frames[OF fr] loader_init_def)
qed

theorem data_loading_drops_last_event_witness:
  "list_all perf_event_wf ([ex_perf_event 7 ''691089.368816'' ex_kernel_frames] @
                           [ex_perf_event 8 ''691089.378816'' ex_kernel_frames]) \<and>
   data_loading (perf_script [ex_perf_event 7 ''691089.368816'' ex_kernel_frames] @
                 concat (butlast (perf_event_lines (ex_perf_event 8 ''691089.378816'' ex_kernel_frames))))
     = Inr (map row_of_event [ex_perf_event 7 ''691089.368816'' ex_kernel_frames])"
proof -
  have "list_all perf_event_wf ([ex_perf_event 7 ''691089.368816'' ex_kernel_frames] @
                                [ex_perf_event 8 ''691089.378816'' ex_kernel_frames])"
    using perf_token_nat_digits[of 7] perf_token_nat_digits[of 8]
    by (simp add: perf_event_wf_def ex_perf_event_def ex_kernel_frames_def perf_token_def
                  py_word_def py_isspace_def)
  then show ?thesis using data_loading_drops_last_event by blast
qed

text \<open>Converting the rows fails exactly when there are
  none, or some row's thread id or cpu is not an integer or its timestamp not a decimal
  number; the error is then always \<open>ValueError\<close>.\<close>

theorem data_processing_errors:
  "(isl (data_processing rows) \<longleftrightarrow>
      rows = [] \<or> list_ex (\<lambda>r. isl (py_int (row_tid r)) \<or> isl (py_int (row_cpu r)) \<or>
                               isl (py_float (row_timestamp r))) rows) \<and>
   (isl (data_processing rows) \<longleftrightarrow> data_processing rows = Inl ValueError)"
proof -
  have ints: "py_map_all f rows = Inl e \<Longrightarrow> e = ValueError" if "f = (\<lambda>r. py_int (row_tid r)) \<or> f = (\<lambda>r. py_int (row_cpu r))" for f e
    using that py_map_all_error[of f ValueError] py_int_error by blast
  have flt: "py_map_all (\<lambda>r. py_float (row_timestamp r)) rows = Inl e \<Longrightarrow> e = ValueError" for e
    using py_map_all_error[of "\<lambda>r. py_float (row_timestamp r)" ValueError] py_float_error by blast
  have "isl (data_processing rows) \<longleftrightarrow>
          rows = [] \<or> isl (py_map_all (\<lambda>r. py_int (row_tid r)) rows) \<or>
          isl (py_map_all (\<lambda>r. py_int (row_cpu r)) rows) \<or>
          isl (py_map_all (\<lambda>r. py_float (row_timestamp r)) rows)"
    by (simp add: data_processing_def split: sum.split)
  then have "isl (data_processing rows) \<longleftrightarrow>
      rows = [] \<or> list_ex (\<lambda>r. isl (py_int (row_tid r)) \<or> isl (py_int (row_cpu r)) \<or>
                               isl (py_float (row_timestamp r))) rows"
    by (auto simp add: py_map_all_isl list_ex_iff)
  moreover have "isl (data_processing rows) \<longleftrightarrow> data_processing rows = Inl ValueError"
    using ints[of "\<lambda>r. py_int (row_tid r)"] ints[of "\<lambda>r. py_int (row_cpu r)"] flt
    by (auto simp add: data_processing_def split: sum.splits)
  ultimately show ?thesis by blast
qed

end
