(* ===== verification/Py_Regex.thy ===== *)
theory Py_Regex
  imports TCSA_Prelude
begin

text \<open>The subset of Python's \<^verbatim>\<open>re\<close> module the parsers use: patterns that are sequences of
  character classes, repetitions of a character class (greedy or lazy), named groups and
  the \<open>$\<close> anchor.  \<open>re_match\<close> is a backtracking matcher that tries the alternatives in
  the order Python's engine does (a greedy repetition longest first, a lazy one shortest
  first), so the first match it returns is the one \<open>re.match\<close> returns.\<close>

datatype re_atom =
    RChr "char \<Rightarrow> bool"
  | RRep "char \<Rightarrow> bool" nat bool
  | ROpen string
  | RClose string
  | REnd

type_synonym re_caps = "(string \<times> string) list"

fun first_some :: "('a \<Rightarrow> 'b option) \<Rightarrow> 'a list \<Rightarrow> 'b option" where
  "first_some f [] = None"
| "first_some f (x # xs) = (case f x of Some y \<Rightarrow> Some y | None \<Rightarrow> first_some f xs)"

primrec re_match :: "re_atom list \<Rightarrow> string \<Rightarrow> (string \<times> string) list \<Rightarrow> re_caps \<Rightarrow> (re_caps \<times> string) option" where
  "re_match [] = (\<lambda>s opens caps. Some (caps, s))"
| "re_match (a # as) = (\<lambda>s opens caps.
     case a of
       RChr p \<Rightarrow> (case s of c # s' \<Rightarrow> if p c then re_match as s' opens caps else None | [] \<Rightarrow> None)
     | RRep p n greedy \<Rightarrow>
         (let k = length (takeWhile p s);
              counts = (if greedy then rev [n..<Suc k] else [n..<Suc k])
          in first_some (\<lambda>i. re_match as (drop i s) opens caps) counts)
     | ROpen nm \<Rightarrow> re_match as s ((nm, s) # opens) caps
     | RClose nm \<Rightarrow>
         (case map_of opens nm of
            Some s0 \<Rightarrow> re_match as s opens (caps @ [(nm, take (length s0 - length s) s0)])
          | None \<Rightarrow> None)
     | REnd \<Rightarrow> if s = [] \<or> s = [CHR 0x0A] then re_match as s opens caps else None)"

text \<open>\<open>re.match(pattern, s)\<close>: the named groups of the first match at the start of \<open>s\<close>.\<close>

definition py_re_match :: "re_atom list \<Rightarrow> string \<Rightarrow> re_caps option" where
  "py_re_match pat s = map_option fst (re_match pat s [] [])"

definition py_group :: "re_caps \<Rightarrow> string \<Rightarrow> string" where
  "py_group caps nm = (case map_of caps nm of Some v \<Rightarrow> v | None \<Rightarrow> [])"

text \<open>\<open>re.sub(pattern, "", s)\<close> for a pattern that never matches the empty string: every
  leftmost non-overlapping match is deleted.\<close>

function py_re_sub_empty :: "re_atom list \<Rightarrow> string \<Rightarrow> string" where
  "py_re_sub_empty pat s =
     (case s of [] \<Rightarrow> []
      | c # s' \<Rightarrow>
          (case re_match pat s [] [] of
             Some (_, rest) \<Rightarrow> if length rest < length s then py_re_sub_empty pat rest
                               else c # py_re_sub_empty pat s'
           | None \<Rightarrow> c # py_re_sub_empty pat s'))"
  by pat_completeness auto
termination by (relation "measure (\<lambda>(_, s). length s)") auto

text \<open>The character classes: \<open>\s\<close>, \<open>\d\<close>, \<open>[0-9a-fA-F]\<close>, \<open>.\<close> and a literal.\<close>

definition re_space :: "char \<Rightarrow> bool" where "re_space c = py_isspace c"
definition re_digit :: "char \<Rightarrow> bool" where "re_digit c = (CHR ''0'' \<le> c \<and> c \<le> CHR ''9'')"
definition re_hex :: "char \<Rightarrow> bool" where
  "re_hex c = (re_digit c \<or> (CHR ''a'' \<le> c \<and> c \<le> CHR ''f'') \<or> (CHR ''A'' \<le> c \<and> c \<le> CHR ''F''))"
definition re_any :: "char \<Rightarrow> bool" where "re_any c = (c \<noteq> CHR 0x0A)"
definition re_lit :: "char \<Rightarrow> char \<Rightarrow> bool" where "re_lit d c = (c = d)"

lemma first_some_SomeD: "first_some f xs = Some y \<Longrightarrow> \<exists>x\<in>set xs. f x = Some y"
  by (induction xs) (auto split: option.splits)

lemma re_match_append_prefix:
  "re_match pat s opens caps = Some (caps', rest) \<Longrightarrow> \<exists>u. s = u @ rest"
proof (induction pat arbitrary: s opens caps)
  case Nil then show ?case by simp
next
  case (Cons a pat)
  show ?case
  proof (cases a)
    case (RChr p) with Cons show ?thesis
      by (auto split: list.splits if_splits dest!: Cons.IH)
  next
    case (RRep p n g)
    let ?k = "length (takeWhile p s)"
    have "first_some (\<lambda>i. re_match pat (drop i s) opens caps)
            (if g then rev [n..<Suc ?k] else [n..<Suc ?k]) = Some (caps', rest)"
      using Cons.prems RRep by (simp add: Let_def del: upt_Suc)
    then have "\<exists>i. re_match pat (drop i s) opens caps = Some (caps', rest)"
      by (blast dest: first_some_SomeD)
    then obtain i where "re_match pat (drop i s) opens caps = Some (caps', rest)" by blast
    from Cons.IH[OF this] obtain u where "drop i s = u @ rest" by blast
    then have "s = (take i s @ u) @ rest" by (metis append.assoc append_take_drop_id)
    then show ?thesis by blast
  next
    case (ROpen nm) with Cons show ?thesis by (auto dest!: Cons.IH)
  next
    case (RClose nm) with Cons show ?thesis by (auto split: option.splits dest!: Cons.IH)
  next
    case REnd with Cons show ?thesis by (auto split: if_splits dest!: Cons.IH)
  qed
qed

end
