(* ===== verification/Ingestion_Optimized.thy ===== *)
theory Ingestion_Optimized
  imports Ingestion Py_Regex
begin

text \<open>\<open>DataPreparation.data_loading_optimized\<close> (\<^verbatim>\<open>src/timing.py\<close> lines 69--141), the
  streaming loader with a regular expression for event headers.  main.py does not call
  it (only the module's self-test does), but its comments claim it agrees with
  \<open>data_loading\<close>; the lemmas below show where it does not.  The generator is a step
  function on (current record, call stack, rows yielded), folded over the lines.\<close>

text \<open>\<open>header_regex\<close>, line 79--81:
  \<^verbatim>\<open>^(?P<command>.+?)\s+(?P<tid>\d+)\s+\[(?P<cpu>\d+)\]\s+(?P<timestamp>[\d\.]+):\s+.*\<close>\<close>

definition re_digit_dot :: "char \<Rightarrow> bool" where
  "re_digit_dot c = (re_digit c \<or> c = CHR ''.'')"

definition header_regex :: "re_atom list" where
  "header_regex =
     [ROpen ''command'', RRep re_any 1 False, RClose ''command'', RRep re_space 1 True,
      ROpen ''tid'', RRep re_digit 1 True, RClose ''tid'', RRep re_space 1 True,
      RChr (re_lit CHR ''[''), ROpen ''cpu'', RRep re_digit 1 True, RClose ''cpu'', RChr (re_lit CHR '']''),
      RRep re_space 1 True, ROpen ''timestamp'', RRep re_digit_dot 1 True, RClose ''timestamp'',
      RChr (re_lit CHR '':''), RRep re_space 1 True, RRep re_any 0 True]"

text \<open>The record a matching header starts: \<open>match.groupdict()\<close> and, as \<open>event\<close>, the text
  after the last colon, stripped.\<close>

definition header_record :: "re_caps \<Rightarrow> string \<Rightarrow> perf_row" where
  "header_record mo line =
     \<lparr>row_timestamp = py_group mo ''timestamp'', row_command = py_group mo ''command'',
      row_tid = py_group mo ''tid'', row_cpu = py_group mo ''cpu'',
      row_event = py_strip (last (py_split_sep CHR '':'' line)), row_call_stack = []\<rparr>"

record gen_state =
  gen_record :: "perf_row option"
  gen_call_stack :: "string list"
  gen_rows :: "perf_row list"

text \<open>One line of \<open>record_generator\<close> (lines 89--119).\<close>

definition gen_line :: "gen_state \<Rightarrow> string \<Rightarrow> gen_state" where
  "gen_line st line =
     (if starts_with ''#'' line then st
      else if starts_with [CHR 0x09] line \<or> starts_with ''  '' line then
        st\<lparr>gen_call_stack := gen_call_stack st @ [py_strip line]\<rparr>
      else if py_strip line = [] then
        (let rows = (case gen_record st of
                       Some r \<Rightarrow> if gen_call_stack st \<noteq> [] then gen_rows st @ [r\<lparr>row_call_stack := gen_call_stack st\<rparr>]
                                 else gen_rows st
                     | None \<Rightarrow> gen_rows st)
         in \<lparr>gen_record = None, gen_call_stack = [], gen_rows = rows\<rparr>)
      else case py_re_match header_regex line of
             Some mo \<Rightarrow> st\<lparr>gen_record := Some (header_record mo line)\<rparr>
           | None \<Rightarrow> st)"

text \<open>Lines 84--128: the lines folded through \<open>gen_line\<close>, then the last record if it has a
  call stack (lines 122--124).\<close>

definition data_loading_optimized :: "string \<Rightarrow> perf_row list" where
  "data_loading_optimized text =
     (let st = fold (\<lambda>line st. gen_line st line) (py_readlines text)
                 \<lparr>gen_record = None, gen_call_stack = [], gen_rows = []\<rparr>
      in case gen_record st of
           Some r \<Rightarrow> if gen_call_stack st \<noteq> [] then gen_rows st @ [r\<lparr>row_call_stack := gen_call_stack st\<rparr>]
                     else gen_rows st
         | None \<Rightarrow> gen_rows st)"

definition ex_lock_event :: perf_event where
  "ex_lock_event = ex_perf_event 7 ''0.5'' [''    7f3a10 lock (/lib/libc.so.6)'', ''    4005d0 main (/usr/bin/app)'']"

text \<open>The optimized loader does not agree with
  \<open>data_loading\<close>, although its comment (lines 100--103) says it keeps the original
  order: on a sample taken in \<open>lock\<close> called from \<open>main\<close> it keeps perf's frame order
  (innermost first) where \<open>data_loading\<close> reverses it, strips the frames, and stores an
  empty event where \<open>data_loading\<close> stores the sample period; and it keeps a last event
  that has no blank line after it, which \<open>data_loading\<close> loses.\<close>

theorem data_loading_optimized_divergence:
  "data_loading_optimized (perf_script [ex_lock_event]) =
     [\<lparr>row_timestamp = ''0.5'', row_command = ''java'', row_tid = ''7'', row_cpu = ''000'', row_event = [],
       row_call_stack = [''7f3a10 lock (/lib/libc.so.6)'', ''4005d0 main (/usr/bin/app)'']\<rparr>] \<and>
   data_loading (perf_script [ex_lock_event]) =
     Inr [\<lparr>row_timestamp = ''0.5'', row_command = ''java'', row_tid = ''7'', row_cpu = ''000'',
           row_event = ''250000'',
           row_call_stack = [''    4005d0 main (/usr/bin/app)'', ''    7f3a10 lock (/lib/libc.so.6)'']\<rparr>] \<and>
   data_loading_optimized (concat (butlast (perf_event_lines ex_lock_event))) =
     data_loading_optimized (perf_script [ex_lock_event]) \<and>
   data_loading (concat (butlast (perf_event_lines ex_lock_event))) = Inr []"
  by code_simp

end
