(* ===== verification/G2D_Profile.thy ===== *)
theory G2D_Profile
  imports TCSA_Prelude "HOL-Library.AList"
begin

text \<open>The profile model of \<^verbatim>\<open>src/gprof2dot.py\<close> (lines 64--927): the helpers, the event
  kinds, and the objects a parser fills in (calls, functions, cycles and the whole
  profile) with the operations on them.  Python dicts keep their insertion order and an
  assignment to an existing key keeps its position; they are association lists with
  \<open>AList.update\<close>, \<open>AList.delete\<close> and \<open>map_of\<close>.  The event values of an object are a map
  from the event kind; floats are reals (rounding is not modelled).  Function objects
  are identified by their id, the key under which the profile stores them; cycle objects
  by their position in a store of all cycles created, since functions refer to their
  cycle and the code compares cycles by identity.\<close>

section \<open>Helpers (lines 72--110)\<close>

definition add :: "real \<Rightarrow> real \<Rightarrow> real" where
  "add a b = a + b"

text \<open>\<open>ratio\<close>: a division clamped to \<open>[0, 1]\<close>, with \<open>1.0\<close> for a zero denominator (the
  warnings it writes to stderr are not modelled).\<close>

definition ratio :: "real \<Rightarrow> real \<Rightarrow> real" where
  "ratio numerator denominator =
     (if denominator = 0 then 1
      else let r = numerator / denominator in if r < 0 then 0 else if 1 < r then 1 else r)"

section \<open>Events (lines 123--180)\<close>

text \<open>The event objects of the module; \<open>SAMPLES\<close> and \<open>SAMPLES2\<close> share a name but are
  distinct objects (events compare by identity).\<close>

datatype g_event = CALLS | SAMPLES | SAMPLES2 | TOTAL_SAMPLES | TIME | TIME_RATIO
  | TOTAL_TIME | TOTAL_TIME_RATIO

fun event_name :: "g_event \<Rightarrow> string" where
  "event_name CALLS = ''Calls''"
| "event_name SAMPLES = ''Samples''"
| "event_name SAMPLES2 = ''Samples''"
| "event_name TOTAL_SAMPLES = ''Samples''"
| "event_name TIME = ''Time''"
| "event_name TIME_RATIO = ''Time ratio''"
| "event_name TOTAL_TIME = ''Total time''"
| "event_name TOTAL_TIME_RATIO = ''Total time ratio''"

definition event_null :: "g_event \<Rightarrow> real" where
  "event_null e = 0"

text \<open>\<open>Event.aggregate\<close>: \<open>add\<close> for the counting events, \<open>fail\<close> (an assertion) for the
  two total-time events.\<close>

definition event_aggregate :: "g_event \<Rightarrow> real \<Rightarrow> real \<Rightarrow> py_error + real" where
  "event_aggregate e val1 val2 =
     (if e = TOTAL_TIME \<or> e = TOTAL_TIME_RATIO then Inl AssertionError else Inr (add val1 val2))"

section \<open>Objects (lines 184--216)\<close>

type_synonym g_events = "g_event \<Rightarrow> real option"

text \<open>\<open>Object.__getitem__\<close> raises \<open>UndefinedEvent\<close> for a missing event; \<open>__setitem__\<close>
  with \<open>None\<close> deletes it.\<close>

definition obj_get :: "g_events \<Rightarrow> g_event \<Rightarrow> py_error + real" where
  "obj_get events event = (case events event of Some v \<Rightarrow> Inr v | None \<Rightarrow> Inl UndefinedEvent)"

definition obj_set :: "g_events \<Rightarrow> g_event \<Rightarrow> real option \<Rightarrow> g_events" where
  "obj_set events event value = events(event := value)"

record g_call =
  call_callee_id :: string
  call_events :: g_events
  call_ratio :: "real option"
  call_weight :: "real option"

definition new_call :: "string \<Rightarrow> g_call" where
  "new_call callee_id =
     \<lparr>call_callee_id = callee_id, call_events = Map.empty, call_ratio = None, call_weight = None\<rparr>"

record g_function =
  fn_id :: string
  fn_name :: string
  fn_module :: "string option"
  fn_process :: "string option"
  fn_calls :: "(string \<times> g_call) list"
  fn_called :: "real option"
  fn_weight :: "real option"
  fn_self_weight :: "real option"
  fn_cycle :: "nat option"
  fn_filename :: "string option"
  fn_events :: g_events

definition new_function :: "string \<Rightarrow> string \<Rightarrow> g_function" where
  "new_function fid name =
     \<lparr>fn_id = fid, fn_name = name, fn_module = None, fn_process = None, fn_calls = [],
      fn_called = None, fn_weight = None, fn_self_weight = None, fn_cycle = None,
      fn_filename = None, fn_events = Map.empty\<rparr>"

text \<open>\<open>Function.add_call\<close> overwrites a call to the same callee (after a warning).\<close>

definition add_call :: "g_function \<Rightarrow> g_call \<Rightarrow> g_function" where
  "add_call f call = f\<lparr>fn_calls := AList.update (call_callee_id call) call (fn_calls f)\<rparr>"

definition get_call :: "g_function \<Rightarrow> string \<Rightarrow> g_function \<times> g_call" where
  "get_call f callee_id =
     (case map_of (fn_calls f) callee_id of
        Some call \<Rightarrow> (f, call)
      | None \<Rightarrow>
          (let call = (new_call callee_id)\<lparr>call_events := [SAMPLES \<mapsto> 0, SAMPLES2 \<mapsto> 0, CALLS \<mapsto> 0]\<rparr>
           in (f\<lparr>fn_calls := fn_calls f @ [(callee_id, call)]\<rparr>, call)))"

record g_cycle =
  cyc_functions :: "string list"
  cyc_events :: g_events

text \<open>The profile: \<open>functions\<close> (id to function), \<open>cycles\<close> (the list \<open>find_cycles\<close>
  sets, as positions in the store of every cycle object created) and its own events.\<close>

record g_profile =
  prof_functions :: "(string \<times> g_function) list"
  prof_cycles :: "nat list"
  prof_cycle_store :: "g_cycle list"
  prof_events :: g_events

definition new_profile :: g_profile where
  "new_profile = \<lparr>prof_functions = [], prof_cycles = [], prof_cycle_store = [], prof_events = Map.empty\<rparr>"

definition add_function :: "g_profile \<Rightarrow> g_function \<Rightarrow> g_profile" where
  "add_function p function = p\<lparr>prof_functions := AList.update (fn_id function) function (prof_functions p)\<rparr>"

definition add_cycle :: "g_profile \<Rightarrow> nat \<Rightarrow> g_profile" where
  "add_cycle p cycle = p\<lparr>prof_cycles := prof_cycles p @ [cycle]\<rparr>"

section \<open>Profile operations\<close>

text \<open>\<open>Profile.validate\<close> (lines 342--353): over a snapshot of each function's callee
  ids, assert that the call is stored under its callee's id and delete the calls to ids
  that are not functions of the profile.\<close>

fun validate_calls :: "(string \<times> g_function) list \<Rightarrow> string list \<Rightarrow> (string \<times> g_call) list \<Rightarrow>
    py_error + (string \<times> g_call) list" where
  "validate_calls fns [] calls = Inr calls"
| "validate_calls fns (callee_id # ks) calls =
     (case map_of calls callee_id of
        None \<Rightarrow> Inl KeyError
      | Some call \<Rightarrow>
          if call_callee_id call \<noteq> callee_id then Inl AssertionError
          else if map_of fns callee_id = None then validate_calls fns ks (AList.delete callee_id calls)
          else validate_calls fns ks calls)"

definition validate :: "g_profile \<Rightarrow> py_error + g_profile" where
  "validate p =
     py_then (py_map_all (\<lambda>(k, f). py_then (validate_calls (prof_functions p) (map fst (fn_calls f)) (fn_calls f))
                                    (\<lambda>calls. Inr (k, f\<lparr>fn_calls := calls\<rparr>)))
                         (prof_functions p))
       (\<lambda>fns. Inr (p\<lparr>prof_functions := fns\<rparr>))"

text \<open>\<open>Profile.aggregate\<close> (lines 794--803): the sum over all functions, or nothing at
  all when some function lacks the event.\<close>

fun aggregate_loop :: "g_event \<Rightarrow> real \<Rightarrow> g_function list \<Rightarrow> py_error + real option" where
  "aggregate_loop event tot [] = Inr (Some tot)"
| "aggregate_loop event tot (f # fs) =
     (case fn_events f event of
        None \<Rightarrow> Inr None
      | Some v \<Rightarrow> py_then (event_aggregate event tot v) (\<lambda>tot. aggregate_loop event tot fs))"

definition aggregate :: "g_profile \<Rightarrow> g_event \<Rightarrow> py_error + g_profile" where
  "aggregate p event =
     py_then (aggregate_loop event (event_null event) (map snd (prof_functions p)))
       (\<lambda>r. case r of None \<Rightarrow> Inr p | Some tot \<Rightarrow> Inr (p\<lparr>prof_events := (prof_events p)(event \<mapsto> tot)\<rparr>))"

text \<open>\<open>Profile.ratio\<close> (lines 805--816): every function's and call's \<open>inevent\<close> as a
  ratio of the profile's, stored as \<open>outevent\<close>; the profile's own ratio is 1.\<close>

fun ratio_calls :: "g_event \<Rightarrow> g_event \<Rightarrow> real \<Rightarrow> (string \<times> g_call) list \<Rightarrow>
    py_error + (string \<times> g_call) list" where
  "ratio_calls outevent inevent tot [] = Inr []"
| "ratio_calls outevent inevent tot ((k, call) # calls) =
     (if call_events call outevent \<noteq> None then Inl AssertionError
      else
        let call' = (case call_events call inevent of
                       Some v \<Rightarrow> call\<lparr>call_events := (call_events call)(outevent \<mapsto> ratio v tot)\<rparr>
                     | None \<Rightarrow> call)
        in py_then (ratio_calls outevent inevent tot calls) (\<lambda>calls'. Inr ((k, call') # calls')))"

definition ratio_function :: "g_event \<Rightarrow> g_event \<Rightarrow> real \<Rightarrow> string \<times> g_function \<Rightarrow>
    py_error + string \<times> g_function" where
  "ratio_function outevent inevent tot kf =
     (case kf of (k, f) \<Rightarrow>
        if fn_events f outevent \<noteq> None then Inl AssertionError
        else case fn_events f inevent of
          None \<Rightarrow> Inl AssertionError
        | Some v \<Rightarrow>
            py_then (ratio_calls outevent inevent tot (fn_calls f))
              (\<lambda>calls. Inr (k, f\<lparr>fn_events := (fn_events f)(outevent \<mapsto> ratio v tot), fn_calls := calls\<rparr>)))"

definition profile_ratio :: "g_profile \<Rightarrow> g_event \<Rightarrow> g_event \<Rightarrow> py_error + g_profile" where
  "profile_ratio p outevent inevent =
     (if prof_events p outevent \<noteq> None then Inl AssertionError
      else case prof_events p inevent of
        None \<Rightarrow> Inl AssertionError
      | Some tot \<Rightarrow>
          py_then (py_map_all (ratio_function outevent inevent tot) (prof_functions p))
            (\<lambda>fns. Inr (p\<lparr>prof_functions := fns, prof_events := (prof_events p)(outevent \<mapsto> 1)\<rparr>)))"

text \<open>\<open>Profile.call_ratios\<close> (lines 525--576).  Pass 1 sums, for every callee, the event
  over its incoming calls other than self-calls, and for every cycle over the calls
  entering it from outside; pass 2 sets each such call's ratio to its share of that
  total (of the cycle's total for a call entering a cycle), or 0 when the call lacks the
  event.  Function totals are keyed by function id; cycle totals exist only for the
  cycles in \<open>self.cycles\<close>.\<close>

type_synonym cr_totals = "(string \<Rightarrow> real) \<times> (nat \<rightharpoonup> real)"

fun call_ratios_pass1 :: "g_profile \<Rightarrow> g_event \<Rightarrow> (g_function \<times> g_call) list \<Rightarrow> cr_totals \<Rightarrow>
    py_error + cr_totals" where
  "call_ratios_pass1 p event [] tot = Inr tot"
| "call_ratios_pass1 p event ((f, call) # rest) (ft, ct) =
     (if call_callee_id call = fn_id f then call_ratios_pass1 p event rest (ft, ct)
      else case map_of (prof_functions p) (call_callee_id call) of
        None \<Rightarrow> Inl KeyError
      | Some callee \<Rightarrow>
          (case call_events call event of
             None \<Rightarrow> call_ratios_pass1 p event rest (ft, ct)
           | Some v \<Rightarrow>
               let ft' = ft(fn_id callee := ft (fn_id callee) + v)
               in if fn_cycle callee \<noteq> None \<and> fn_cycle callee \<noteq> fn_cycle f then
                    (case ct (the (fn_cycle callee)) of
                       None \<Rightarrow> Inl KeyError
                     | Some t \<Rightarrow> call_ratios_pass1 p event rest (ft', ct(the (fn_cycle callee) \<mapsto> t + v)))
                  else call_ratios_pass1 p event rest (ft', ct)))"

fun call_ratios_pass2 :: "g_profile \<Rightarrow> g_event \<Rightarrow> cr_totals \<Rightarrow> g_function \<Rightarrow> (string \<times> g_call) list \<Rightarrow>
    py_error + (string \<times> g_call) list" where
  "call_ratios_pass2 p event tot f [] = Inr []"
| "call_ratios_pass2 p event (ft, ct) f ((k, call) # calls) =
     (if call_ratio call \<noteq> None then Inl AssertionError
      else
        let r = (if call_callee_id call = fn_id f then Inr call
                 else case map_of (prof_functions p) (call_callee_id call) of
                   None \<Rightarrow> Inl KeyError
                 | Some callee \<Rightarrow>
                     (case call_events call event of
                        Some v \<Rightarrow>
                          if fn_cycle callee \<noteq> None \<and> fn_cycle callee \<noteq> fn_cycle f then
                            (case ct (the (fn_cycle callee)) of
                               None \<Rightarrow> Inl KeyError
                             | Some tot \<Rightarrow> Inr (call\<lparr>call_ratio := Some (ratio v tot)\<rparr>))
                          else Inr (call\<lparr>call_ratio := Some (ratio v (ft (fn_id callee)))\<rparr>)
                      | None \<Rightarrow> Inr (call\<lparr>call_ratio := Some 0\<rparr>)))
        in py_then r (\<lambda>call'. py_then (call_ratios_pass2 p event (ft, ct) f calls)
                                 (\<lambda>calls'. Inr ((k, call') # calls'))))"

definition profile_calls :: "g_profile \<Rightarrow> (g_function \<times> g_call) list" where
  "profile_calls p = concat (map (\<lambda>(k, f). map (\<lambda>(ck, call). (f, call)) (fn_calls f)) (prof_functions p))"

definition call_ratios :: "g_profile \<Rightarrow> g_event \<Rightarrow> py_error + g_profile" where
  "call_ratios p event =
     (let cycle_totals = map_of (map (\<lambda>c. (c, 0)) (prof_cycles p));
          function_totals = (\<lambda>_. 0)
      in py_then (call_ratios_pass1 p event (profile_calls p) (function_totals, cycle_totals))
           (\<lambda>tot. py_then (py_map_all (\<lambda>(k, f). py_then (call_ratios_pass2 p event tot f (fn_calls f))
                                                   (\<lambda>calls. Inr (k, f\<lparr>fn_calls := calls\<rparr>)))
                                      (prof_functions p))
                    (\<lambda>fns. Inr (p\<lparr>prof_functions := fns\<rparr>))))"

end
