(* ===== verification/G2D_Tarjan.thy ===== *)
theory G2D_Tarjan
  imports G2D_Profile
begin

text \<open>\<open>Profile.find_cycles\<close> and \<open>Profile._tarjan\<close> (\<^verbatim>\<open>src/gprof2dot.py\<close> lines 355--373
  and 478--523): Tarjan's strongly connected components algorithm, recursive in the
  source.  The recursion and the loop over a function's calls are one
  \<open>partial_function\<close> on a work item (visit a function, or scan the rest of its calls),
  so that not returning would be \<open>None\<close>; \<open>tarjan_returns\<close> shows it always returns.
  The state holds the order counter, the stack, the per-function data, and the cycle
  objects created (\<open>Cycle.add_function\<close> sets the function's cycle); the function table
  is only read.\<close>

record tj_data =
  td_order :: nat
  td_lowlink :: nat
  td_onstack :: bool

record tj_state =
  tj_order :: nat
  tj_stack :: "string list"
  tj_data :: "string \<rightharpoonup> tj_data"
  tj_cycle_of :: "string \<rightharpoonup> nat"
  tj_store :: "g_cycle list"

datatype tj_task = Visit g_function | Scan g_function "g_call list" nat

text \<open>\<open>Cycle.add_function\<close> (lines 313--320) on the cycle stored at position \<open>c\<close>.  The
  loop meant to merge the function's previous cycle tests \<open>function not in
  self.functions\<close> right after adding \<open>function\<close>, so its body never runs; the
  function simply moves to the new cycle.\<close>

definition cycle_add_function :: "tj_state \<Rightarrow> nat \<Rightarrow> string \<Rightarrow> py_error + tj_state" where
  "cycle_add_function st c fid =
     (let cyc = tj_store st ! c
      in if fid \<in> set (cyc_functions cyc) then Inl AssertionError
         else Inr (st\<lparr>tj_store := (tj_store st)[c := cyc\<lparr>cyc_functions := cyc_functions cyc @ [fid]\<rparr>],
                     tj_cycle_of := (tj_cycle_of st)(fid \<mapsto> c)\<rparr>))"

definition set_offstack :: "tj_state \<Rightarrow> string \<Rightarrow> tj_state" where
  "set_offstack st fid =
     st\<lparr>tj_data := (tj_data st)(fid := map_option (\<lambda>d. d\<lparr>td_onstack := False\<rparr>) (tj_data st fid))\<rparr>"

fun add_members :: "nat \<Rightarrow> string list \<Rightarrow> tj_state \<Rightarrow> py_error + tj_state" where
  "add_members c [] st = Inr st"
| "add_members c (m # ms) st =
     py_then (cycle_add_function st c m) (\<lambda>st'. add_members c ms (set_offstack st' m))"

text \<open>Lines 511--522: when the function is the root of a component, pop its members;
  a component of more than one function becomes a new cycle.\<close>

definition tarjan_close :: "g_function \<Rightarrow> nat \<Rightarrow> tj_state \<Rightarrow> py_error + tj_state" where
  "tarjan_close f pos st =
     (let fd = the (tj_data st (fn_id f))
      in if td_lowlink fd = td_order fd then
           (let members = drop pos (tj_stack st);
                st' = st\<lparr>tj_stack := take pos (tj_stack st)\<rparr>
            in if 1 < length members then
                 add_members (length (tj_store st')) members
                   (st'\<lparr>tj_store := tj_store st' @ [\<lparr>cyc_functions = [], cyc_events = Map.empty\<rparr>]\<rparr>)
               else Inr (fold (\<lambda>m s. set_offstack s m) members st'))
         else Inr st)"

definition set_lowlink :: "tj_state \<Rightarrow> string \<Rightarrow> nat \<Rightarrow> tj_state" where
  "set_lowlink st fid l =
     st\<lparr>tj_data := (tj_data st)(fid := map_option (\<lambda>d. d\<lparr>td_lowlink := min (td_lowlink d) l\<rparr>) (tj_data st fid))\<rparr>"

partial_function (option) tarjan :: "(string \<times> g_function) list \<Rightarrow> tj_task \<Rightarrow> tj_state \<Rightarrow> (py_error + tj_state) option" where
  "tarjan fns task st =
     (case task of
        Visit f \<Rightarrow>
          (case tj_data st (fn_id f) of
             Some _ \<Rightarrow> Some (Inr st)
           | None \<Rightarrow>
               tarjan fns (Scan f (map snd (fn_calls f)) (length (tj_stack st)))
                 (st\<lparr>tj_data := (tj_data st)(fn_id f \<mapsto> \<lparr>td_order = tj_order st, td_lowlink = tj_order st, td_onstack = True\<rparr>),
                     tj_order := Suc (tj_order st), tj_stack := tj_stack st @ [fn_id f]\<rparr>))
      | Scan f [] pos \<Rightarrow> Some (tarjan_close f pos st)
      | Scan f (call # calls) pos \<Rightarrow>
          (case tj_data st (call_callee_id call) of
             Some cd \<Rightarrow>
               tarjan fns (Scan f calls pos)
                 (if td_onstack cd then set_lowlink st (fn_id f) (td_order cd) else st)
           | None \<Rightarrow>
               (case map_of fns (call_callee_id call) of
                  None \<Rightarrow> Some (Inl KeyError)
                | Some callee \<Rightarrow>
                    Option.bind (tarjan fns (Visit callee) st)
                      (\<lambda>r. case r of
                             Inl e \<Rightarrow> Some (Inl e)
                           | Inr st' \<Rightarrow>
                               (case tj_data st' (call_callee_id call) of
                                  None \<Rightarrow> Some (Inl KeyError)
                                | Some cd \<Rightarrow> tarjan fns (Scan f calls pos) (set_lowlink st' (fn_id f) (td_lowlink cd)))))))"

declare tarjan.simps [code]

text \<open>\<open>find_cycles\<close>: Tarjan from every function in turn, then \<open>self.cycles\<close> is the list
  of the functions' cycles, each once, in the order of the functions.\<close>

fun tarjan_all :: "(string \<times> g_function) list \<Rightarrow> g_function list \<Rightarrow> tj_state \<Rightarrow> (py_error + tj_state) option" where
  "tarjan_all fns [] st = Some (Inr st)"
| "tarjan_all fns (f # fs) st =
     Option.bind (tarjan fns (Visit f) st)
       (\<lambda>r. case r of Inl e \<Rightarrow> Some (Inl e) | Inr st' \<Rightarrow> tarjan_all fns fs st')"

fun dedup_first :: "'a list \<Rightarrow> 'a list \<Rightarrow> 'a list" where
  "dedup_first acc [] = acc"
| "dedup_first acc (x # xs) = dedup_first (if x \<in> set acc then acc else acc @ [x]) xs"

definition tj_init :: "g_profile \<Rightarrow> tj_state" where
  "tj_init p = \<lparr>tj_order = 0, tj_stack = [], tj_data = Map.empty, tj_cycle_of = Map.empty,
                tj_store = prof_cycle_store p\<rparr>"

definition find_cycles :: "g_profile \<Rightarrow> (py_error + g_profile) option" where
  "find_cycles p =
     Option.bind (tarjan_all (prof_functions p) (map snd (prof_functions p)) (tj_init p))
       (\<lambda>r. case r of
              Inl e \<Rightarrow> Some (Inl e)
            | Inr st \<Rightarrow>
                (let fns = map (\<lambda>(k, f). (k, f\<lparr>fn_cycle := (case tj_cycle_of st (fn_id f) of
                                                               Some c \<Rightarrow> Some c | None \<Rightarrow> fn_cycle f)\<rparr>))
                               (prof_functions p)
                 in Some (Inr (p\<lparr>prof_functions := fns, prof_cycle_store := tj_store st,
                                prof_cycles := dedup_first [] (List.map_filter (\<lambda>(k, f). fn_cycle f) fns)\<rparr>))))"

text \<open>An example call graph: \<open>main\<close> calls \<open>a\<close>, \<open>a\<close> and \<open>b\<close> call each other, \<open>b\<close>
  calls \<open>c\<close>.\<close>

definition ex_graph_function :: "string \<Rightarrow> string list \<Rightarrow> string \<times> g_function" where
  "ex_graph_function n callees = (n, (new_function n n)\<lparr>fn_calls := map (\<lambda>c. (c, new_call c)) callees\<rparr>)"

definition ex_graph :: g_profile where
  "ex_graph = new_profile\<lparr>prof_functions :=
     [ex_graph_function ''main'' [''a''], ex_graph_function ''a'' [''b''],
      ex_graph_function ''b'' [''a'', ''c''], ex_graph_function ''c'' []]\<rparr>"

section \<open>Termination\<close>

fun tj_rank :: "tj_task \<Rightarrow> nat" where
  "tj_rank (Visit f) = 0"
| "tj_rank (Scan f calls pos) = Suc (length calls)"

fun task_ok :: "string set \<Rightarrow> tj_task \<Rightarrow> bool" where
  "task_ok K (Visit f) = (fn_id f \<in> K)"
| "task_ok K (Scan f calls pos) = True"

lemma dom_set_offstack [simp]: "dom (tj_data (set_offstack st m)) = dom (tj_data st)"
  by (auto simp add: set_offstack_def split: if_splits)

lemma dom_set_lowlink [simp]: "dom (tj_data (set_lowlink st m l)) = dom (tj_data st)"
  by (auto simp add: set_lowlink_def split: if_splits)

lemma dom_cycle_add_function:
  "cycle_add_function st c m = Inr st' \<Longrightarrow> tj_data st' = tj_data st"
  by (auto simp add: cycle_add_function_def Let_def split: if_splits)

lemma dom_add_members: "add_members c ms st = Inr st' \<Longrightarrow> dom (tj_data st') = dom (tj_data st)"
  by (induction ms arbitrary: st) (auto simp add: py_then_def dom_cycle_add_function split: sum.splits)

lemma dom_fold_offstack: "dom (tj_data (fold (\<lambda>m s. set_offstack s m) ms st)) = dom (tj_data st)"
  by (induction ms arbitrary: st) simp_all

lemma dom_tarjan_close:
  assumes "tarjan_close f pos st = Inr st'"
  shows "dom (tj_data st') = dom (tj_data st)"
proof -
  let ?fd = "the (tj_data st (fn_id f))"
  let ?st = "st\<lparr>tj_stack := take pos (tj_stack st)\<rparr>"
  let ?new = "?st\<lparr>tj_store := tj_store ?st @ [\<lparr>cyc_functions = [], cyc_events = Map.empty\<rparr>]\<rparr>"
  show ?thesis
  proof (cases "td_lowlink ?fd = td_order ?fd")
    case True
    show ?thesis
    proof (cases "1 < length (drop pos (tj_stack st))")
      case True2: True
      then have "add_members (length (tj_store ?st)) (drop pos (tj_stack st)) ?new = Inr st'"
        using assms True unfolding tarjan_close_def Let_def by simp
      then show ?thesis by (drule_tac dom_add_members) simp
    next
      case False
      then have "st' = fold (\<lambda>m s. set_offstack s m) (drop pos (tj_stack st)) ?st"
        using assms True unfolding tarjan_close_def Let_def by simp
      then show ?thesis by (simp add: dom_fold_offstack)
    qed
  next
    case False
    then show ?thesis using assms unfolding tarjan_close_def Let_def by simp
  qed
qed

lemma map_of_fn_id: "map_of fns k = Some f \<Longrightarrow> fn_id f \<in> fn_id ` snd ` set fns"
  by (force dest: map_of_SomeD)

lemma tarjan_returns_gen:
  assumes "K = fn_id ` snd ` set fns"
  shows "dom (tj_data st) \<subseteq> K \<Longrightarrow> task_ok K t \<Longrightarrow>
         \<exists>r. tarjan fns t st = Some r \<and>
             (\<forall>st'. r = Inr st' \<longrightarrow> dom (tj_data st) \<subseteq> dom (tj_data st') \<and> dom (tj_data st') \<subseteq> K)"
proof (induction "(t, st)" arbitrary: t st
       rule: wf_induct[OF wf_measures[of "[\<lambda>(t, st). card (K - dom (tj_data st)), \<lambda>(t, st). tj_rank t]"]])
  case 1
  have finK: "finite K" using assms by simp
  have IH: "\<exists>r. tarjan fns t' st' = Some r \<and>
             (\<forall>st''. r = Inr st'' \<longrightarrow> dom (tj_data st') \<subseteq> dom (tj_data st'') \<and> dom (tj_data st'') \<subseteq> K)"
    if "card (K - dom (tj_data st')) < card (K - dom (tj_data st)) \<or>
        card (K - dom (tj_data st')) = card (K - dom (tj_data st)) \<and> tj_rank t' < tj_rank t"
       "dom (tj_data st') \<subseteq> K" "task_ok K t'" for t' st'
    using 1(1) that by (simp add: measures_def inv_image_def) blast
  show ?case
  proof (cases t)
    case (Visit f)
    show ?thesis
    proof (cases "tj_data st (fn_id f)")
      case (Some d) then show ?thesis using Visit 1(2) by (subst tarjan.simps) simp
    next
      case None
      let ?st = "st\<lparr>tj_data := (tj_data st)(fn_id f \<mapsto> \<lparr>td_order = tj_order st, td_lowlink = tj_order st, td_onstack = True\<rparr>),
                     tj_order := Suc (tj_order st), tj_stack := tj_stack st @ [fn_id f]\<rparr>"
      have fK: "fn_id f \<in> K" using 1(3) Visit by simp
      have dom: "dom (tj_data ?st) = insert (fn_id f) (dom (tj_data st))" by simp
      have "K - dom (tj_data ?st) \<subset> K - dom (tj_data st)" using fK None by (auto simp only: dom)
      then have lt: "card (K - dom (tj_data ?st)) < card (K - dom (tj_data st))"
        using finK by (simp add: psubset_card_mono)
      have sub: "dom (tj_data ?st) \<subseteq> K" using 1(2) fK by (simp only: dom) blast
      obtain r where r: "tarjan fns (Scan f (map snd (fn_calls f)) (length (tj_stack st))) ?st = Some r"
        and rr: "\<forall>st'. r = Inr st' \<longrightarrow> dom (tj_data ?st) \<subseteq> dom (tj_data st') \<and> dom (tj_data st') \<subseteq> K"
        using IH[OF _ sub, of "Scan f (map snd (fn_calls f)) (length (tj_stack st))"] lt by auto
      have "tarjan fns t st = Some r" using r None Visit by (subst tarjan.simps) simp
      then show ?thesis using rr dom by auto
    qed
  next
    case (Scan f calls pos)
    show ?thesis
    proof (cases calls)
      case Nil
      have tj: "tarjan fns t st = Some (tarjan_close f pos st)" using Scan Nil by (subst tarjan.simps) simp
      show ?thesis
      proof (cases "tarjan_close f pos st")
        case (Inl e) then show ?thesis using tj by simp
      next
        case (Inr st')
        then have "dom (tj_data st') = dom (tj_data st)" by (rule dom_tarjan_close)
        then show ?thesis using tj Inr 1(2) by simp
      qed
    next
      case (Cons call cs)
      show ?thesis
      proof (cases "tj_data st (call_callee_id call)")
        case (Some cd)
        let ?st = "if td_onstack cd then set_lowlink st (fn_id f) (td_order cd) else st"
        have d: "dom (tj_data ?st) = dom (tj_data st)" by simp
        have "tarjan fns t st = tarjan fns (Scan f cs pos) ?st" using Some Scan Cons by (subst tarjan.simps) simp
        then show ?thesis using IH[of ?st "Scan f cs pos"] d 1(2) Scan Cons by simp
      next
        case None
        show ?thesis
        proof (cases "map_of fns (call_callee_id call)")
          case None2: None
          then show ?thesis using None Scan Cons by (subst tarjan.simps) simp
        next
          case (Some callee)
          have cK: "fn_id callee \<in> K" using map_of_fn_id[OF Some] assms by simp
          obtain r where r: "tarjan fns (Visit callee) st = Some r"
            and rr: "\<forall>st'. r = Inr st' \<longrightarrow> dom (tj_data st) \<subseteq> dom (tj_data st') \<and> dom (tj_data st') \<subseteq> K"
            using IH[of st "Visit callee"] 1(2) cK Scan Cons by auto
          show ?thesis
          proof (cases r)
            case (Inl e) then show ?thesis using r None Some Scan Cons by (subst tarjan.simps) simp
          next
            case (Inr st1)
            have sub: "dom (tj_data st) \<subseteq> dom (tj_data st1)" "dom (tj_data st1) \<subseteq> K" using rr Inr by auto
            show ?thesis
            proof (cases "tj_data st1 (call_callee_id call)")
              case None3: None
              then show ?thesis using r Inr None Some Scan Cons by (subst tarjan.simps) simp
            next
              case (Some cd)
              let ?st = "set_lowlink st1 (fn_id f) (td_lowlink cd)"
              have d: "dom (tj_data ?st) = dom (tj_data st1)" by simp
              have le: "card (K - dom (tj_data ?st)) \<le> card (K - dom (tj_data st))"
                using sub finK by (simp only: d) (simp add: card_mono Diff_mono)
              have lt: "card (K - dom (tj_data ?st)) < card (K - dom (tj_data st)) \<or>
                  card (K - dom (tj_data ?st)) = card (K - dom (tj_data st)) \<and>
                  tj_rank (Scan f cs pos) < tj_rank t"
              proof -
                have "tj_rank (Scan f cs pos) < tj_rank t" using Scan Cons by simp
                then show ?thesis using le by linarith
              qed
              have subK: "dom (tj_data ?st) \<subseteq> K" using d sub(2) by simp
              obtain r2 where r2: "tarjan fns (Scan f cs pos) ?st = Some r2"
                and rr2: "\<forall>st'. r2 = Inr st' \<longrightarrow> dom (tj_data ?st) \<subseteq> dom (tj_data st') \<and> dom (tj_data st') \<subseteq> K"
                using IH[OF lt subK] by auto
              have "tarjan fns t st = tarjan fns (Scan f cs pos) ?st"
                using r Inr Some \<open>tj_data st (call_callee_id call) = None\<close>
                  \<open>map_of fns (call_callee_id call) = Some callee\<close> Scan Cons
                by (subst tarjan.simps) simp
              moreover have "\<forall>st'. r2 = Inr st' \<longrightarrow> dom (tj_data st) \<subseteq> dom (tj_data st') \<and> dom (tj_data st') \<subseteq> K"
                using rr2 sub(1) d by blast
              ultimately show ?thesis using r2 by simp
            qed
          qed
        qed
      qed
    qed
  qed
qed

lemma tarjan_all_returns:
  assumes "K = fn_id ` snd ` set fns"
  shows "fn_id ` set fs \<subseteq> K \<Longrightarrow> dom (tj_data st) \<subseteq> K \<Longrightarrow> tarjan_all fns fs st \<noteq> None"
proof (induction fs arbitrary: st)
  case (Cons f fs)
  obtain r where r: "tarjan fns (Visit f) st = Some r"
    and rr: "\<forall>st'. r = Inr st' \<longrightarrow> dom (tj_data st) \<subseteq> dom (tj_data st') \<and> dom (tj_data st') \<subseteq> K"
    using tarjan_returns_gen[OF assms, of st "Visit f"] Cons.prems by auto
  show ?case
  proof (cases r)
    case (Inr st')
    then have "tarjan_all fns fs st' \<noteq> None" using Cons.IH[of st'] Cons.prems rr by simp
    then show ?thesis using r Inr by simp
  qed (use r in simp)
qed simp

text \<open>C27 (find_cycles_returns). \<open>find_cycles\<close> returns on every profile: the recursion of
  \<open>_tarjan\<close> visits each function at most once, so it ends, with the cycles or with the
  \<open>KeyError\<close> of a call to a function that is not in the profile.\<close>

theorem find_cycles_returns: "find_cycles p \<noteq> None"
proof -
  let ?K = "fn_id ` snd ` set (prof_functions p)"
  have "tarjan_all (prof_functions p) (map snd (prof_functions p)) (tj_init p) \<noteq> None"
    by (rule tarjan_all_returns[of ?K]) (auto simp add: tj_init_def)
  then show ?thesis by (auto simp add: find_cycles_def Let_def split: option.splits sum.splits)
qed

text \<open>On the example graph \<open>find_cycles\<close> finds one cycle, made of
  \<open>a\<close> and \<open>b\<close>, records it as the profile's only cycle and as the cycle of \<open>a\<close> and \<open>b\<close>,
  and leaves \<open>main\<close> and \<open>c\<close> outside any cycle.\<close>

theorem find_cycles_example:
  "map_option (map_sum id (\<lambda>p. (prof_cycles p, map cyc_functions (prof_cycle_store p),
                                 map (\<lambda>(k, f). (k, fn_cycle f)) (prof_functions p))))
     (find_cycles ex_graph) =
   Some (Inr ([0], [[''a'', ''b'']], [(''main'', None), (''a'', Some 0), (''b'', Some 0), (''c'', None)]))"
  by code_simp

end
