(* ===== verification/G2D_Perf.thy ===== *)
theory G2D_Perf
  imports G2D_Tarjan Py_Regex
begin

text \<open>The \<^verbatim>\<open>perf\<close> input path of \<^verbatim>\<open>src/gprof2dot.py\<close>: \<open>LineParser\<close> (lines 1057--1097)
  and \<open>PerfParser\<close> (lines 2239--2368).  The parser state is the rest of the input stream
  (its lines, each with its newline), the lookahead line, the end-of-file flag, the line
  counter and the profile being built; each method is a function on that state, an
  assertion failure an \<open>Inl AssertionError\<close>.  A call chain is the list of ids of its
  functions (the Function objects of the source live in the profile, keyed by id).\<close>

record lp_state =
  lp_rest :: "string list"
  lp_line :: string
  lp_eof :: bool
  lp_line_no :: nat
  lp_prof :: g_profile

text \<open>\<open>line.rstrip("\r\n")\<close>.\<close>

definition rstrip_crlf :: "string \<Rightarrow> string" where
  "rstrip_crlf l = rev (dropWhile (\<lambda>c. c = CHR 0x0D \<or> c = CHR 0x0A) (rev l))"

definition lp_readline :: "lp_state \<Rightarrow> lp_state" where
  "lp_readline st =
     (case lp_rest st of
        [] \<Rightarrow> st\<lparr>lp_line := [], lp_eof := True\<rparr>
      | l # ls \<Rightarrow> st\<lparr>lp_rest := ls, lp_line := rstrip_crlf l, lp_line_no := Suc (lp_line_no st)\<rparr>)"

text \<open>\<open>PerfParser.readline\<close>: skip comment lines.\<close>

function perf_readline :: "lp_state \<Rightarrow> lp_state" where
  "perf_readline st =
     (let st' = lp_readline st
      in if lp_eof st' \<or> \<not> (lp_line st' \<noteq> [] \<and> hd (lp_line st') = CHR ''#'') then st'
         else perf_readline st')"
  by pat_completeness auto
termination
  by (relation "measure (\<lambda>st. length (lp_rest st))")
     (auto simp add: lp_readline_def split: list.splits)

declare perf_readline.simps [simp del]

definition lp_consume :: "lp_state \<Rightarrow> string \<times> lp_state" where
  "lp_consume st = (lp_line st, perf_readline st)"

text \<open>The measure every step of the parser decreases: the lines left, and one more
  before the end of the file has been seen.\<close>

definition lp_measure :: "lp_state \<Rightarrow> nat" where
  "lp_measure st = length (lp_rest st) + (if lp_eof st then 0 else 1)"

section \<open>Parsing a frame (lines 2333--2368)\<close>

definition call_re :: "re_atom list" where
  "call_re =
     [RRep re_space 1 True, ROpen ''address'', RRep re_hex 1 True, RClose ''address'',
      RRep re_space 1 True, ROpen ''symbol'', RRep re_any 0 True, RClose ''symbol'',
      RRep re_space 1 True, RChr (re_lit CHR ''(''), ROpen ''module'', RRep re_any 0 True,
      RClose ''module'', RChr (re_lit CHR '')''), REnd]"

definition addr2_re :: "re_atom list" where
  "addr2_re = [RChr (re_lit CHR ''+''), RChr (re_lit CHR ''0''), RChr (re_lit CHR ''x''),
               RRep re_hex 1 True, REnd]"

text \<open>\<open>os.path.basename\<close>: the part after the last slash.\<close>

definition py_basename :: "string \<Rightarrow> string" where
  "py_basename s = rev (takeWhile (\<lambda>c. c \<noteq> CHR ''/'') (rev s))"

text \<open>The function id and name \<open>parse_call\<close> derives from a frame line: the symbol with a
  trailing \<open>+0x...\<close> offset removed, the address instead of an empty or unknown symbol,
  and the module appended after a colon.\<close>

definition frame_function :: "re_caps \<Rightarrow> string \<times> string \<times> string" where
  "frame_function mo =
     (let function_name = py_group mo ''symbol'';
          function_name = (if function_name \<noteq> [] then py_re_sub_empty addr2_re function_name
                           else function_name);
          function_name = (if function_name = [] \<or> function_name = ''[unknown]''
                           then py_group mo ''address'' else function_name);
          module = py_group mo ''module''
      in (function_name @ '':'' @ module, function_name, module))"

definition perf_parse_call :: "lp_state \<Rightarrow> py_error + (string \<times> lp_state)" where
  "perf_parse_call st =
     (let (line, st) = lp_consume st
      in case py_re_match call_re line of
           None \<Rightarrow> Inl AssertionError
         | Some mo \<Rightarrow>
             (let (function_id, function_name, module) = frame_function mo;
                  p = lp_prof st
              in case map_of (prof_functions p) function_id of
                   Some f \<Rightarrow> Inr (function_id, st)
                 | None \<Rightarrow>
                     (let f = (new_function function_id function_name)
                                \<lparr>fn_module := Some (py_basename module),
                                 fn_events := [SAMPLES \<mapsto> 0, TOTAL_SAMPLES \<mapsto> 0]\<rparr>
                      in Inr (function_id, st\<lparr>lp_prof := add_function p f\<rparr>))))"

section \<open>Progress of the reader\<close>

definition cc_measure :: "lp_state \<Rightarrow> nat" where
  "cc_measure st = 2 * length (lp_rest st) + (if lp_line st \<noteq> [] then 1 else 0)"

lemma perf_readline_rest:
  "length (lp_rest (perf_readline st)) \<le> length (lp_rest st) \<and>
   (lp_rest st \<noteq> [] \<longrightarrow> length (lp_rest (perf_readline st)) < length (lp_rest st)) \<and>
   (lp_rest st = [] \<longrightarrow> lp_line (perf_readline st) = [] \<and> lp_eof (perf_readline st))"
proof (induction st rule: perf_readline.induct)
  case (1 st)
  show ?case
  proof (cases "lp_rest st")
    case Nil
    then have "perf_readline st = lp_readline st"
      by (subst perf_readline.simps) (simp add: lp_readline_def Let_def)
    then show ?thesis using Nil by (simp add: lp_readline_def)
  next
    case (Cons l ls)
    let ?r = "lp_readline st"
    have r: "lp_rest ?r = ls" using Cons by (simp add: lp_readline_def)
    show ?thesis
    proof (cases "lp_eof ?r \<or> \<not> (lp_line ?r \<noteq> [] \<and> hd (lp_line ?r) = CHR ''#'')")
      case True
      then have "perf_readline st = ?r" by (subst perf_readline.simps) (simp add: Let_def)
      then show ?thesis using Cons r by simp
    next
      case False
      then have "perf_readline st = perf_readline ?r" by (subst perf_readline.simps) (simp add: Let_def)
      moreover have "length (lp_rest (perf_readline ?r)) \<le> length (lp_rest ?r)"
        using 1[OF refl False] by blast
      ultimately show ?thesis using Cons r by simp
    qed
  qed
qed

lemma perf_readline_measure: "lp_measure (perf_readline st) \<le> lp_measure st"
proof (induction st rule: perf_readline.induct)
  case (1 st)
  have "lp_measure (lp_readline st) \<le> lp_measure st"
    by (auto simp add: lp_readline_def lp_measure_def split: list.splits)
  then show ?case using 1 by (subst perf_readline.simps) (auto simp add: Let_def)
qed

lemma perf_readline_prof [simp]: "lp_prof (perf_readline st) = lp_prof st"
  by (induction st rule: perf_readline.induct) (subst perf_readline.simps, simp add: Let_def lp_readline_def split: list.splits)

lemma perf_parse_call_progress:
  assumes "perf_parse_call st = Inr (fid, st')" "lp_line st \<noteq> []"
  shows "cc_measure st' < cc_measure st \<and> lp_measure st' \<le> lp_measure st"
proof -
  have st': "lp_rest st' = lp_rest (perf_readline st) \<and> lp_line st' = lp_line (perf_readline st) \<and>
             lp_eof st' = lp_eof (perf_readline st)"
    using assms(1) by (auto simp add: perf_parse_call_def lp_consume_def Let_def
                            split: option.splits prod.splits)
  show ?thesis
    using perf_readline_rest[of st] perf_readline_measure[of st] st' assms(2)
    by (auto simp add: cc_measure_def lp_measure_def)
qed

section \<open>Parsing an event (lines 2291--2331)\<close>

text \<open>\<open>parse_callchain\<close>: the frames up to the next empty line, which is consumed.\<close>

function perf_callchain :: "lp_state \<Rightarrow> string list \<Rightarrow> py_error + (string list \<times> lp_state)" where
  "perf_callchain st callchain =
     (if lp_line st \<noteq> [] then
        (case perf_parse_call st of
           Inl e \<Rightarrow> Inl e
         | Inr (function, st') \<Rightarrow> perf_callchain st' (callchain @ [function]))
      else Inr (callchain, if lp_line st = [] then snd (lp_consume st) else st))"
  by pat_completeness auto
termination
  by (relation "measure (\<lambda>(st, _). cc_measure st)") (auto dest: perf_parse_call_progress)

declare perf_callchain.simps [simp del]

definition fn_update :: "g_profile \<Rightarrow> string \<Rightarrow> (g_function \<Rightarrow> g_function) \<Rightarrow> g_profile" where
  "fn_update p fid g = p\<lparr>prof_functions := AList.map_entry fid g (prof_functions p)\<rparr>"

text \<open>\<open>function[event] += 1\<close> on the function stored under \<open>fid\<close>.\<close>

definition fn_incr :: "g_profile \<Rightarrow> string \<Rightarrow> g_event \<Rightarrow> py_error + g_profile" where
  "fn_incr p fid event =
     (case map_of (prof_functions p) fid of
        None \<Rightarrow> Inl KeyError
      | Some f \<Rightarrow> py_then (obj_get (fn_events f) event)
                   (\<lambda>v. Inr (fn_update p fid (\<lambda>f. f\<lparr>fn_events := (fn_events f)(event \<mapsto> v + 1)\<rparr>))))"

text \<open>Lines 2308--2317: each caller's call to the function above it in the chain gets
  one more \<open>SAMPLES2\<close>, a new call starting at 1.\<close>

fun add_chain_calls :: "g_profile \<Rightarrow> string \<Rightarrow> string list \<Rightarrow> py_error + g_profile" where
  "add_chain_calls p callee_id [] = Inr p"
| "add_chain_calls p callee_id (caller # callers) =
     (case map_of (prof_functions p) caller of
        None \<Rightarrow> Inl KeyError
      | Some f \<Rightarrow>
          (case map_of (fn_calls f) callee_id of
             Some call \<Rightarrow>
               py_then (obj_get (call_events call) SAMPLES2)
                 (\<lambda>v. add_chain_calls
                        (fn_update p caller (\<lambda>f. f\<lparr>fn_calls := AList.update callee_id
                            (call\<lparr>call_events := (call_events call)(SAMPLES2 \<mapsto> v + 1)\<rparr>) (fn_calls f)\<rparr>))
                        caller callers)
           | None \<Rightarrow>
               add_chain_calls
                 (fn_update p caller (\<lambda>f. add_call f ((new_call callee_id)\<lparr>call_events := [SAMPLES2 \<mapsto> 1]\<rparr>)))
                 caller callers))"

fun incr_all :: "g_profile \<Rightarrow> string list \<Rightarrow> g_event \<Rightarrow> py_error + g_profile" where
  "incr_all p [] event = Inr p"
| "incr_all p (fid # fids) event = py_then (fn_incr p fid event) (\<lambda>p. incr_all p fids event)"

text \<open>Lines 2300--2321 for a non-empty chain: the first frame is the callee and gets the
  sample, each frame calls the one before it, and every function of the chain gets one
  \<open>TOTAL_SAMPLES\<close> (once, however often it occurs).\<close>

definition record_callchain :: "g_profile \<Rightarrow> string list \<Rightarrow> py_error + g_profile" where
  "record_callchain p callchain =
     (let callee = hd callchain
      in py_then (fn_incr p callee SAMPLES) (\<lambda>p.
           py_then (obj_get (prof_events p) SAMPLES) (\<lambda>n.
             let p = p\<lparr>prof_events := (prof_events p)(SAMPLES \<mapsto> n + 1)\<rparr>
             in py_then (add_chain_calls p callee (tl callchain)) (\<lambda>p.
                  incr_all p (remdups callchain) TOTAL_SAMPLES))))"

definition perf_parse_event :: "lp_state \<Rightarrow> py_error + lp_state" where
  "perf_parse_event st =
     (if lp_eof st then Inr st
      else
        let (line, st) = lp_consume st
        in if line = [] then Inl AssertionError
           else case perf_callchain st [] of
             Inl e \<Rightarrow> Inl e
           | Inr (callchain, st) \<Rightarrow>
               if callchain = [] then Inr st
               else py_then (record_callchain (lp_prof st) callchain) (\<lambda>p. Inr (st\<lparr>lp_prof := p\<rparr>)))"

section \<open>The parse loop (lines 2259--2289)\<close>

lemma perf_readline_progress:
  assumes "\<not> lp_eof st"
  shows "lp_measure (perf_readline st) < lp_measure st"
proof (cases "lp_rest st")
  case Nil
  then show ?thesis using perf_readline_rest[of st] assms by (simp add: lp_measure_def)
next
  case (Cons l ls)
  then have "length (lp_rest (perf_readline st)) < length (lp_rest st)" using perf_readline_rest[of st] by simp
  then show ?thesis using assms by (simp add: lp_measure_def)
qed

lemma perf_callchain_measure:
  "perf_callchain st cc = Inr (cc', st') \<Longrightarrow> lp_measure st' \<le> lp_measure st"
proof (induction st cc rule: perf_callchain.induct)
  case (1 st callchain)
  show ?case
  proof (cases "lp_line st \<noteq> []")
    case True
    then obtain fid st1 where c: "perf_parse_call st = Inr (fid, st1)"
      and r: "perf_callchain st1 (callchain @ [fid]) = Inr (cc', st')"
      using 1(2) by (subst (asm) perf_callchain.simps) (auto split: sum.splits)
    have "lp_measure st1 \<le> lp_measure st" using perf_parse_call_progress[OF c True] by simp
    then show ?thesis using 1(1)[OF True c refl r] by simp
  next
    case False
    then have "st' = perf_readline st"
      using 1(2) by (subst (asm) perf_callchain.simps) (simp add: lp_consume_def)
    then show ?thesis using perf_readline_measure by simp
  qed
qed

lemma perf_parse_event_progress:
  assumes "perf_parse_event st = Inr st'" "\<not> lp_eof st"
  shows "lp_measure st' < lp_measure st"
proof -
  let ?st1 = "perf_readline st"
  have lt: "lp_measure ?st1 < lp_measure st" using perf_readline_progress[OF assms(2)] .
  obtain cc st2 where "perf_callchain ?st1 [] = Inr (cc, st2)"
    and "lp_measure st' = lp_measure st2"
    using assms by (auto simp add: perf_parse_event_def lp_consume_def lp_measure_def py_then_def
                         split: if_splits sum.splits prod.splits)
  then show ?thesis using perf_callchain_measure lt by fastforce
qed

function perf_parse_events :: "lp_state \<Rightarrow> py_error + lp_state" where
  "perf_parse_events st =
     (if lp_eof st then Inr st
      else case perf_parse_event st of
        Inl e \<Rightarrow> Inl e
      | Inr st' \<Rightarrow> perf_parse_events st')"
  by pat_completeness auto
termination
  by (relation "measure lp_measure") (auto dest: perf_parse_event_progress)

declare perf_parse_events.simps [simp del]

text \<open>\<open>PerfParser.parse\<close> up to the call ratios: read the first line, set the profile's
  samples to 0, parse the events to the end of the input, then validate the calls, find
  the cycles, derive \<open>TIME_RATIO\<close> from \<open>SAMPLES\<close> and the call ratios from
  \<open>SAMPLES2\<close>.  The input stream is the text's lines.\<close>

definition perf_init :: "string \<Rightarrow> lp_state" where
  "perf_init text =
     \<lparr>lp_rest = py_readlines text, lp_line = [], lp_eof = False, lp_line_no = 0, lp_prof = new_profile\<rparr>"

definition perf_parse_graph :: "string \<Rightarrow> (py_error + g_profile) option" where
  "perf_parse_graph text =
     (let st = perf_readline (perf_init text);
          st = st\<lparr>lp_prof := (lp_prof st)\<lparr>prof_events := (prof_events (lp_prof st))(SAMPLES \<mapsto> 0)\<rparr>\<rparr>
      in case py_then (perf_parse_events st) (\<lambda>st. validate (lp_prof st)) of
           Inl e \<Rightarrow> Some (Inl e)
         | Inr p \<Rightarrow>
             Option.bind (find_cycles p)
               (\<lambda>r. Some (py_then r (\<lambda>p. py_then (profile_ratio p TIME_RATIO SAMPLES)
                                           (\<lambda>p. call_ratios p SAMPLES2)))))"

end
