(* ===== verification/Reporting.thy ===== *)
theory Reporting
  imports Compressor Py_Numbers G2D_Perf
begin

text \<open>The report writers of \<^verbatim>\<open>src/modeling.py\<close> that main.py runs for every subTOCC:
  \<open>gen_call_chains\<close> (lines 153--214), which writes the window's call stacks in the
  \<^verbatim>\<open>perf script\<close> format and pipes them to gprof2dot, and \<open>output_result_file\<close> (lines
  216--295), which writes the textual report.  The subprocesses and file writes are I/O:
  the model returns the text and the lines each writer produces, with the paths they go
  to.  The text of a float (\<open>str\<close> of a double) is a parameter, with \<open>None\<close> for NaN; a
  set listed with \<open>list(set(...))\<close> is listed sorted (CPython's order depends on hashes,
  and the lemmas speak only of its elements).\<close>

section \<open>Call chains for gprof2dot (lines 162--183)\<close>

text \<open>\<open>os.path.join\<close> of a directory and a relative name.\<close>

definition py_path_join :: "string \<Rightarrow> string \<Rightarrow> string" where
  "py_path_join a b = (if a = [] then b else if last a = CHR ''/'' then a @ b else a @ ''/'' @ b)"

definition gen_call_chains_input :: "cicp list \<Rightarrow> string" where
  "gen_call_chains_input df =
     concat (map (\<lambda>r. command r @ [CHR 0x0A] @ concat (map (\<lambda>each_func. CHR 0x09 # each_func @ [CHR 0x0A]) (call_stack r))
                      @ [CHR 0x0A]) df)"

text \<open>The SVG path and the text written to gprof2dot's standard input; gprof2dot runs
  with \<open>-f perf -n0 -e0\<close>, so its profile is \<open>perf_parse_graph\<close> of that text.\<close>

definition gen_call_chains :: "string \<Rightarrow> string \<Rightarrow> cicp list \<Rightarrow> string \<times> string" where
  "gen_call_chains output_path file_name df =
     (py_path_join output_path (''call_chains_'' @ file_name @ ''.svg''), gen_call_chains_input df)"

section \<open>The text report (lines 216--295)\<close>

record chain_group =
  grp_stack :: string
  grp_ts_begin :: real
  grp_ts_end :: real
  grp_commands :: "string list"
  grp_tids :: "int list"

text \<open>\<open>df.groupby(["function_call_stack"]).aggregate(list)\<close> with the first and last
  instant of each group: one group per distinct stack, in the order of the keys.\<close>

definition group_by_stack :: "cicp list \<Rightarrow> chain_group list" where
  "group_by_stack df =
     map (\<lambda>k. let rows = filter (\<lambda>r. function_call_stack r = k) df
              in \<lparr>grp_stack = k, grp_ts_begin = Min (set (map ts_begin rows)),
                  grp_ts_end = Max (set (map ts_end rows)), grp_commands = map command rows,
                  grp_tids = map tid rows\<rparr>)
         (sorted_list_of_set (set (map function_call_stack df)))"

definition py_set_list :: "'a::linorder list \<Rightarrow> 'a list" where
  "py_set_list xs = sorted_list_of_set (set xs)"

definition min_opt :: "real list \<Rightarrow> real option" where
  "min_opt xs = (if xs = [] then None else Some (Min (set xs)))"

definition max_opt :: "real list \<Rightarrow> real option" where
  "max_opt xs = (if xs = [] then None else Some (Max (set xs)))"

definition chain_lines :: "nat \<times> chain_group \<Rightarrow> string list" where
  "chain_lines ig =
     (case ig of (i, g) \<Rightarrow>
        [replicate 42 CHR ''-'', ''Function call stack chain '' @ py_str_int (int i + 1), grp_stack g,
         ''Processes: '' @ py_join '','' (py_set_list (grp_commands g)),
         ''Threads: '' @ py_join '','' (map py_str_int (py_set_list (grp_tids g)))])"

text \<open>The report file's lines and the lines appended to the summary file \<open>res\<close>.
  \<open>file_name.split("_")[1]\<close> raises \<open>IndexError\<close> for a name without an underscore.\<close>

definition output_result_file ::
    "(real option \<Rightarrow> string) \<Rightarrow> string \<Rightarrow> string \<Rightarrow> cicp list \<Rightarrow>
     py_error + (string \<times> string list \<times> string \<times> string list)" where
  "output_result_file str_float output_path file_name df =
     (let groups = sort_key grp_ts_begin (group_by_stack df);
          ts_min = min_opt (map grp_ts_begin groups);
          ts_max = max_opt (map grp_ts_end groups);
          duration = (case (ts_min, ts_max) of (Some a, Some b) \<Rightarrow> Some (b - a) | _ \<Rightarrow> None);
          line = replicate 42 CHR ''=''
      in py_then (py_getitem (py_split_sep CHR ''_'' file_name) 1) (\<lambda>file_name_num.
           let output_result =
                 [line, ''Time period: '' @ str_float ts_min @ '' ~ '' @ str_float ts_max] @
                 concat (map chain_lines (enumerate 0 groups));
               all_res_list =
                 [line, ''Contention group '' @ file_name_num @ '' :'',
                  ''Duration: '' @ str_float duration,
                  ''Function call stacks: '' @ py_str_int (int (length groups)),
                  ''Total threads: '' @ py_str_int (int (length (py_set_list (concat (map grp_tids groups))))),
                  ''Total processes: '' @ py_str_int (int (length (py_set_list (concat (map grp_commands groups))))),
                  ''Detailed information:'' @ file_name]
           in Inr (output_path @ ''/'' @ file_name, output_result, output_path @ ''/res'', all_res_list)))"

section \<open>An example window\<close>

text \<open>Two frames as \<^verbatim>\<open>perf script\<close> prints them, innermost first, after the loader
  removed the tab and the newline; the loader stores a CICP's stack reversed, outermost
  frame first (\<open>Ingestion.data_loading_roundtrip\<close>).\<close>

definition ex_perf_frames :: "string list" where
  "ex_perf_frames = [''    7f3a10 lock (/lib/libc.so.6)'', ''    4005d0 main (/usr/bin/app)'']"

definition ex_window_cicp :: cicp where
  "ex_window_cicp =
     \<lparr>idx = 0, timestamps = [0, 1], command = ''app'', tid = 7, event = ''250000'',
      call_stack = rev ex_perf_frames, function_call_stack = ''main;lock'', signature = ''main;lock'',
      duration_length = 2, ts_begin = 0, ts_end = 1\<rparr>"

definition graph_summary :: "g_profile \<Rightarrow> (string \<times> real option \<times> string list) list" where
  "graph_summary p = map (\<lambda>(k, f). (k, fn_events f SAMPLES, map fst (fn_calls f))) (prof_functions p)"

section \<open>Properties of the report\<close>

lemma py_split_sep_absent: "d \<notin> set s \<Longrightarrow> py_split_sep d s = [s]"
  by (induction s) (auto simp add: Let_def)

lemma py_split_sep_append: "d \<notin> set a \<Longrightarrow> py_split_sep d (a @ d # b) = a # py_split_sep d b"
  by (induction a) (auto simp add: Let_def)

lemma underscore_not_digit: "py_is_digit c \<Longrightarrow> c \<noteq> CHR ''_''"
  by (auto simp add: py_is_digit_def)

lemma res_name_split: "py_split_sep CHR ''_'' (''res_'' @ py_str_int (int k)) = [''res'', py_str_int (int k)]"
proof -
  have "CHR ''_'' \<notin> set (nat_digits k)"
    using nat_digits_digits[of k] underscore_not_digit by (auto simp add: list_all_iff)
  then have "py_split_sep CHR ''_'' (py_str_int (int k)) = [py_str_int (int k)]"
    by (simp add: py_str_int_def py_split_sep_absent)
  then show ?thesis using py_split_sep_append[of "CHR ''_''" "''res''" "py_str_int (int k)"] by simp
qed

lemma group_by_stack_stacks: "map grp_stack (group_by_stack df) = sorted_list_of_set (function_call_stack ` set df)"
  by (simp add: group_by_stack_def Let_def comp_def)

lemma group_by_stack_tids: "set (concat (map grp_tids (group_by_stack df))) = tid ` set df"
  by (auto simp add: group_by_stack_def Let_def)

lemma group_by_stack_commands: "set (concat (map grp_commands (group_by_stack df))) = command ` set df"
  by (auto simp add: group_by_stack_def Let_def)

lemma length_py_set_list [simp]: "length (py_set_list xs) = card (set xs)"
  by (simp add: py_set_list_def)

text \<open>For a report task named \<open>res_k\<close>, as main.py names
  them, \<open>output_result_file\<close> writes the report to \<open>output_path/res_k\<close> and appends to
  \<open>output_path/res\<close> a summary that gives \<open>k\<close> as the contention group, the number of
  distinct function call stacks of the window, and its numbers of distinct threads and
  processes.\<close>

theorem output_result_file_summary:
  "\<not> isl (output_result_file sf outp (''res_'' @ py_str_int (int k)) df) \<and>
   (let summary = snd (snd (snd (projr (output_result_file sf outp (''res_'' @ py_str_int (int k)) df))))
    in summary ! 1 = ''Contention group '' @ py_str_int (int k) @ '' :'' \<and>
       summary ! 3 = ''Function call stacks: '' @ py_str_int (int (card (function_call_stack ` set df))) \<and>
       summary ! 4 = ''Total threads: '' @ py_str_int (int (card (tid ` set df))) \<and>
       summary ! 5 = ''Total processes: '' @ py_str_int (int (card (command ` set df))))"
proof -
  have len: "length (group_by_stack df) = card (function_call_stack ` set df)"
    using arg_cong[OF group_by_stack_stacks[of df], of length] by simp
  have tids: "(\<Union>x\<in>set (group_by_stack df). set (grp_tids x)) = tid ` set df"
    using group_by_stack_tids[of df] by simp
  have cmds: "(\<Union>x\<in>set (group_by_stack df). set (grp_commands x)) = command ` set df"
    using group_by_stack_commands[of df] by simp
  show ?thesis
    unfolding output_result_file_def Let_def res_name_split
    by (simp add: py_getitem_def py_index_def len tids cmds)
qed

text \<open>The report lists each distinct function call stack
  of the window exactly once, in the order of the first instant at which a CICP with
  that stack begins, each with that instant and the last instant such a CICP ends.\<close>

theorem output_result_file_chains:
  "let gs = sort_key grp_ts_begin (group_by_stack df)
   in distinct (map grp_stack gs) \<and> set (map grp_stack gs) = function_call_stack ` set df \<and>
      sorted (map grp_ts_begin gs) \<and>
      list_all (\<lambda>g. grp_ts_begin g = Min (ts_begin ` {r \<in> set df. function_call_stack r = grp_stack g}) \<and>
                    grp_ts_end g = Max (ts_end ` {r \<in> set df. function_call_stack r = grp_stack g})) gs"
proof -
  let ?gs = "sort_key grp_ts_begin (group_by_stack df)"
  have "distinct (map grp_stack ?gs) = distinct (map grp_stack (group_by_stack df))"
    by (rule mset_eq_imp_distinct_iff) simp
  then have d: "distinct (map grp_stack ?gs)" by (simp add: group_by_stack_stacks)
  have s: "set (map grp_stack ?gs) = function_call_stack ` set df"
    using arg_cong[OF group_by_stack_stacks[of df], of set] by simp
  have o: "sorted (map grp_ts_begin ?gs)" by (rule sorted_sort_key)
  have "list_all (\<lambda>g. grp_ts_begin g = Min (ts_begin ` {r \<in> set df. function_call_stack r = grp_stack g}) \<and>
                    grp_ts_end g = Max (ts_end ` {r \<in> set df. function_call_stack r = grp_stack g})) (group_by_stack df)"
    by (auto simp add: group_by_stack_def Let_def list_all_iff image_image)
  then have m: "list_all (\<lambda>g. grp_ts_begin g = Min (ts_begin ` {r \<in> set df. function_call_stack r = grp_stack g}) \<and>
                    grp_ts_end g = Max (ts_end ` {r \<in> set df. function_call_stack r = grp_stack g})) ?gs"
    by (simp add: list_all_iff)
  show ?thesis using d s o m by (simp add: Let_def)
qed

text \<open>gprof2dot's perf parser takes the first frame of a
  chain as the sampled function and each later frame as its caller, but
  \<open>gen_call_chains\<close> writes the stacks in the loader's order, outermost frame first
  (the comment at line 170 says they are in perf order): for a window whose sample was
  taken in \<open>lock\<close> called from \<open>main\<close>, the graph gives the sample to \<open>main\<close> and draws
  \<open>lock\<close> calling \<open>main\<close>.\<close>

theorem gen_call_chains_inverted:
  "map_option (map_sum id graph_summary)
     (perf_parse_graph (snd (gen_call_chains ''result'' ''res_1'' [ex_window_cicp]))) =
   Some (Inr [(''main:/usr/bin/app'', Some 1, []), (''lock:/lib/libc.so.6'', Some 0, [''main:/usr/bin/app''])])"
  by code_simp

end
