(* ===== verification/G2D_Theme.thy ===== *)
theory G2D_Theme
  imports TCSA_Prelude
begin

text \<open>\<open>Theme\<close> of \<^verbatim>\<open>src/gprof2dot.py\<close> (lines 3229--3492): the colour map that turns a
  node's or an edge's weight into colours, font sizes and pen widths, and the six
  predefined themes.  Floats are reals; \<open>x ** y\<close> and \<open>pow\<close> are \<open>py_pow\<close>, which is
  Python's power on a non-negative base (every base the theme raises to a power is
  non-negative); \<open>h % 1.0\<close> is the fractional part.  A colour is an (r, g, b) triple.\<close>

type_synonym rgb = "real \<times> real \<times> real"

record theme =
  th_bgcolor :: rgb
  th_mincolor :: rgb
  th_maxcolor :: rgb
  th_fontname :: string
  th_fontcolor :: string
  th_nodestyle :: string
  th_minfontsize :: real
  th_maxfontsize :: real
  th_minpenwidth :: real
  th_maxpenwidth :: real
  th_gamma :: real
  th_skew :: real
  th_fillcolor :: string
  th_enable_pprof_style :: bool

text \<open>\<open>Theme.__init__\<close> with its default arguments.\<close>

definition default_theme :: theme where
  "default_theme =
     \<lparr>th_bgcolor = (0, 0, 1), th_mincolor = (0, 0, 0), th_maxcolor = (0, 0, 1),
      th_fontname = ''Arial'', th_fontcolor = ''white'', th_nodestyle = ''filled'',
      th_minfontsize = 10, th_maxfontsize = 10, th_minpenwidth = 1/2, th_maxpenwidth = 4,
      th_gamma = 22/10, th_skew = 1, th_fillcolor = '''', th_enable_pprof_style = False\<rparr>"

definition py_pow :: "real \<Rightarrow> real \<Rightarrow> real" where
  "py_pow x y = (if y = 0 then 1 else x powr y)"

definition py_fmod1 :: "real \<Rightarrow> real" where
  "py_fmod1 h = h - of_int \<lfloor>h\<rfloor>"

definition hue_to_rgb :: "real \<Rightarrow> real \<Rightarrow> real \<Rightarrow> real" where
  "hue_to_rgb m1 m2 h0 =
     (let h = (if h0 < 0 then h0 + 1 else if 1 < h0 then h0 - 1 else h0)
      in if h * 6 < 1 then m1 + (m2 - m1) * h * 6
         else if h * 2 < 1 then m2
         else if h * 3 < 2 then m1 + (m2 - m1) * (2 / 3 - h) * 6
         else m1)"

definition hsl_to_rgb :: "theme \<Rightarrow> real \<Rightarrow> real \<Rightarrow> real \<Rightarrow> rgb" where
  "hsl_to_rgb th h0 s0 l0 =
     (let h = py_fmod1 h0;
          s = min (max s0 0) 1;
          l = min (max l0 0) 1;
          m2 = (if l \<le> 1/2 then l * (s + 1) else l + s - l * s);
          m1 = l * 2 - m2;
          r = hue_to_rgb m1 m2 (h + 1/3);
          g = hue_to_rgb m1 m2 h;
          b = hue_to_rgb m1 m2 (h - 1/3)
      in (py_pow r (th_gamma th), py_pow g (th_gamma th), py_pow b (th_gamma th)))"

definition graph_bgcolor :: "theme \<Rightarrow> rgb" where
  "graph_bgcolor th = (case th_bgcolor th of (h, s, l) \<Rightarrow> hsl_to_rgb th h s l)"

text \<open>\<open>Theme.color\<close>: the weight clamped to [0, 1] interpolates between the minimum and
  the maximum colour in HSL, linearly for skew 1 and exponentially otherwise; a negative
  skew raises \<open>ValueError\<close>.\<close>

definition color :: "theme \<Rightarrow> real \<Rightarrow> py_error + rgb" where
  "color th weight0 =
     (let weight = min (max weight0 0) 1;
          (hmin, smin, lmin) = th_mincolor th;
          (hmax, smax, lmax) = th_maxcolor th
      in if th_skew th < 0 then Inl ValueError
         else if th_skew th = 1 then
           Inr (hsl_to_rgb th (hmin + weight * (hmax - hmin)) (smin + weight * (smax - smin))
                  (lmin + weight * (lmax - lmin)))
         else
           (let base = th_skew th;
                f = (-1 + py_pow base weight) / (base - 1)
            in Inr (hsl_to_rgb th (hmin + (hmax - hmin) * f) (smin + (smax - smin) * f)
                      (lmin + (lmax - lmin) * f))))"

definition pprof_style_color :: "real \<Rightarrow> bool \<Rightarrow> rgb" where
  "pprof_style_color weight0 is_background =
     (let shift = 7/10;
          saturation0 = (if is_background then 1/10 else 1);
          value = (if is_background then 93/100 else 7/10);
          weight1 = max (-1) (min 1 weight0);
          saturation = (if \<bar>weight1\<bar> < 1/5 then saturation0 * \<bar>weight1\<bar> / (1/5) else saturation0);
          weight2 = (if 0 < weight1 then py_pow weight1 (1 - shift) else weight1);
          weight = (if weight2 < 0 then - py_pow (- weight2) (1 - shift) else weight2);
          (r, g) = (if weight < 0 then (value * (1 + saturation * weight), value)
                    else (value, value * (1 - saturation * weight)));
          b = value * (1 - saturation)
      in (r, g, b))"

definition node_bgcolor :: "theme \<Rightarrow> real \<Rightarrow> py_error + rgb" where
  "node_bgcolor th weight =
     (if th_enable_pprof_style th then Inr (pprof_style_color weight True) else color th weight)"

definition node_fgcolor :: "theme \<Rightarrow> real \<Rightarrow> py_error + rgb" where
  "node_fgcolor th weight =
     (if th_enable_pprof_style th then Inr (pprof_style_color weight False)
      else if th_nodestyle th = ''filled'' then Inr (graph_bgcolor th)
      else color th weight)"

definition fontsize :: "theme \<Rightarrow> real \<Rightarrow> real" where
  "fontsize th weight = max (weight ^ 2 * th_maxfontsize th) (th_minfontsize th)"

definition node_fontsize :: "theme \<Rightarrow> real \<Rightarrow> real" where
  "node_fontsize th weight =
     (if \<not> th_enable_pprof_style th then fontsize th weight
      else 8 + (if weight \<noteq> 0 then of_int \<lceil>16 * sqrt weight\<rceil> else 0))"

definition edge_color :: "theme \<Rightarrow> real \<Rightarrow> py_error + rgb" where
  "edge_color th weight =
     (if th_enable_pprof_style th then Inr (pprof_style_color weight False) else color th weight)"

definition edge_fontsize :: "theme \<Rightarrow> real \<Rightarrow> real" where
  "edge_fontsize th weight =
     (if th_enable_pprof_style th then 1 + max (min (weight * 16) 16) 8 else fontsize th weight)"

definition edge_penwidth :: "theme \<Rightarrow> real \<Rightarrow> real" where
  "edge_penwidth th weight =
     (if th_enable_pprof_style th then 1 + min (weight * 5) 5
      else max (weight * th_maxpenwidth th) (th_minpenwidth th))"

definition edge_arrowsize :: "theme \<Rightarrow> real \<Rightarrow> real" where
  "edge_arrowsize th weight = 1/2 * sqrt (edge_penwidth th weight)"

section \<open>The predefined themes (lines 3449--3492)\<close>

definition PPROF_STYLE_COLORMAP :: theme where
  "PPROF_STYLE_COLORMAP =
     default_theme\<lparr>th_fontcolor := ''black'', th_fillcolor := ''#f8f8f8'', th_enable_pprof_style := True\<rparr>"

definition TEMPERATURE_COLORMAP :: theme where
  "TEMPERATURE_COLORMAP =
     default_theme\<lparr>th_mincolor := (2/3, 8/10, 1/4), th_maxcolor := (0, 1, 1/2), th_gamma := 1\<rparr>"

definition PINK_COLORMAP :: theme where
  "PINK_COLORMAP = default_theme\<lparr>th_mincolor := (0, 1, 9/10), th_maxcolor := (0, 1, 1/2)\<rparr>"

definition GRAY_COLORMAP :: theme where
  "GRAY_COLORMAP = default_theme\<lparr>th_mincolor := (0, 0, 85/100), th_maxcolor := (0, 0, 0)\<rparr>"

definition BW_COLORMAP :: theme where
  "BW_COLORMAP =
     default_theme\<lparr>th_minfontsize := 8, th_maxfontsize := 24, th_mincolor := (0, 0, 0),
                   th_maxcolor := (0, 0, 0), th_minpenwidth := 1/10, th_maxpenwidth := 8\<rparr>"

definition PRINT_COLORMAP :: theme where
  "PRINT_COLORMAP =
     default_theme\<lparr>th_minfontsize := 18, th_maxfontsize := 30, th_fontcolor := ''black'',
                   th_nodestyle := ''solid'', th_mincolor := (0, 0, 0), th_maxcolor := (0, 0, 0),
                   th_minpenwidth := 1/10, th_maxpenwidth := 8\<rparr>"

definition themes :: "(string \<times> theme) list" where
  "themes = [(''color'', TEMPERATURE_COLORMAP), (''pink'', PINK_COLORMAP), (''gray'', GRAY_COLORMAP),
             (''bw'', BW_COLORMAP), (''print'', PRINT_COLORMAP), (''pprof'', PPROF_STYLE_COLORMAP)]"

definition rgb_unit :: "rgb \<Rightarrow> bool" where
  "rgb_unit c = (case c of (r, g, b) \<Rightarrow> 0 \<le> r \<and> r \<le> 1 \<and> 0 \<le> g \<and> g \<le> 1 \<and> 0 \<le> b \<and> b \<le> 1)"

definition unit_result :: "py_error + rgb \<Rightarrow> bool" where
  "unit_result r = (case r of Inr c \<Rightarrow> rgb_unit c | Inl e \<Rightarrow> False)"

section \<open>Bounds\<close>

lemma hue_to_rgb_bounds:
  assumes "0 \<le> m1" "m1 \<le> m2" "-1 \<le> h0" "h0 \<le> 2"
  shows "m1 \<le> hue_to_rgb m1 m2 h0 \<and> hue_to_rgb m1 m2 h0 \<le> m2"
proof -
  define h where "h = (if h0 < 0 then h0 + 1 else if 1 < h0 then h0 - 1 else h0)"
  have h: "0 \<le> h" "h \<le> 1" using assms(3,4) by (auto simp add: h_def)
  have d: "0 \<le> m2 - m1" using assms(2) by simp
  have "m1 \<le> m1 + (m2 - m1) * h * 6 \<and> m1 + (m2 - m1) * h * 6 \<le> m2" if "h * 6 < 1"
  proof -
    have "(m2 - m1) * (h * 6) \<le> m2 - m1" using d that by (simp add: mult_left_le)
    moreover have "0 \<le> (m2 - m1) * (h * 6)" using d h by simp
    ultimately show ?thesis by (simp add: mult.assoc)
  qed
  moreover have "m1 \<le> m1 + (m2 - m1) * (2 / 3 - h) * 6 \<and> m1 + (m2 - m1) * (2 / 3 - h) * 6 \<le> m2"
    if "\<not> h * 2 < 1" "h * 3 < 2"
  proof -
    have "(m2 - m1) * ((2 / 3 - h) * 6) \<le> m2 - m1" using d that by (intro mult_left_le) auto
    moreover have "0 \<le> (m2 - m1) * ((2 / 3 - h) * 6)" using d that by simp
    ultimately show ?thesis by (simp add: mult.assoc)
  qed
  ultimately show ?thesis using assms(2) unfolding hue_to_rgb_def Let_def h_def[symmetric] by auto
qed

lemma hsl_m_bounds:
  fixes s l :: real
  assumes "0 \<le> s" "s \<le> 1" "0 \<le> l" "l \<le> 1"
  defines "m2 \<equiv> (if l \<le> 1/2 then l * (s + 1) else l + s - l * s)"
  shows "0 \<le> l * 2 - m2 \<and> l * 2 - m2 \<le> m2 \<and> m2 \<le> 1"
proof (cases "l \<le> 1/2")
  case True
  have e: "m2 = l + l * s" using True by (simp add: m2_def algebra_simps)
  have "l * s \<le> l" using assms(1-3) mult_left_le by blast
  moreover have "0 \<le> l * s" using assms(1,3) by simp
  ultimately show ?thesis using True unfolding e by linarith
next
  case False
  have e: "m2 = l + s * (1 - l)" using False by (simp add: m2_def right_diff_distrib mult.commute)
  have "s * (1 - l) \<le> 1 - l" using assms(1,2,4) by (simp add: mult_left_le_one_le)
  moreover have "0 \<le> s * (1 - l)" using assms(1,4) by simp
  ultimately show ?thesis using False unfolding e by linarith
qed

lemma py_pow_unit: "0 \<le> x \<Longrightarrow> x \<le> 1 \<Longrightarrow> 0 \<le> g \<Longrightarrow> 0 \<le> py_pow x g \<and> py_pow x g \<le> 1"
  by (auto simp add: py_pow_def powr_le1)

lemma py_fmod1_bounds: "0 \<le> py_fmod1 h \<and> py_fmod1 h < 1"
  by (simp add: py_fmod1_def) linarith

lemma hsl_to_rgb_unit:
  assumes "0 \<le> th_gamma th"
  shows "rgb_unit (hsl_to_rgb th h s l)"
proof -
  define s' where "s' = min (max s 0) 1"
  define l' where "l' = min (max l 0) 1"
  define h' where "h' = py_fmod1 h"
  define m2 where "m2 = (if l' \<le> 1/2 then l' * (s' + 1) else l' + s' - l' * s')"
  define m1 where "m1 = l' * 2 - m2"
  have m: "0 \<le> m1" "m1 \<le> m2" "m2 \<le> 1"
    using hsl_m_bounds[of s' l'] by (auto simp add: s'_def l'_def m1_def m2_def)
  have hb: "0 \<le> h'" "h' < 1" using py_fmod1_bounds by (auto simp add: h'_def)
  have c: "0 \<le> py_pow (hue_to_rgb m1 m2 x) (th_gamma th) \<and> py_pow (hue_to_rgb m1 m2 x) (th_gamma th) \<le> 1"
    if "-1 \<le> x" "x \<le> 2" for x
  proof -
    have "0 \<le> hue_to_rgb m1 m2 x \<and> hue_to_rgb m1 m2 x \<le> 1"
      using hue_to_rgb_bounds[OF m(1,2) that] m by linarith
    then show ?thesis using py_pow_unit assms by blast
  qed
  have eq: "hsl_to_rgb th h s l = (py_pow (hue_to_rgb m1 m2 (h' + 1/3)) (th_gamma th),
                                   py_pow (hue_to_rgb m1 m2 h') (th_gamma th),
                                   py_pow (hue_to_rgb m1 m2 (h' - 1/3)) (th_gamma th))"
    unfolding hsl_to_rgb_def Let_def s'_def[symmetric] l'_def[symmetric] h'_def[symmetric]
      m2_def[symmetric] m1_def[symmetric] by (rule refl)
  show ?thesis unfolding eq rgb_unit_def using c[of "h' + 1/3"] c[of h'] c[of "h' - 1/3"] hb by simp
qed

lemma pprof_style_color_unit: "rgb_unit (pprof_style_color w bg)"
proof -
  define w1 where "w1 = max (-1) (min 1 w)"
  have w1: "-1 \<le> w1" "w1 \<le> 1" by (auto simp add: w1_def)
  define sat where "sat = (if \<bar>w1\<bar> < 1/5 then (if bg then 1/10 else 1) * \<bar>w1\<bar> / (1/5) else (if bg then 1/10 else 1::real))"
  have sat: "0 \<le> sat" "sat \<le> 1" using w1 by (auto simp add: sat_def)
  define w2 where "w2 = (if 0 < w1 then py_pow w1 (1 - 7/10) else w1)"
  define w3 where "w3 = (if w2 < 0 then - py_pow (- w2) (1 - 7/10) else w2)"
  have w2: "-1 \<le> w2" "w2 \<le> 1" using w1 py_pow_unit[of w1 "1 - 7/10"] by (auto simp add: w2_def)
  have w3: "-1 \<le> w3" "w3 \<le> 1" using w2 py_pow_unit[of "- w2" "1 - 7/10"] by (auto simp add: w3_def)
  define v where "v = (if bg then 93/100 else 7/10::real)"
  have v: "0 \<le> v" "v \<le> 1" by (auto simp add: v_def)
  have sw: "\<bar>sat * w3\<bar> \<le> 1" using sat w3 by (simp add: abs_mult mult_le_one)
  have eq: "pprof_style_color w bg =
              (if w3 < 0 then v * (1 + sat * w3) else v, if w3 < 0 then v else v * (1 - sat * w3),
               v * (1 - sat))"
    unfolding pprof_style_color_def Let_def w1_def[symmetric] sat_def[symmetric] w2_def[symmetric]
      w3_def[symmetric] v_def[symmetric] by simp
  have a: "0 \<le> 1 + sat * w3" "1 + sat * w3 \<le> 1" if "w3 < 0"
    using sw that sat by (auto simp add: abs_le_iff mult_nonneg_nonpos)
  have b: "0 \<le> 1 - sat * w3" "1 - sat * w3 \<le> 1" if "\<not> w3 < 0"
    using sw that sat by (auto simp add: abs_le_iff)
  show ?thesis unfolding eq rgb_unit_def using a b v sat
    by (auto simp add: mult_le_one)
qed

lemma color_unit:
  assumes "0 \<le> th_gamma th" "0 \<le> th_skew th"
  shows "unit_result (color th w)"
  using assms hsl_to_rgb_unit[OF assms(1)] by (simp add: color_def Let_def unit_result_def split: prod.split)

lemma graph_bgcolor_unit: "0 \<le> th_gamma th \<Longrightarrow> rgb_unit (graph_bgcolor th)"
  by (simp add: graph_bgcolor_def hsl_to_rgb_unit split: prod.split)

lemma theme_colors_unit_gen:
  assumes "0 \<le> th_gamma th" "0 \<le> th_skew th"
  shows "unit_result (node_bgcolor th w) \<and> unit_result (node_fgcolor th w) \<and> unit_result (edge_color th w)"
  using color_unit[OF assms, of w] graph_bgcolor_unit[OF assms(1)]
  by (simp add: node_bgcolor_def node_fgcolor_def edge_color_def pprof_style_color_unit unit_result_def)

lemmas theme_defs = TEMPERATURE_COLORMAP_def PINK_COLORMAP_def GRAY_COLORMAP_def BW_COLORMAP_def
  PRINT_COLORMAP_def PPROF_STYLE_COLORMAP_def default_theme_def

lemma temperature_hsl:
  "hsl_to_rgb TEMPERATURE_COLORMAP (2/3) (8/10) (1/4) = (1/20, 1/20, 9/20)"
  "hsl_to_rgb TEMPERATURE_COLORMAP 0 1 (1/2) = (1, 0, 0)"
proof -
  have f: "\<lfloor>2/3 :: real\<rfloor> = 0" by linarith
  show "hsl_to_rgb TEMPERATURE_COLORMAP (2/3) (8/10) (1/4) = (1/20, 1/20, 9/20)"
    by (simp add: hsl_to_rgb_def hue_to_rgb_def py_fmod1_def py_pow_def f TEMPERATURE_COLORMAP_def default_theme_def Let_def)
  show "hsl_to_rgb TEMPERATURE_COLORMAP 0 1 (1/2) = (1, 0, 0)"
    by (simp add: hsl_to_rgb_def hue_to_rgb_def py_fmod1_def py_pow_def TEMPERATURE_COLORMAP_def default_theme_def Let_def)
qed

text \<open>C17 (theme_colors_unit). Every predefined colour map gives, for every weight, a node
  background, a node foreground and an edge colour, none of them an error, with each
  component in [0, 1].\<close>

theorem theme_colors_unit:
  "list_all (\<lambda>(nm, th). \<forall>w. unit_result (node_bgcolor th w) \<and> unit_result (node_fgcolor th w)
       \<and> unit_result (edge_color th w)) themes"
  by (simp add: themes_def theme_colors_unit_gen theme_defs)

text \<open>C19 (color_result). \<open>Theme.color\<close> raises \<open>ValueError\<close> exactly when the skew is
  negative, and otherwise returns a colour in the unit cube, whatever the weight.\<close>

theorem color_result:
  "0 \<le> th_gamma th \<Longrightarrow>
   (case color th w of Inl e \<Rightarrow> th_skew th < 0 \<and> e = ValueError | Inr c \<Rightarrow> 0 \<le> th_skew th \<and> rgb_unit c)"
proof (cases "th_skew th < 0")
  case True
  then show ?thesis by (simp add: color_def Let_def split: prod.split)
next
  case False
  assume g: "0 \<le> th_gamma th"
  then show ?thesis using color_unit[OF g, of w] False by (auto simp add: unit_result_def split: sum.splits)
qed

text \<open>The default \<open>color\<close> map runs from dark blue at weight 0
  (and below) to saturated red at weight 1 (and above).\<close>

theorem temperature_endpoints:
  "(w \<le> 0 \<longrightarrow> color TEMPERATURE_COLORMAP w = Inr (1/20, 1/20, 9/20)) \<and>
   (1 \<le> w \<longrightarrow> color TEMPERATURE_COLORMAP w = Inr (1, 0, 0))"
proof -
  have c: "color TEMPERATURE_COLORMAP w = Inr (hsl_to_rgb TEMPERATURE_COLORMAP
             (2/3 + min (max w 0) 1 * (0 - 2/3)) (8/10 + min (max w 0) 1 * (1 - 8/10))
             (1/4 + min (max w 0) 1 * (1/2 - 1/4)))"
    by (simp add: color_def TEMPERATURE_COLORMAP_def default_theme_def Let_def)
  have lo: "w \<le> 0 \<Longrightarrow> min (max w 0) 1 = 0" and hi: "1 \<le> w \<Longrightarrow> min (max w 0) 1 = 1" by auto
  show ?thesis using temperature_hsl unfolding c by (simp add: lo hi)
qed

lemma temperature_endpoints_witness:
  "color TEMPERATURE_COLORMAP 0 = Inr (1/20, 1/20, 9/20) \<and> color TEMPERATURE_COLORMAP 1 = Inr (1, 0, 0)"
  using temperature_endpoints[of 0] temperature_endpoints[of 1] by simp

lemma color_result_witness:
  "0 \<le> th_gamma (TEMPERATURE_COLORMAP\<lparr>th_skew := 2\<rparr>) \<and>
   (case color (TEMPERATURE_COLORMAP\<lparr>th_skew := 2\<rparr>) (1/2) of Inl e \<Rightarrow> th_skew (TEMPERATURE_COLORMAP\<lparr>th_skew := 2\<rparr>) < 0 \<and> e = ValueError
    | Inr c \<Rightarrow> 0 \<le> th_skew (TEMPERATURE_COLORMAP\<lparr>th_skew := 2\<rparr>) \<and> rgb_unit c)"
  using color_result[of "TEMPERATURE_COLORMAP\<lparr>th_skew := 2\<rparr>" "1/2"]
  by (simp add: TEMPERATURE_COLORMAP_def default_theme_def)

end
