(* ===== verification/G2D_Dot.thy ===== *)
theory G2D_Dot
  imports G2D_Theme G2D_Profile Py_Numbers
begin

text \<open>\<open>DotWriter\<close> of \<^verbatim>\<open>src/gprof2dot.py\<close> (lines 3504--3732): the text of the DOT graph
  written for a profile under a theme.  The writer appends to a stream; here each method
  returns the text it writes and the graph is their concatenation.  An exception raised
  half way is the error value (the text written before it is not modelled).  Strings are
  sequences of characters below 256; the ellipsis U+2026 that ends a truncated name is
  written as its UTF-8 bytes.  The text of a float is a parameter: \<open>ft_f2\<close> is
  \<open>"%.2f" % x\<close> and \<open>ft_str\<close> is \<open>str(x)\<close>.  The class attributes \<open>strip\<close> and \<open>wrap\<close> are at their default
  \<open>False\<close>.\<close>

abbreviation bsl :: char where "bsl \<equiv> CHR 0x5C"
abbreviation dq :: char where "dq \<equiv> CHR 0x22"
abbreviation nl :: char where "nl \<equiv> CHR 0x0A"
abbreviation tab :: char where "tab \<equiv> CHR 0x09"

record float_text =
  ft_f2 :: "real \<Rightarrow> string"
  ft_str :: "real \<Rightarrow> string"

text \<open>\<open>DotWriter.escape\<close>: four replacements in this order, then quotes.\<close>

definition dot_escape :: "string \<Rightarrow> string" where
  "dot_escape s0 =
     (let s1 = py_replace [bsl] [bsl, bsl] s0;
          s2 = py_replace [nl] [bsl, CHR ''n''] s1;
          s3 = py_replace [tab] [bsl, CHR ''t''] s2;
          s4 = py_replace [dq] [bsl, dq] s3
      in dq # s4 @ [dq])"

definition py_isalnum :: "string \<Rightarrow> bool" where
  "py_isalnum s =
     (s \<noteq> [] \<and> list_all (\<lambda>c. let n = (of_char c :: nat) in
                              (48 \<le> n \<and> n \<le> 57) \<or> (65 \<le> n \<and> n \<le> 90) \<or> (97 \<le> n \<and> n \<le> 122)) s)"

text \<open>\<open>DotWriter.id\<close> on a string, and the value of an attribute: a string, or a number
  written by \<open>str\<close>.\<close>

definition dot_id_str :: "string \<Rightarrow> string" where
  "dot_id_str s = (if py_isalnum s \<and> \<not> starts_with ''0x'' s then s else dot_escape s)"

datatype dot_val = DStr string | DNum string

definition dot_id :: "dot_val \<Rightarrow> string" where
  "dot_id v = (case v of DStr s \<Rightarrow> dot_id_str s | DNum t \<Rightarrow> t)"

text \<open>\<open>attr_list\<close>: the keyword arguments sorted by name, \<open>None\<close> values skipped; an empty
  argument dict writes nothing.\<close>

definition dot_attr_list :: "(string \<times> dot_val option) list \<Rightarrow> string" where
  "dot_attr_list attrs =
     (if attrs = [] then []
      else '' ['' @ py_join '', ''
               (map (\<lambda>(n, v). dot_id_str n @ ''='' @ dot_id (the v))
                  (filter (\<lambda>(n, v). v \<noteq> None) (sort_key fst attrs))) @ '']'')"

definition dot_attr :: "string \<Rightarrow> (string \<times> dot_val option) list \<Rightarrow> string" where
  "dot_attr what attrs = [tab] @ what @ dot_attr_list attrs @ '';'' @ [nl]"

definition dot_node :: "string \<Rightarrow> (string \<times> dot_val option) list \<Rightarrow> string" where
  "dot_node n attrs = [tab] @ dot_id_str n @ dot_attr_list attrs @ '';'' @ [nl]"

definition dot_edge :: "string \<Rightarrow> string \<Rightarrow> (string \<times> dot_val option) list \<Rightarrow> string" where
  "dot_edge src dst attrs =
     [tab] @ dot_id_str src @ '' -> '' @ dot_id_str dst @ dot_attr_list attrs @ '';'' @ [nl]"

text \<open>\<open>DotWriter.color\<close>: each component to an integer in [0, 255], written \<open>%02x\<close>.\<close>

definition float2int :: "real \<Rightarrow> nat" where
  "float2int f = (if f \<le> 0 then 0 else if 1 \<le> f then 255 else nat \<lfloor>255 * f + 1/2\<rfloor>)"

definition hex_digit :: "nat \<Rightarrow> char" where
  "hex_digit d = (if d < 10 then char_of (48 + d) else char_of (87 + d))"

fun hex_digits :: "nat \<Rightarrow> string" where
  "hex_digits n = (if n < 16 then [hex_digit n] else hex_digits (n div 16) @ [hex_digit (n mod 16)])"

declare hex_digits.simps [simp del]

definition py_hex02 :: "nat \<Rightarrow> string" where
  "py_hex02 n = replicate (2 - length (hex_digits n)) (CHR ''0'') @ hex_digits n"

definition dot_color :: "rgb \<Rightarrow> string" where
  "dot_color c = (case c of (r, g, b) \<Rightarrow> ''#'' @ concat (map (\<lambda>x. py_hex02 (float2int x)) [r, g, b]))"

text \<open>The event formatters the graph uses: \<open>times\<close> (\<open>"%u"\<close> truncates a float) and
  \<open>percentage\<close> (lines 69--77).\<close>

definition py_trunc :: "real \<Rightarrow> int" where
  "py_trunc x = (if 0 \<le> x then \<lfloor>x\<rfloor> else - \<lfloor>- x\<rfloor>)"

definition MULTIPLICATION_SIGN :: string where
  "MULTIPLICATION_SIGN = [CHR 0xD7]"

definition ellipsis :: string where
  "ellipsis = [CHR 0xE2, CHR 0x80, CHR 0xA6]"

definition times :: "real \<Rightarrow> string" where
  "times x = py_str_int (py_trunc x) @ MULTIPLICATION_SIGN"

definition percentage :: "float_text \<Rightarrow> real \<Rightarrow> string" where
  "percentage ft p = ft_f2 ft (p * 100) @ ''%''"

text \<open>\<open>Event.format\<close> with the formatter each event kind is created with.\<close>

definition event_format :: "float_text \<Rightarrow> g_event \<Rightarrow> real \<Rightarrow> string" where
  "event_format ft ev v =
     (case ev of CALLS \<Rightarrow> times v | SAMPLES \<Rightarrow> times v | SAMPLES2 \<Rightarrow> times v
      | TOTAL_SAMPLES \<Rightarrow> times v | TIME \<Rightarrow> ''('' @ ft_str ft v @ '')''
      | TIME_RATIO \<Rightarrow> percentage ft v | TOTAL_TIME \<Rightarrow> ft_str ft v
      | TOTAL_TIME_RATIO \<Rightarrow> percentage ft v)"

section \<open>The graph (\<open>DotWriter.graph\<close>)\<close>

definition MAX_FUNCTION_NAME :: nat where "MAX_FUNCTION_NAME = 4096"

text \<open>The class attribute \<open>show_function_events\<close> (\<open>main\<close> sets it from \<open>--node-label\<close>
  and \<open>--show-samples\<close>) and the fixed \<open>show_edge_events\<close>.\<close>

definition default_function_events :: "g_event list" where
  "default_function_events = [TOTAL_TIME_RATIO, TIME_RATIO]"

definition show_edge_events :: "g_event list" where
  "show_edge_events = [TOTAL_TIME_RATIO, CALLS]"

text \<open>The loop over the shown function events: the two time ratios are kept for the
  percentage line (0 when not shown or absent), every other present event adds a label.\<close>

definition label_events :: "float_text \<Rightarrow> g_event list \<Rightarrow> g_events \<Rightarrow> string list \<times> real \<times> real" where
  "label_events ft evs e =
     fold (\<lambda>ev (labels, total_time_ratio, time_ratio).
             case e ev of
               None \<Rightarrow> (labels, total_time_ratio, time_ratio)
             | Some v \<Rightarrow> if ev = TOTAL_TIME_RATIO then (labels, v, time_ratio)
                         else if ev = TIME_RATIO then (labels, total_time_ratio, v)
                         else (labels @ [event_format ft ev v], total_time_ratio, time_ratio))
       evs ([], 0, 0)"

text \<open>The label of a function's node: process, module, the (truncated) name, the labels
  of the shown events, the self and total time ratios, and the call count.\<close>

definition node_label :: "float_text \<Rightarrow> g_event list \<Rightarrow> g_function \<Rightarrow> string" where
  "node_label ft evs f =
     (let labels0 = (case fn_process f of Some pr \<Rightarrow> [pr] | None \<Rightarrow> [])
                    @ (case fn_module f of Some m \<Rightarrow> [m] | None \<Rightarrow> []);
          name0 = fn_name f;
          name = (if MAX_FUNCTION_NAME \<le> length name0
                  then take (MAX_FUNCTION_NAME - 1) name0 @ ellipsis else name0);
          (ev_labels, total_time_ratio, time_ratio) = label_events ft evs (fn_events f);
          labels = labels0 @ [name] @ ev_labels
                   @ [ft_f2 ft (time_ratio * 100) @ ''%'' @ [nl] @ ''of ''
                      @ ft_f2 ft (total_time_ratio * 100) @ ''%'']
                   @ (case fn_called f of Some c \<Rightarrow> [times c]
                      | None \<Rightarrow> [])
      in py_join [nl] labels)"

definition graph_node :: "float_text \<Rightarrow> g_event list \<Rightarrow> theme \<Rightarrow> g_function \<Rightarrow> py_error + string" where
  "graph_node ft evs th f =
     (let weight = (case fn_weight f of Some w \<Rightarrow> w | None \<Rightarrow> 0);
          time_ratio = snd (snd (label_events ft evs (fn_events f)))
      in py_then (node_fgcolor th weight) (\<lambda>fg. py_then (node_bgcolor th weight) (\<lambda>bg.
           Inr (dot_node (fn_id f)
                  [(''label'', Some (DStr (node_label ft evs f))), (''color'', Some (DStr (dot_color fg))),
                   (''fillcolor'', Some (DStr (dot_color bg))),
                   (''fontsize'', Some (DStr (ft_f2 ft (node_fontsize th time_ratio)))),
                   (''tooltip'', map_option DStr (fn_filename f))]))))"

text \<open>One edge: the callee is looked up in the profile (\<open>KeyError\<close> when it is missing);
  the weight is the call's, else the callee's, else 0.\<close>

definition graph_edge :: "float_text \<Rightarrow> g_profile \<Rightarrow> theme \<Rightarrow> g_function \<Rightarrow> g_call \<Rightarrow> py_error + string" where
  "graph_edge ft p th f c =
     (case map_of (prof_functions p) (call_callee_id c) of
        None \<Rightarrow> Inl KeyError
      | Some callee \<Rightarrow>
          (let labels = map (\<lambda>ev. event_format ft ev (the (call_events c ev)))
                          (filter (\<lambda>ev. call_events c ev \<noteq> None) show_edge_events);
               weight = (case call_weight c of Some w \<Rightarrow> w
                         | None \<Rightarrow> (case fn_weight callee of Some w \<Rightarrow> w | None \<Rightarrow> 0))
           in py_then (edge_color th weight) (\<lambda>col.
                Inr (dot_edge (fn_id f) (call_callee_id c)
                       [(''label'', Some (DStr (py_join [nl] labels))), (''color'', Some (DStr (dot_color col))),
                        (''fontsize'', Some (DStr (ft_f2 ft (edge_fontsize th weight)))),
                        (''penwidth'', Some (DStr (ft_f2 ft (edge_penwidth th weight)))),
                        (''labeldistance'', Some (DStr (ft_f2 ft (edge_penwidth th weight)))),
                        (''arrowsize'', Some (DStr (ft_f2 ft (edge_arrowsize th weight))))]))))"

definition graph_function :: "float_text \<Rightarrow> g_event list \<Rightarrow> g_profile \<Rightarrow> theme \<Rightarrow> g_function \<Rightarrow> py_error + string" where
  "graph_function ft evs p th f =
     py_then (graph_node ft evs th f) (\<lambda>node.
       py_then (py_map_all (graph_edge ft p th f) (map snd (sort_key fst (fn_calls f)))) (\<lambda>edges.
         Inr (node @ concat edges)))"

definition graph_header :: "theme \<Rightarrow> string" where
  "graph_header th =
     ''digraph {'' @ [nl]
     @ dot_attr ''graph'' [(''fontname'', Some (DStr (th_fontname th))), (''ranksep'', Some (DNum ''0.25'')),
                          (''nodesep'', Some (DNum ''0.125''))]
     @ dot_attr ''node'' [(''fontname'', Some (DStr (th_fontname th))), (''shape'', Some (DStr ''box'')),
                         (''style'', Some (DStr (th_nodestyle th))), (''fontcolor'', Some (DStr (th_fontcolor th))),
                         (''width'', Some (DNum ''0'')), (''height'', Some (DNum ''0'')),
                         (''fillcolor'', Some (DStr (th_fillcolor th)))]
     @ dot_attr ''edge'' [(''fontname'', Some (DStr (th_fontname th)))]"

definition dot_graph :: "float_text \<Rightarrow> g_event list \<Rightarrow> g_profile \<Rightarrow> theme \<Rightarrow> py_error + string" where
  "dot_graph ft evs p th =
     py_then (py_map_all (graph_function ft evs p th) (map snd (sort_key fst (prof_functions p)))) (\<lambda>parts.
       Inr (graph_header th @ concat parts @ ''}'' @ [nl]))"

section \<open>Reading DOT identifiers and colours back\<close>

text \<open>How Graphviz reads the text written for an identifier (its lexer,
  \<^verbatim>\<open>lib/cgraph/scan.l\<close>): a quoted string, in which only \<open>\"\<close> stands for a quote,
  \<open>\\\<close> is kept as written, a backslash before a newline is dropped and every other
  character is kept as it is; or a bare word, which is one identifier when it is a
  letter or \<open>_\<close> followed by letters, digits and \<open>_\<close> (bytes from 128 count as
  letters) and is not a keyword (\<open>node\<close>, \<open>edge\<close>, \<open>graph\<close>, \<open>digraph\<close>,
  \<open>subgraph\<close>, \<open>strict\<close>, in any case), or when it is a numeral
  \<open>[-](.digits | digits[.digits])\<close>.  \<open>None\<close>: the text is not one identifier.\<close>

definition dot_digit :: "char \<Rightarrow> bool" where
  "dot_digit c = (CHR ''0'' \<le> c \<and> c \<le> CHR ''9'')"

definition dot_letter :: "char \<Rightarrow> bool" where
  "dot_letter c = ((CHR ''a'' \<le> c \<and> c \<le> CHR ''z'') \<or> (CHR ''A'' \<le> c \<and> c \<le> CHR ''Z'') \<or> c = CHR ''_''
                   \<or> 128 \<le> (of_char c :: nat))"

definition dot_bare_id :: "string \<Rightarrow> bool" where
  "dot_bare_id t = (t \<noteq> [] \<and> dot_letter (hd t) \<and> list_all (\<lambda>c. dot_letter c \<or> dot_digit c) t)"

definition dot_numeral :: "string \<Rightarrow> bool" where
  "dot_numeral t =
     (let u = (if t \<noteq> [] \<and> hd t = CHR ''-'' then tl t else t)
      in case u of
           [] \<Rightarrow> False
         | c # cs \<Rightarrow>
             if c = CHR ''.'' then cs \<noteq> [] \<and> list_all dot_digit cs
             else takeWhile dot_digit u \<noteq> [] \<and>
                  (case dropWhile dot_digit u of [] \<Rightarrow> True
                   | d # ds \<Rightarrow> d = CHR ''.'' \<and> list_all dot_digit ds))"

definition ascii_lower :: "char \<Rightarrow> char" where
  "ascii_lower c = (if CHR ''A'' \<le> c \<and> c \<le> CHR ''Z'' then char_of (of_char c + (32::nat)) else c)"

definition dot_keyword :: "string \<Rightarrow> bool" where
  "dot_keyword t = (map ascii_lower t \<in> set [''node'', ''edge'', ''graph'', ''digraph'', ''subgraph'', ''strict''])"

text \<open>The rest of a quoted string after its opening quote: the identifier when the
  closing quote is the last character.\<close>

fun dot_qstring :: "string \<Rightarrow> string option" where
  "dot_qstring [] = None"
| "dot_qstring (c # cs) =
     (if c = dq then (if cs = [] then Some [] else None)
      else if c = bsl then
        (case cs of
           [] \<Rightarrow> None
         | d # ds \<Rightarrow>
             if d = dq then map_option (Cons dq) (dot_qstring ds)
             else if d = bsl then map_option (\<lambda>v. bsl # bsl # v) (dot_qstring ds)
             else if d = nl then dot_qstring ds
             else map_option (Cons bsl) (dot_qstring cs))
      else map_option (Cons c) (dot_qstring cs))"

definition dot_read_id :: "string \<Rightarrow> string option" where
  "dot_read_id t =
     (case t of
        [] \<Rightarrow> None
      | c # cs \<Rightarrow>
          if c = dq then dot_qstring cs
          else if (dot_bare_id t \<and> \<not> dot_keyword t) \<or> dot_numeral t then Some t else None)"

text \<open>The identifier Graphviz reads for a string \<open>DotWriter.id\<close> quotes: the escapes
  \<open>\\\<close>, \<open>\n\<close>, \<open>\t\<close> stay two characters, \<open>\"\<close> becomes a quote; and its decoding.  The
  strings \<open>DotWriter.id\<close> writes bare and Graphviz does not read as one identifier: a
  keyword, or a word that starts with a digit and is not a numeral.\<close>

definition gv_char :: "char \<Rightarrow> string" where
  "gv_char c = (if c = bsl then [bsl, bsl] else if c = nl then [bsl, CHR ''n'']
                else if c = tab then [bsl, CHR ''t''] else [c])"

definition dot_id_value :: "string \<Rightarrow> string" where
  "dot_id_value s = concat (map gv_char s)"

fun dot_id_decode :: "string \<Rightarrow> string" where
  "dot_id_decode [] = []"
| "dot_id_decode (c # cs) =
     (if c = bsl then
        (case cs of
           [] \<Rightarrow> [bsl]
         | d # ds \<Rightarrow> (if d = CHR ''n'' then nl else if d = CHR ''t'' then tab else bsl) # dot_id_decode ds)
      else c # dot_id_decode cs)"

definition dot_id_clash :: "string \<Rightarrow> bool" where
  "dot_id_clash s =
     (py_isalnum s \<and> \<not> starts_with ''0x'' s \<and> \<not> dot_numeral s \<and> (dot_digit (hd s) \<or> dot_keyword s))"

definition hex_value :: "char \<Rightarrow> nat option" where
  "hex_value c = (if CHR ''0'' \<le> c \<and> c \<le> CHR ''9'' then Some (of_char c - 48)
                  else if CHR ''a'' \<le> c \<and> c \<le> CHR ''f'' then Some (of_char c - 87) else None)"

definition hex_byte :: "char \<Rightarrow> char \<Rightarrow> nat option" where
  "hex_byte a b = (case (hex_value a, hex_value b) of (Some x, Some y) \<Rightarrow> Some (16 * x + y) | _ \<Rightarrow> None)"

definition dot_color_read :: "string \<Rightarrow> (nat \<times> nat \<times> nat) option" where
  "dot_color_read t =
     (case t of [h, r1, r2, g1, g2, b1, b2] \<Rightarrow>
        if h = CHR ''#'' then
          (case (hex_byte r1 r2, hex_byte g1 g2, hex_byte b1 b2) of
             (Some r, Some g, Some b) \<Rightarrow> Some (r, g, b) | _ \<Rightarrow> None)
        else None
      | _ \<Rightarrow> None)"

definition calls_closed :: "g_profile \<Rightarrow> bool" where
  "calls_closed p =
     list_all (\<lambda>f. list_all (\<lambda>c. map_of (prof_functions p) (call_callee_id c) \<noteq> None) (map snd (fn_calls f)))
       (map snd (prof_functions p))"

definition esc_char :: "char \<Rightarrow> string" where
  "esc_char c = (if c = bsl then [bsl, bsl] else if c = nl then [bsl, CHR ''n'']
                 else if c = tab then [bsl, CHR ''t''] else if c = dq then [bsl, dq] else [c])"

text \<open>Two small profiles: \<open>main\<close> calling a function \<open>gone\<close> that is not in the profile,
  and \<open>main\<close> calling \<open>work\<close>.\<close>

definition ex_dangling :: g_profile where
  "ex_dangling = new_profile\<lparr>prof_functions :=
     [(''main'', (new_function ''main'' ''main'')\<lparr>fn_calls := [(''gone'', new_call ''gone'')]\<rparr>)]\<rparr>"

definition ex_closed :: g_profile where
  "ex_closed = new_profile\<lparr>prof_functions :=
     [(''main'', (new_function ''main'' ''main'')\<lparr>fn_calls := [(''work'', new_call ''work'')]\<rparr>),
      (''work'', new_function ''work'' ''work'')]\<rparr>"

section \<open>Escaping\<close>

lemma concat_map_concat_map:
  "concat (map g (concat (map f xs))) = concat (map (\<lambda>x. concat (map g (f x))) xs)"
  by (induction xs) auto

lemma dot_escape_chars: "dot_escape s = dq # concat (map esc_char s) @ [dq]"
proof -
  have "(\<lambda>x. concat (map (\<lambda>x. if x = dq then [bsl, dq] else [x])
              (concat (map (\<lambda>x. if x = tab then [bsl, CHR ''t''] else [x])
                 (concat (map (\<lambda>x. if x = nl then [bsl, CHR ''n''] else [x])
                    (if x = bsl then [bsl, bsl] else [x]))))))) = esc_char"
    by (rule ext) (simp add: esc_char_def)
  then show ?thesis
    by (simp add: dot_escape_def Let_def py_replace_single concat_map_concat_map)
qed

lemma dot_qstring_esc: "dot_qstring (concat (map esc_char s) @ [dq]) = Some (dot_id_value s)"
  by (induction s) (auto simp add: esc_char_def dot_id_value_def gv_char_def)

lemma dot_id_decode_value: "dot_id_decode (dot_id_value s) = s"
  by (induction s) (auto simp add: dot_id_value_def gv_char_def)

lemma py_isalnum_chars:
  "py_isalnum s \<Longrightarrow> s \<noteq> [] \<and> list_all (\<lambda>c. dot_letter c \<or> dot_digit c) s \<and>
                   list_all (\<lambda>c. c \<noteq> bsl \<and> c \<noteq> nl \<and> c \<noteq> tab \<and> c \<noteq> dq \<and> c \<noteq> CHR ''_'') s"
  by (auto simp add: py_isalnum_def list_all_iff Let_def dot_letter_def dot_digit_def less_eq_char_def)

lemma dot_id_value_plain:
  "list_all (\<lambda>c. c \<noteq> bsl \<and> c \<noteq> nl \<and> c \<noteq> tab) s \<Longrightarrow> dot_id_value s = s"
  by (induction s) (auto simp add: dot_id_value_def gv_char_def)

lemma dot_bare_id_alnum:
  assumes "py_isalnum s"
  shows "dot_bare_id s \<longleftrightarrow> \<not> dot_digit (hd s)"
proof -
  have "s \<noteq> [] \<and> list_all (\<lambda>c. dot_letter c \<or> dot_digit c) s" and "hd s \<noteq> CHR ''_''"
    using py_isalnum_chars[OF assms] by (auto simp add: list_all_iff)
  moreover have "dot_letter c \<longleftrightarrow> \<not> dot_digit c" if "dot_letter c \<or> dot_digit c" "c \<noteq> CHR ''_''" for c
    using that by (auto simp add: dot_letter_def dot_digit_def less_eq_char_def)
  ultimately show ?thesis by (cases s) (auto simp add: dot_bare_id_def)
qed

text \<open>C18 (dot_id_graphviz). The text \<open>DotWriter.id\<close> writes for a string is read by
  Graphviz as one identifier, from which the string is recovered, so that distinct
  function ids give distinct nodes; except when the string is written bare and is a
  DOT keyword (a function named \<open>node\<close> or \<open>Graph\<close>) or starts with a digit without
  being a numeral (\<open>3dfx\<close>): then the text is not one identifier.\<close>

theorem dot_id_graphviz:
  "dot_read_id (dot_id_str s) = (if dot_id_clash s then None else Some (dot_id_value s)) \<and>
   dot_id_decode (dot_id_value s) = s"
proof (cases "py_isalnum s \<and> \<not> starts_with ''0x'' s")
  case True
  then have a: "py_isalnum s" and x: "\<not> starts_with ''0x'' s" by simp_all
  have ch: "s \<noteq> []" "list_all (\<lambda>c. c \<noteq> bsl \<and> c \<noteq> nl \<and> c \<noteq> tab \<and> c \<noteq> dq \<and> c \<noteq> CHR ''_'') s"
    using py_isalnum_chars[OF a] by simp_all
  then obtain c cs where s: "s = c # cs" "c \<noteq> dq" by (cases s) auto
  have v: "dot_id_value s = s" using ch(2) by (intro dot_id_value_plain) (simp add: list_all_iff)
  have "dot_read_id (dot_id_str s) = (if (dot_bare_id s \<and> \<not> dot_keyword s) \<or> dot_numeral s then Some s else None)"
    using True s by (simp add: dot_id_str_def dot_read_id_def)
  then show ?thesis using a x v dot_bare_id_alnum[OF a] dot_id_decode_value[of s]
    by (auto simp add: dot_id_clash_def)
next
  case False
  then have "dot_id_str s = dot_escape s" unfolding dot_id_str_def by (rule if_not_P)
  then show ?thesis using False
    by (simp add: dot_escape_chars dot_read_id_def dot_qstring_esc dot_id_clash_def dot_id_decode_value)
qed

lemma dot_id_graphviz_keyword:
  "dot_id_clash ''node'' \<and> dot_id_clash ''Graph'' \<and> dot_id_clash ''3dfx'' \<and> \<not> dot_id_clash ''main'' \<and>
   \<not> dot_id_clash ''0x1f'' \<and> \<not> dot_id_clash ''42''"
  by code_simp

section \<open>Colours\<close>

lemma float2int_nearest:
  "float2int x \<le> 255 \<and> \<bar>real (float2int x) - 255 * min (max x 0) 1\<bar> \<le> 1/2"
proof -
  consider "x \<le> 0" | "1 \<le> x" | "0 < x" "x < 1" by linarith
  then show ?thesis
  proof cases
    case 3
    define n where "n = \<lfloor>255 * x + 1/2\<rfloor>"
    have n: "real_of_int n \<le> 255 * x + 1/2" "255 * x + 1/2 < real_of_int n + 1"
      unfolding n_def by linarith+
    have b: "0 \<le> n" "n \<le> 255" using n 3 by linarith+
    then have "nat n \<le> 255" by simp
    moreover have "\<bar>real_of_int n - 255 * x\<bar> \<le> 1/2" unfolding abs_le_iff using n by linarith
    ultimately show ?thesis using 3 by (simp add: float2int_def n_def[symmetric] of_nat_nat[OF b(1)])
  qed (simp_all add: float2int_def)
qed

lemma hex_digit_value: "d < 16 \<Longrightarrow> hex_value (hex_digit d) = Some d"
  by (auto simp add: hex_digit_def hex_value_def less_eq_char_def)

lemma hex_digit_zero: "hex_digit 0 = CHR ''0''"
  using char_of_char[of "CHR ''0''"] by (simp add: hex_digit_def)

lemma py_hex02_byte: "n < 256 \<Longrightarrow> py_hex02 n = [hex_digit (n div 16), hex_digit (n mod 16)]"
proof (cases "n < 16")
  case True
  then show ?thesis by (simp add: py_hex02_def hex_digits.simps hex_digit_zero)
next
  case False
  assume "n < 256"
  then have "n div 16 < 16" by simp
  then show ?thesis using False by (simp add: py_hex02_def hex_digits.simps [of n] hex_digits.simps [of "n div 16"])
qed

lemma hex_byte_hex02: "n < 256 \<Longrightarrow> \<exists>a b. py_hex02 n = [a, b] \<and> hex_byte a b = Some n"
  by (simp add: py_hex02_byte hex_byte_def hex_digit_value)

lemma dot_color_bytes:
  "dot_color (r, g, b) = ''#'' @ py_hex02 (float2int r) @ py_hex02 (float2int g) @ py_hex02 (float2int b)"
  by (simp add: dot_color_def)

text \<open>C20 (dot_color_roundtrip). The colour text is seven characters \<open>#rrggbb\<close> that read
  back as three bytes, each the component clamped to [0, 1], scaled by 255 and rounded to
  the nearest integer.\<close>

theorem dot_color_roundtrip:
  "dot_color_read (dot_color (r, g, b)) = Some (float2int r, float2int g, float2int b) \<and>
   list_all (\<lambda>x. float2int x \<le> 255 \<and> \<bar>real (float2int x) - 255 * min (max x 0) 1\<bar> \<le> 1/2) [r, g, b]"
proof -
  have "float2int x < 256" for x using float2int_nearest[of x] by linarith
  then obtain r1 r2 g1 g2 b1 b2 where
    "py_hex02 (float2int r) = [r1, r2]" "hex_byte r1 r2 = Some (float2int r)"
    "py_hex02 (float2int g) = [g1, g2]" "hex_byte g1 g2 = Some (float2int g)"
    "py_hex02 (float2int b) = [b1, b2]" "hex_byte b1 b2 = Some (float2int b)"
    using hex_byte_hex02 by meson
  then show ?thesis using float2int_nearest[of r] float2int_nearest[of g] float2int_nearest[of b]
    by (simp add: dot_color_bytes dot_color_read_def)
qed

section \<open>Errors of the graph writer\<close>

lemma theme_not_isl:
  assumes "0 \<le> th_gamma th" "0 \<le> th_skew th"
  shows "\<not> isl (node_bgcolor th w) \<and> \<not> isl (node_fgcolor th w) \<and> \<not> isl (edge_color th w)"
  using theme_colors_unit_gen[OF assms, of w] by (auto simp add: unit_result_def split: sum.splits)

lemma graph_node_Inr:
  "0 \<le> th_gamma th \<Longrightarrow> 0 \<le> th_skew th \<Longrightarrow> \<exists>t. graph_node ft evs th f = Inr t"
  using theme_not_isl[of th] by (simp add: graph_node_def Let_def py_then_not_isl)

lemma graph_edge_result:
  assumes "0 \<le> th_gamma th" "0 \<le> th_skew th"
  shows "(case graph_edge ft p th f c of Inl e \<Rightarrow> e = KeyError \<and> map_of (prof_functions p) (call_callee_id c) = None
          | Inr t \<Rightarrow> map_of (prof_functions p) (call_callee_id c) \<noteq> None)"
proof (cases "map_of (prof_functions p) (call_callee_id c)")
  case None
  then show ?thesis by (simp add: graph_edge_def)
next
  case (Some callee)
  have "\<not> isl (edge_color th w)" for w using theme_not_isl[OF assms] by blast
  then show ?thesis using Some by (simp add: graph_edge_def Let_def py_then_not_isl)
qed

lemma graph_function_result:
  assumes "0 \<le> th_gamma th" "0 \<le> th_skew th"
  shows "(case graph_function ft evs p th f of
            Inl e \<Rightarrow> e = KeyError \<and> list_ex (\<lambda>c. map_of (prof_functions p) (call_callee_id c) = None) (map snd (fn_calls f))
          | Inr t \<Rightarrow> list_all (\<lambda>c. map_of (prof_functions p) (call_callee_id c) \<noteq> None) (map snd (fn_calls f)))"
proof -
  obtain t where t: "graph_node ft evs th f = Inr t" using graph_node_Inr[OF assms] by blast
  let ?E = "py_map_all (graph_edge ft p th f) (map snd (sort_key fst (fn_calls f)))"
  have err: "\<And>x e. graph_edge ft p th f x = Inl e \<Longrightarrow> e = KeyError"
    using graph_edge_result[OF assms] by (fastforce split: sum.splits)
  have isl_e: "isl (graph_edge ft p th f x) \<longleftrightarrow> map_of (prof_functions p) (call_callee_id x) = None" for x
    using graph_edge_result[OF assms, where ft=ft and p=p and f=f and c=x] by (auto split: sum.splits)
  have "isl ?E \<longleftrightarrow> list_ex (\<lambda>c. map_of (prof_functions p) (call_callee_id c) = None) (map snd (fn_calls f))"
    by (simp add: py_map_all_isl isl_e list_ex_iff)
  then show ?thesis using py_map_all_error[OF err] t
    by (cases ?E) (auto simp add: graph_function_def list_ex_iff list_all_iff)
qed

lemma dot_graph_closed:
  assumes "0 \<le> th_gamma th" "0 \<le> th_skew th"
  shows "isl (dot_graph ft evs p th) \<longleftrightarrow> \<not> calls_closed p"
    and "dot_graph ft evs p th = Inl e \<Longrightarrow> e = KeyError"
proof -
  let ?F = "py_map_all (graph_function ft evs p th) (map snd (sort_key fst (prof_functions p)))"
  have r: "\<And>f. (case graph_function ft evs p th f of
            Inl e \<Rightarrow> e = KeyError \<and> list_ex (\<lambda>c. map_of (prof_functions p) (call_callee_id c) = None) (map snd (fn_calls f))
          | Inr t \<Rightarrow> list_all (\<lambda>c. map_of (prof_functions p) (call_callee_id c) \<noteq> None) (map snd (fn_calls f)))"
    using graph_function_result[OF assms] by blast
  have err: "\<And>x e. graph_function ft evs p th x = Inl e \<Longrightarrow> e = KeyError"
    using r by (fastforce split: sum.splits)
  have isl_f: "isl (graph_function ft evs p th f) \<longleftrightarrow>
      \<not> list_all (\<lambda>c. map_of (prof_functions p) (call_callee_id c) \<noteq> None) (map snd (fn_calls f))" for f
    using r[of f] by (auto split: sum.splits simp add: list_ex_iff list_all_iff)
  have "isl ?F \<longleftrightarrow> \<not> calls_closed p"
    by (simp add: py_map_all_isl isl_f list_ex_iff calls_closed_def list_all_iff)
  then show "isl (dot_graph ft evs p th) \<longleftrightarrow> \<not> calls_closed p"
    by (cases ?F) (auto simp add: dot_graph_def)
  show "dot_graph ft evs p th = Inl e \<Longrightarrow> e = KeyError" using py_map_all_error[OF err]
    by (cases ?F) (auto simp add: dot_graph_def)
qed

text \<open>C15 (dot_graph_errors). Under a theme with non-negative gamma and skew, writing the
  graph raises only \<open>KeyError\<close>, and exactly when some call names a callee that is not a
  function of the profile.\<close>

theorem dot_graph_errors:
  assumes "0 \<le> th_gamma th" "0 \<le> th_skew th"
  shows "(case dot_graph ft evs p th of Inl e \<Rightarrow> e = KeyError \<and> \<not> calls_closed p | Inr t \<Rightarrow> calls_closed p)"
  using dot_graph_closed[OF assms, of ft evs p] by (cases "dot_graph ft evs p th") auto

lemma dot_graph_errors_witness:
  "0 \<le> th_gamma TEMPERATURE_COLORMAP \<and> 0 \<le> th_skew TEMPERATURE_COLORMAP \<and>
   \<not> calls_closed ex_dangling \<and>
   dot_graph \<lparr>ft_f2 = \<lambda>x. ''0.00'', ft_str = \<lambda>x. ''0.0''\<rparr> default_function_events ex_dangling TEMPERATURE_COLORMAP
     = Inl KeyError \<and>
   calls_closed ex_closed \<and>
   (\<exists>t. dot_graph \<lparr>ft_f2 = \<lambda>x. ''0.00'', ft_str = \<lambda>x. ''0.0''\<rparr> default_function_events ex_closed TEMPERATURE_COLORMAP = Inr t)"
proof -
  have h: "0 \<le> th_gamma TEMPERATURE_COLORMAP" "0 \<le> th_skew TEMPERATURE_COLORMAP"
    by (simp_all add: TEMPERATURE_COLORMAP_def default_theme_def)
  have d: "\<not> calls_closed ex_dangling" and c: "calls_closed ex_closed"
    by (simp_all add: calls_closed_def ex_dangling_def ex_closed_def new_profile_def new_function_def new_call_def)
  note e = dot_graph_errors[OF h, where ft="\<lparr>ft_f2 = \<lambda>x. ''0.00'', ft_str = \<lambda>x. ''0.0''\<rparr>" and evs=default_function_events]
  show ?thesis using h d c e[of ex_dangling] e[of ex_closed] by (auto split: sum.splits)
qed

end
