(* ===== verification/G2D_Prune.thy ===== *)
theory G2D_Prune
  imports G2D_Dot
begin

text \<open>\<open>Profile.prune\<close> of \<^verbatim>\<open>src/gprof2dot.py\<close> (lines 818--906): the weights that decide
  what is pruned, then the pruning of nodes below the node threshold, of functions outside
  the given file paths, of edges below the edge threshold or to pruned functions, and the
  self weights used for colouring.  The argument \<open>color_nodes_by_selftime\<close> is unused by
  the code (its block is commented out) and is left out.\<close>

text \<open>The prune ratios: a function's weight is its total time ratio when it has one; a
  call's weight is its own total time ratio, else the smaller of its caller's and callee's
  when both have one.  Looking up the callee raises \<open>KeyError\<close> when it is not a function.\<close>

definition prune_call_weight :: "g_profile \<Rightarrow> g_function \<Rightarrow> g_call \<Rightarrow> py_error + g_call" where
  "prune_call_weight p f c =
     (case map_of (prof_functions p) (call_callee_id c) of
        None \<Rightarrow> Inl KeyError
      | Some callee \<Rightarrow>
          Inr (case call_events c TOTAL_TIME_RATIO of
                 Some w \<Rightarrow> c\<lparr>call_weight := Some w\<rparr>
               | None \<Rightarrow>
                   (case (fn_events f TOTAL_TIME_RATIO, fn_events callee TOTAL_TIME_RATIO) of
                      (Some a, Some b) \<Rightarrow> c\<lparr>call_weight := Some (min a b)\<rparr>
                    | _ \<Rightarrow> c)))"

definition prune_weights_function :: "g_profile \<Rightarrow> string \<times> g_function \<Rightarrow> py_error + string \<times> g_function" where
  "prune_weights_function p kf =
     (case kf of (k, f) \<Rightarrow>
        py_then (py_map_all (\<lambda>(ck, c). py_then (prune_call_weight p f c) (\<lambda>c'. Inr (ck, c'))) (fn_calls f))
          (\<lambda>calls. Inr (k, f\<lparr>fn_weight := (case fn_events f TOTAL_TIME_RATIO of Some w \<Rightarrow> Some w
                                           | None \<Rightarrow> fn_weight f),
                             fn_calls := calls\<rparr>)))"

definition weight_kept :: "real \<Rightarrow> real option \<Rightarrow> bool" where
  "weight_kept thres w = (case w of Some x \<Rightarrow> \<not> x < thres | None \<Rightarrow> True)"

definition prune_nodes :: "real \<Rightarrow> (string \<times> g_function) list \<Rightarrow> (string \<times> g_function) list" where
  "prune_nodes node_thres fns = filter (\<lambda>(k, f). weight_kept node_thres (fn_weight f)) fns"

text \<open>A function is dropped by the paths when there are paths and its file name is
  non-empty and starts with none of them, or else when its module is non-empty and
  contains none of them (\<open>module.find(path) > -1\<close>).\<close>

definition path_dropped :: "string list \<Rightarrow> g_function \<Rightarrow> bool" where
  "path_dropped paths f =
     (if paths \<noteq> [] \<and> (case fn_filename f of Some fnm \<Rightarrow> fnm \<noteq> [] \<and> \<not> list_ex (\<lambda>pa. starts_with pa fnm) paths
                         | None \<Rightarrow> False) then True
      else if paths \<noteq> [] \<and> (case fn_module f of Some m \<Rightarrow> m \<noteq> [] \<and> \<not> list_ex (\<lambda>pa. py_contains m pa) paths
                              | None \<Rightarrow> False) then True
      else False)"

definition prune_paths :: "string list \<Rightarrow> (string \<times> g_function) list \<Rightarrow> (string \<times> g_function) list" where
  "prune_paths paths fns = filter (\<lambda>(k, f). \<not> path_dropped paths f) fns"

definition prune_edges :: "real \<Rightarrow> (string \<times> g_function) list \<Rightarrow> (string \<times> g_function) list" where
  "prune_edges edge_thres fns =
     map (\<lambda>(k, f). (k, f\<lparr>fn_calls := filter (\<lambda>(ck, c). map_of fns ck \<noteq> None \<and> weight_kept edge_thres (call_weight c))
                                         (fn_calls f)\<rparr>)) fns"

text \<open>The self weights: each function's time ratio over the largest time ratio (1 when no
  function has one); a zero maximum raises \<open>ZeroDivisionError\<close>, which is caught.\<close>

definition max_time_ratio :: "(string \<times> g_function) list \<Rightarrow> real" where
  "max_time_ratio fns =
     (let weights = List.map_filter (\<lambda>(k, f). fn_events f TIME_RATIO) fns
      in if weights = [] then 1 else Max (set weights))"

definition set_self_weight :: "real \<Rightarrow> string \<times> g_function \<Rightarrow> string \<times> g_function" where
  "set_self_weight max_ratio kf =
     (case kf of (k, f) \<Rightarrow>
        (case fn_events f TIME_RATIO of
           Some v \<Rightarrow> if max_ratio = 0 then (k, f) else (k, f\<lparr>fn_self_weight := Some (v / max_ratio)\<rparr>)
         | None \<Rightarrow> (k, f)))"

definition prune :: "g_profile \<Rightarrow> real \<Rightarrow> real \<Rightarrow> string list \<Rightarrow> py_error + g_profile" where
  "prune p node_thres edge_thres paths =
     py_then (py_map_all (prune_weights_function p) (prof_functions p)) (\<lambda>fns1.
       let fns2 = prune_nodes node_thres fns1;
           fns3 = prune_paths paths fns2;
           fns4 = prune_edges edge_thres fns3;
           max_ratio = max_time_ratio fns4
       in Inr (p\<lparr>prof_functions := map (set_self_weight max_ratio) fns4\<rparr>))"

definition calls_keyed :: "g_profile \<Rightarrow> bool" where
  "calls_keyed p = list_all (\<lambda>f. list_all (\<lambda>(ck, c). ck = call_callee_id c) (fn_calls f)) (map snd (prof_functions p))"

text \<open>A profile in which \<open>main\<close> calls \<open>a\<close> and \<open>b\<close> and \<open>a\<close> calls \<open>b\<close>, where \<open>b\<close> has
  a total time ratio of 0.3 percent.\<close>

definition ex_prune_profile :: g_profile where
  "ex_prune_profile = new_profile\<lparr>prof_functions :=
     [(''main'', (new_function ''main'' ''main'')\<lparr>fn_events := [TOTAL_TIME_RATIO \<mapsto> 1, TIME_RATIO \<mapsto> 1/5],
         fn_calls := [(''a'', (new_call ''a'')\<lparr>call_events := [TOTAL_TIME_RATIO \<mapsto> 7/10]\<rparr>), (''b'', new_call ''b'')]\<rparr>),
      (''a'', (new_function ''a'' ''a'')\<lparr>fn_events := [TOTAL_TIME_RATIO \<mapsto> 7/10, TIME_RATIO \<mapsto> 7/10],
         fn_calls := [(''b'', (new_call ''b'')\<lparr>call_events := [TOTAL_TIME_RATIO \<mapsto> 1/500]\<rparr>)]\<rparr>),
      (''b'', (new_function ''b'' ''b'')\<lparr>fn_events := [TOTAL_TIME_RATIO \<mapsto> 3/1000, TIME_RATIO \<mapsto> 1/10]\<rparr>)]\<rparr>"

section \<open>What pruning leaves\<close>

lemma prune_call_weight_callee:
  "prune_call_weight p f c = Inr c' \<Longrightarrow> call_callee_id c = call_callee_id c'"
  by (auto simp add: prune_call_weight_def split: option.splits prod.splits)

lemma prune_weights_function_keyed:
  assumes "prune_weights_function p (k, f) = Inr (k', f')"
    and "list_all (\<lambda>(ck, c). ck = call_callee_id c) (fn_calls f)"
  shows "k' = k \<and> list_all (\<lambda>(ck, c). ck = call_callee_id c) (fn_calls f')"
proof -
  obtain calls where m: "py_map_all (\<lambda>(ck, c). py_then (prune_call_weight p f c) (\<lambda>c'. Inr (ck, c'))) (fn_calls f) = Inr calls"
    and r: "k' = k" "fn_calls f' = calls"
    using assms(1) by (auto simp add: prune_weights_function_def py_then_def split: sum.splits)
  have "list_all (\<lambda>(ck, c). ck = call_callee_id c) calls"
    by (rule py_map_all_Inr_all[OF m assms(2)])
       (auto simp add: py_then_def split: sum.splits dest: prune_call_weight_callee)
  then show ?thesis using r by simp
qed

lemma prune_Inr:
  assumes "prune p nt et paths = Inr p'"
  obtains fns1 where "py_map_all (prune_weights_function p) (prof_functions p) = Inr fns1"
    "prof_functions p' = map (set_self_weight (max_time_ratio (prune_edges et (prune_paths paths (prune_nodes nt fns1)))))
                           (prune_edges et (prune_paths paths (prune_nodes nt fns1)))"
  using assms by (cases "py_map_all (prune_weights_function p) (prof_functions p)")
                 (auto simp add: prune_def Let_def)

lemma fst_set_self_weight [simp]: "fst (set_self_weight m kf) = fst kf"
  by (auto simp add: set_self_weight_def split: prod.splits option.splits)

lemma fn_calls_set_self_weight [simp]: "fn_calls (snd (set_self_weight m kf)) = fn_calls (snd kf)"
  by (auto simp add: set_self_weight_def split: prod.splits option.splits)

lemma fn_weight_set_self_weight [simp]: "fn_weight (snd (set_self_weight m kf)) = fn_weight (snd kf)"
  by (auto simp add: set_self_weight_def split: prod.splits option.splits)

lemma keys_prune_edges [simp]: "map fst (prune_edges et fns) = map fst fns"
  by (induction fns) (auto simp add: prune_edges_def)

lemma fst_comp_set_self_weight [simp]: "fst \<circ> set_self_weight m = fst"
  by (rule ext) simp

lemma prune_edges_calls:
  "(k, f) \<in> set (prune_edges et fns) \<Longrightarrow> (ck, c) \<in> set (fn_calls f) \<Longrightarrow>
   ck \<in> fst ` set fns \<and> weight_kept et (call_weight c)"
  by (auto simp add: prune_edges_def map_of_eq_None_iff)

lemma prune_edges_member:
  "(k, f) \<in> set (prune_edges et fns) \<Longrightarrow>
   \<exists>f0. (k, f0) \<in> set fns \<and> fn_weight f = fn_weight f0 \<and> set (fn_calls f) \<subseteq> set (fn_calls f0)"
  by (auto simp add: prune_edges_def)

lemma set_self_weight_member:
  "(k, f) \<in> set (map (set_self_weight m) fns) \<Longrightarrow>
   \<exists>f0. (k, f0) \<in> set fns \<and> fn_weight f = fn_weight f0 \<and> fn_calls f = fn_calls f0"
  by (auto simp add: set_self_weight_def split: option.splits if_splits)

lemma prune_weights_keyed_all:
  assumes "py_map_all (prune_weights_function p) (prof_functions p) = Inr fns1" "calls_keyed p"
  shows "\<forall>(k, f) \<in> set fns1. \<forall>(ck, c) \<in> set (fn_calls f). ck = call_callee_id c"
proof -
  have "list_all (\<lambda>(k, f). list_all (\<lambda>(ck, c). ck = call_callee_id c) (fn_calls f)) fns1"
  proof (rule py_map_all_Inr_all[OF assms(1)])
    show "list_all (\<lambda>(k, f). list_all (\<lambda>(ck, c). ck = call_callee_id c) (fn_calls f)) (prof_functions p)"
      using assms(2) unfolding calls_keyed_def list_all_iff by fastforce
  next
    fix x y assume "prune_weights_function p x = Inr y"
      "(case x of (k, f) \<Rightarrow> list_all (\<lambda>(ck, c). ck = call_callee_id c) (fn_calls f))"
    then show "(case y of (k, f) \<Rightarrow> list_all (\<lambda>(ck, c). ck = call_callee_id c) (fn_calls f))"
      using prune_weights_function_keyed by (cases x, cases y) blast
  qed
  then show ?thesis by (auto simp add: list_all_iff)
qed

lemma prune_members:
  assumes "calls_keyed p" "prune p nt et paths = Inr p'"
  shows "\<forall>(k, f) \<in> set (prof_functions p'). weight_kept nt (fn_weight f) \<and>
           (\<forall>(ck, c) \<in> set (fn_calls f). ck = call_callee_id c \<and> ck \<in> fst ` set (prof_functions p')
                                         \<and> weight_kept et (call_weight c))"
proof -
  obtain fns1 where m: "py_map_all (prune_weights_function p) (prof_functions p) = Inr fns1"
    and fp: "prof_functions p' = map (set_self_weight (max_time_ratio (prune_edges et (prune_paths paths (prune_nodes nt fns1)))))
                           (prune_edges et (prune_paths paths (prune_nodes nt fns1)))"
    using prune_Inr[OF assms(2)] by blast
  define fns3 where "fns3 = prune_paths paths (prune_nodes nt fns1)"
  have keyed1: "\<forall>(k, f) \<in> set fns1. \<forall>(ck, c) \<in> set (fn_calls f). ck = call_callee_id c"
    using prune_weights_keyed_all[OF m assms(1)] .
  have sub3: "set fns3 \<subseteq> set fns1" by (auto simp add: fns3_def prune_paths_def prune_nodes_def)
  have w3: "\<forall>(k, f) \<in> set fns3. weight_kept nt (fn_weight f)"
    by (auto simp add: fns3_def prune_paths_def prune_nodes_def)
  have keys: "fst ` set (prof_functions p') = fst ` set fns3"
  proof -
    have "map fst (prof_functions p') = map fst fns3" by (simp add: fp fns3_def)
    then show ?thesis by (metis list.set_map)
  qed
  have mem: "\<exists>f0. (k, f0) \<in> set fns3 \<and> fn_weight f = fn_weight f0 \<and> set (fn_calls f) \<subseteq> set (fn_calls f0)
                 \<and> (\<forall>(ck, c) \<in> set (fn_calls f). ck \<in> fst ` set fns3 \<and> weight_kept et (call_weight c))"
    if "(k, f) \<in> set (prof_functions p')" for k f
  proof -
    have "(k, f) \<in> set (map (set_self_weight (max_time_ratio (prune_edges et fns3))) (prune_edges et fns3))"
      using that by (simp only: fp fns3_def)
    then obtain f1 where f1: "(k, f1) \<in> set (prune_edges et fns3)" "fn_weight f = fn_weight f1" "fn_calls f = fn_calls f1"
      using set_self_weight_member by blast
    then show ?thesis using prune_edges_member[OF f1(1)] prune_edges_calls[OF f1(1)] by fastforce
  qed
  show ?thesis using mem keyed1 sub3 w3 keys by fastforce
qed

text \<open>C10 (prune_invariant). When every call is stored under its callee's id, a successful
  prune leaves a profile whose calls are still so stored and all lead to functions of the
  profile, whose functions all weigh at least the node threshold and whose calls all
  weigh at least the edge threshold (where they have a weight).\<close>

theorem prune_invariant:
  assumes "calls_keyed p" "prune p nt et paths = Inr p'"
  shows "calls_keyed p' \<and> calls_closed p' \<and>
         list_all (\<lambda>f. weight_kept nt (fn_weight f) \<and> list_all (\<lambda>c. weight_kept et (call_weight c)) (map snd (fn_calls f)))
           (map snd (prof_functions p'))"
  using prune_members[OF assms]
  by (fastforce simp add: calls_keyed_def calls_closed_def list_all_iff map_of_eq_None_iff)

lemma prune_invariant_witness:
  "calls_keyed ex_prune_profile \<and>
   (\<exists>p'. prune ex_prune_profile (1/200) (1/1000) [] = Inr p' \<and>
         map fst (prof_functions p') = [''main'', ''a''] \<and>
         map (\<lambda>(k, f). map fst (fn_calls f)) (prof_functions p') = [[''a''], []] \<and>
         calls_keyed p' \<and> calls_closed p' \<and>
         list_all (\<lambda>f. weight_kept (1/200) (fn_weight f) \<and>
                       list_all (\<lambda>c. weight_kept (1/1000) (call_weight c)) (map snd (fn_calls f)))
           (map snd (prof_functions p')))"
proof -
  have k: "calls_keyed ex_prune_profile"
    by (simp add: calls_keyed_def ex_prune_profile_def new_profile_def new_function_def new_call_def)
  have "case prune ex_prune_profile (1/200) (1/1000) [] of
          Inr p' \<Rightarrow> map fst (prof_functions p') = [''main'', ''a''] \<and>
                    map (\<lambda>(k, f). map fst (fn_calls f)) (prof_functions p') = [[''a''], []]
        | Inl e \<Rightarrow> False"
    by code_simp
  then obtain p' where r: "prune ex_prune_profile (1/200) (1/1000) [] = Inr p'"
    and shape: "map fst (prof_functions p') = [''main'', ''a'']"
               "map (\<lambda>(k, f). map fst (fn_calls f)) (prof_functions p') = [[''a''], []]"
    by (auto split: sum.splits)
  show ?thesis using k r shape prune_invariant[OF k r] by (intro conjI exI[where x=p']) simp_all
qed

section \<open>Errors of pruning\<close>

lemma prune_closed:
  shows "isl (prune p nt et paths) \<longleftrightarrow> \<not> calls_closed p"
    and "prune p nt et paths = Inl e \<Longrightarrow> e = KeyError"
proof -
  let ?F = "py_map_all (prune_weights_function p) (prof_functions p)"
  have isl_c: "isl (prune_call_weight p f c) \<longleftrightarrow> map_of (prof_functions p) (call_callee_id c) = None" for f c
    by (simp add: prune_call_weight_def split: option.split)
  have err_c: "prune_call_weight p f c = Inl e \<Longrightarrow> e = KeyError" for f c e
    by (simp add: prune_call_weight_def split: option.splits)
  have isl_pair: "isl ((\<lambda>(ck, c). py_then (prune_call_weight p f c) (\<lambda>c'. Inr (ck, c'))) x) \<longleftrightarrow>
      map_of (prof_functions p) (call_callee_id (snd x)) = None" for f x
    by (cases x) (simp add: isl_py_then_Inr isl_c)
  have isl_w: "isl (prune_weights_function p kf) \<longleftrightarrow>
      \<not> list_all (\<lambda>c. map_of (prof_functions p) (call_callee_id c) \<noteq> None) (map snd (fn_calls (snd kf)))" for kf
    by (cases kf) (simp add: prune_weights_function_def isl_py_then_Inr py_map_all_isl isl_pair list_ex_iff list_all_iff)
  have err_w: "prune_weights_function p kf = Inl e \<Longrightarrow> e = KeyError" for kf e
  proof -
    have "\<And>x e. (case x of (ck, c) \<Rightarrow> py_then (prune_call_weight p (snd kf) c) (\<lambda>c'. Inr (ck, c'))) = Inl e \<Longrightarrow> e = KeyError"
      using err_c by (auto simp add: py_then_def split: sum.splits prod.splits)
    then show "prune_weights_function p kf = Inl e \<Longrightarrow> e = KeyError"
      using py_map_all_error by (cases kf) (fastforce simp add: prune_weights_function_def py_then_def split: sum.splits)
  qed
  have "isl ?F \<longleftrightarrow> \<not> calls_closed p"
    by (simp add: py_map_all_isl isl_w list_ex_iff calls_closed_def list_all_iff)
  then show "isl (prune p nt et paths) \<longleftrightarrow> \<not> calls_closed p"
    by (cases ?F) (auto simp add: prune_def Let_def)
  show "prune p nt et paths = Inl e \<Longrightarrow> e = KeyError" using py_map_all_error[OF err_w]
    by (cases ?F) (auto simp add: prune_def Let_def)
qed

text \<open>C11 (prune_errors). \<open>Profile.prune\<close> raises only \<open>KeyError\<close>, and exactly when some
  call names a callee that is not a function of the profile.\<close>

theorem prune_errors:
  "(case prune p nt et paths of Inl e \<Rightarrow> e = KeyError \<and> \<not> calls_closed p | Inr p' \<Rightarrow> calls_closed p)"
  using prune_closed[of p nt et paths] by (cases "prune p nt et paths") auto

text \<open>The end of \<open>main\<close>: on a profile whose calls are stored under
  their callee and lead to its functions (what \<open>validate\<close> leaves), pruning succeeds and
  writing the pruned graph under a theme with non-negative gamma and skew raises nothing.\<close>

theorem prune_then_graph:
  assumes "calls_keyed p" "calls_closed p" "0 \<le> th_gamma th" "0 \<le> th_skew th"
  shows "\<exists>p' t. prune p nt et paths = Inr p' \<and> dot_graph ft evs p' th = Inr t"
proof -
  obtain p' where p': "prune p nt et paths = Inr p'"
    using prune_closed(1)[of p nt et paths] assms(2) by (cases "prune p nt et paths") auto
  have "calls_closed p'"
    using prune_members[OF assms(1) p']
    by (fastforce simp add: calls_closed_def list_all_iff map_of_eq_None_iff)
  then obtain t where "dot_graph ft evs p' th = Inr t"
    using dot_graph_closed(1)[OF assms(3,4), of ft evs p'] by (cases "dot_graph ft evs p' th") auto
  then show ?thesis using p' by blast
qed

lemma prune_then_graph_witness:
  "calls_keyed new_profile \<and> calls_closed new_profile \<and> 0 \<le> th_gamma TEMPERATURE_COLORMAP
   \<and> 0 \<le> th_skew TEMPERATURE_COLORMAP \<and>
   (\<exists>p' t. prune new_profile 0 0 [] = Inr p' \<and> dot_graph \<lparr>ft_f2 = \<lambda>x. ''0.00'', ft_str = \<lambda>x. ''0.0''\<rparr> default_function_events p' TEMPERATURE_COLORMAP = Inr t)"
proof -
  have h: "calls_keyed new_profile" "calls_closed new_profile" "0 \<le> th_gamma TEMPERATURE_COLORMAP"
    "0 \<le> th_skew TEMPERATURE_COLORMAP"
    by (simp_all add: calls_keyed_def calls_closed_def new_profile_def TEMPERATURE_COLORMAP_def default_theme_def)
  show ?thesis using prune_then_graph[OF h, where nt=0 and et=0 and paths="[]" and ft="\<lparr>ft_f2 = \<lambda>x. ''0.00'', ft_str = \<lambda>x. ''0.0''\<rparr>" and evs=default_function_events] h
    by blast
qed

end
