(* ===== verification/G2D_Shape.thy ===== *)
theory G2D_Shape
  imports G2D_Perf G2D_Prune
begin

text \<open>The shape of a profile's call graph (each function's id and, for each of its calls,
  the key it is stored under and its callee id) and what the \<open>perf\<close> parser guarantees of
  it: the parse keeps the calls of a function under distinct keys, \<open>Profile.validate\<close>
  (lines 342--353) then leaves every call keyed by its callee and leading to a function,
  and the passes that derive data (\<open>find_cycles\<close>, \<open>ratio\<close>, \<open>call_ratios\<close>) only change
  events, cycles and ratios, so they keep the shape.\<close>

definition graph_shape :: "g_profile \<Rightarrow> (string \<times> string \<times> (string \<times> string) list) list" where
  "graph_shape p =
     map (\<lambda>(k, f). (k, fn_id f, map (\<lambda>(ck, c). (ck, call_callee_id c)) (fn_calls f))) (prof_functions p)"

text \<open>The association lists of the model stand for Python dicts: the functions are stored
  under distinct keys, each under its own id, and each function's calls under distinct
  keys.\<close>

definition dict_wf :: "g_profile \<Rightarrow> bool" where
  "dict_wf p =
     (distinct (map fst (prof_functions p)) \<and>
      list_all (\<lambda>(k, f). fn_id f = k \<and> distinct (map fst (fn_calls f))) (prof_functions p))"

section \<open>Keyed and closed calls depend only on the shape\<close>

lemma fst_graph_shape: "map fst (graph_shape p) = map fst (prof_functions p)"
  by (simp add: graph_shape_def case_prod_beta)

lemma calls_keyed_shape:
  "calls_keyed p \<longleftrightarrow> list_all (\<lambda>(k, i, cs). list_all (\<lambda>(ck, c). ck = c) cs) (graph_shape p)"
  by (simp add: calls_keyed_def graph_shape_def list_all_iff case_prod_beta)

lemma calls_closed_shape:
  "calls_closed p \<longleftrightarrow> list_all (\<lambda>(k, i, cs). list_all (\<lambda>(ck, c). c \<in> set (map fst (graph_shape p))) cs) (graph_shape p)"
  unfolding fst_graph_shape
  by (simp add: calls_closed_def graph_shape_def list_all_iff case_prod_beta map_of_eq_None_iff image_iff)

lemma dict_wf_shape:
  "dict_wf p \<longleftrightarrow> distinct (map fst (graph_shape p)) \<and>
                 list_all (\<lambda>(k, i, cs). i = k \<and> distinct (map fst cs)) (graph_shape p)"
  unfolding fst_graph_shape
  by (simp add: dict_wf_def graph_shape_def list_all_iff case_prod_beta comp_def)

lemma shape_dict_wf: "graph_shape p' = graph_shape p \<Longrightarrow> dict_wf p' = dict_wf p"
  by (simp add: dict_wf_shape)

lemma shape_keyed_closed:
  "graph_shape p' = graph_shape p \<Longrightarrow> calls_keyed p' = calls_keyed p \<and> calls_closed p' = calls_closed p"
  by (simp add: calls_keyed_shape calls_closed_shape)

section \<open>Passes that keep the shape\<close>

lemma list_all2_map_eq:
  "list_all2 P xs ys \<Longrightarrow> (\<forall>x y. P x y \<longrightarrow> g y = g x) \<Longrightarrow> map g ys = map g xs"
  by (induction rule: list_all2_induct) auto

lemma list_all2_in_set2: "list_all2 P xs ys \<Longrightarrow> y \<in> set ys \<Longrightarrow> \<exists>x\<in>set xs. P x y"
  by (induction rule: list_all2_induct) auto

lemma py_map_all_map_eq:
  "py_map_all f xs = Inr ys \<Longrightarrow> (\<forall>x y. f x = Inr y \<longrightarrow> g y = g x) \<Longrightarrow> map g ys = map g xs"
  by (rule list_all2_map_eq[OF py_map_all_Inr_D])

abbreviation call_shape :: "(string \<times> g_call) list \<Rightarrow> (string \<times> string) list" where
  "call_shape cs \<equiv> map (\<lambda>(ck, c). (ck, call_callee_id c)) cs"

abbreviation fn_shape :: "string \<times> g_function \<Rightarrow> string \<times> string \<times> (string \<times> string) list" where
  "fn_shape kf \<equiv> (fst kf, fn_id (snd kf), call_shape (fn_calls (snd kf)))"

lemma graph_shape_fn_shape: "graph_shape p = map fn_shape (prof_functions p)"
  by (simp add: graph_shape_def case_prod_beta)

lemma graph_shape_functions:
  "py_map_all f (prof_functions p) = Inr fns \<Longrightarrow> (\<forall>x y. f x = Inr y \<longrightarrow> fn_shape y = fn_shape x) \<Longrightarrow>
   graph_shape (p\<lparr>prof_functions := fns, prof_events := ev\<rparr>) = graph_shape p"
  "py_map_all f (prof_functions p) = Inr fns \<Longrightarrow> (\<forall>x y. f x = Inr y \<longrightarrow> fn_shape y = fn_shape x) \<Longrightarrow>
   graph_shape (p\<lparr>prof_functions := fns\<rparr>) = graph_shape p"
  by (simp_all add: graph_shape_fn_shape py_map_all_map_eq)

lemma find_cycles_shape: "find_cycles p = Some (Inr p') \<Longrightarrow> graph_shape p' = graph_shape p"
  unfolding find_cycles_def
  by (cases "tarjan_all (prof_functions p) (map snd (prof_functions p)) (tj_init p)")
     (auto simp add: graph_shape_fn_shape Let_def split: sum.splits)

lemma ratio_calls_shape: "ratio_calls oe ie tot cs = Inr cs' \<Longrightarrow> call_shape cs' = call_shape cs"
  by (induction oe ie tot cs arbitrary: cs' rule: ratio_calls.induct)
     (auto simp add: Let_def py_then_def split: if_splits sum.splits option.splits)

lemma profile_ratio_shape: "profile_ratio p oe ie = Inr p' \<Longrightarrow> graph_shape p' = graph_shape p"
proof -
  assume a: "profile_ratio p oe ie = Inr p'"
  have "\<forall>x y. ratio_function oe ie tot x = Inr y \<longrightarrow> fn_shape y = fn_shape x" for tot
    by (auto simp add: ratio_function_def py_then_def dest: ratio_calls_shape split: if_splits option.splits sum.splits)
  then show ?thesis using a
    by (auto simp add: profile_ratio_def py_then_def graph_shape_functions split: if_splits option.splits sum.splits)
qed

lemma call_ratios_pass2_shape:
  "call_ratios_pass2 p e tot f cs = Inr cs' \<Longrightarrow> call_shape cs' = call_shape cs"
  by (induction p e tot f cs arbitrary: cs' rule: call_ratios_pass2.induct)
     (auto simp add: Let_def py_then_def split: if_splits sum.splits option.splits)

lemma call_ratios_shape: "call_ratios p e = Inr p' \<Longrightarrow> graph_shape p' = graph_shape p"
proof -
  assume a: "call_ratios p e = Inr p'"
  obtain tot fns where t: "py_map_all (\<lambda>(k, f). py_then (call_ratios_pass2 p e tot f (fn_calls f))
                                                   (\<lambda>calls. Inr (k, f\<lparr>fn_calls := calls\<rparr>))) (prof_functions p) = Inr fns"
    and p': "p' = p\<lparr>prof_functions := fns\<rparr>"
    using a by (auto simp add: call_ratios_def Let_def py_then_def split: sum.splits)
  have "\<forall>x y. (\<lambda>(k, f). py_then (call_ratios_pass2 p e tot f (fn_calls f)) (\<lambda>calls. Inr (k, f\<lparr>fn_calls := calls\<rparr>))) x = Inr y
            \<longrightarrow> fn_shape y = fn_shape x"
    by (auto simp add: py_then_def dest: call_ratios_pass2_shape split: sum.splits)
  then show ?thesis using graph_shape_functions(2)[OF t] p' by simp
qed

section \<open>The parser keeps the dicts well formed\<close>

lemma list_all_update:
  "list_all Q al \<Longrightarrow> Q (k, v) \<Longrightarrow> list_all Q (AList.update k v al)"
  by (induction al) auto

lemma list_all_map_entry:
  "list_all Q al \<Longrightarrow> (\<forall>v. Q (k, v) \<longrightarrow> Q (k, g v)) \<Longrightarrow> list_all Q (AList.map_entry k g al)"
  by (induction al) auto

lemma map_fst_map_entry: "map fst (AList.map_entry k g al) = map fst al"
  by (induction al) auto

lemma dict_wf_fn_update:
  "dict_wf p \<Longrightarrow> (\<forall>f. distinct (map fst (fn_calls f)) \<longrightarrow> distinct (map fst (fn_calls (g f)))) \<Longrightarrow>
   (\<forall>f. fn_id (g f) = fn_id f) \<Longrightarrow> dict_wf (fn_update p fid g)"
  by (simp add: dict_wf_def fn_update_def map_fst_map_entry list_all_map_entry)

lemma dict_wf_events [simp]:
  "dict_wf (p\<lparr>prof_events := ev\<rparr>) = dict_wf p"
  by (simp add: dict_wf_def)

lemma dict_wf_fn_incr: "fn_incr p fid e = Inr p' \<Longrightarrow> dict_wf p \<Longrightarrow> dict_wf p'"
  by (auto simp add: fn_incr_def py_then_def intro!: dict_wf_fn_update split: option.splits sum.splits)

lemma dict_wf_incr_all: "incr_all p fids e = Inr p' \<Longrightarrow> dict_wf p \<Longrightarrow> dict_wf p'"
  by (induction p fids e rule: incr_all.induct) (auto simp add: py_then_def dest: dict_wf_fn_incr split: sum.splits)

lemma dict_wf_add_chain_calls:
  "add_chain_calls p callee callers = Inr p' \<Longrightarrow> dict_wf p \<Longrightarrow> dict_wf p'"
proof (induction p callee callers rule: add_chain_calls.induct)
  case (1 p callee_id)
  then show ?case by simp
next
  case (2 p callee_id caller callers)
  have u: "dict_wf (fn_update p caller (\<lambda>f. f\<lparr>fn_calls := AList.update k c (fn_calls f)\<rparr>))" for k c
    using 2(4) by (auto intro!: dict_wf_fn_update simp add: distinct_update)
  show ?case using 2(3) u 2(1,2)
    by (auto simp add: py_then_def add_call_def split: option.splits sum.splits)
qed

lemma dict_wf_record_callchain:
  "record_callchain p cc = Inr p' \<Longrightarrow> dict_wf p \<Longrightarrow> dict_wf p'"
  by (auto simp add: record_callchain_def py_then_def Let_def split: sum.splits
           dest!: dict_wf_fn_incr dict_wf_add_chain_calls dict_wf_incr_all)

lemma dict_wf_perf_parse_call:
  "perf_parse_call st = Inr (fid, st') \<Longrightarrow> dict_wf (lp_prof st) \<Longrightarrow> dict_wf (lp_prof st')"
  by (auto simp add: perf_parse_call_def lp_consume_def Let_def add_function_def dict_wf_def
                     new_function_def list_all_update distinct_update split: option.splits prod.splits)

lemma dict_wf_perf_callchain:
  "perf_callchain st cc = Inr (cc', st') \<Longrightarrow> dict_wf (lp_prof st) \<Longrightarrow> dict_wf (lp_prof st')"
proof (induction st cc rule: perf_callchain.induct)
  case (1 st callchain)
  show ?case
  proof (cases "lp_line st \<noteq> []")
    case True
    then obtain fid st1 where c: "perf_parse_call st = Inr (fid, st1)"
      and r: "perf_callchain st1 (callchain @ [fid]) = Inr (cc', st')"
      using 1(2) by (subst (asm) perf_callchain.simps) (auto split: sum.splits)
    show ?thesis using 1(1)[OF True c refl r] dict_wf_perf_parse_call[OF c 1(3)] .
  next
    case False
    then have "st' = perf_readline st"
      using 1(2) by (subst (asm) perf_callchain.simps) (simp add: lp_consume_def)
    then show ?thesis using 1(3) by simp
  qed
qed

lemma dict_wf_perf_parse_event:
  "perf_parse_event st = Inr st' \<Longrightarrow> dict_wf (lp_prof st) \<Longrightarrow> dict_wf (lp_prof st')"
proof (cases "lp_eof st")
  case False
  assume a: "perf_parse_event st = Inr st'" "dict_wf (lp_prof st)"
  then obtain cc st1 where c: "perf_callchain (perf_readline st) [] = Inr (cc, st1)"
    and r: "st' = st1 \<or> (\<exists>p. record_callchain (lp_prof st1) cc = Inr p \<and> st' = st1\<lparr>lp_prof := p\<rparr>)"
    using False by (auto simp add: perf_parse_event_def lp_consume_def py_then_def split: if_splits sum.splits prod.splits)
  have "dict_wf (lp_prof st1)" using dict_wf_perf_callchain[OF c] a(2) by simp
  then show ?thesis using r dict_wf_record_callchain by auto
qed (simp add: perf_parse_event_def)

lemma dict_wf_perf_parse_events:
  "perf_parse_events st = Inr st' \<Longrightarrow> dict_wf (lp_prof st) \<Longrightarrow> dict_wf (lp_prof st')"
proof (induction st rule: perf_parse_events.induct)
  case (1 st)
  show ?case
  proof (cases "lp_eof st")
    case True
    then show ?thesis using 1(2,3) by (simp add: perf_parse_events.simps)
  next
    case False
    then obtain st1 where e: "perf_parse_event st = Inr st1" and r: "perf_parse_events st1 = Inr st'"
      using 1(2) by (subst (asm) perf_parse_events.simps) (auto split: sum.splits)
    show ?thesis using 1(1)[OF False e r] dict_wf_perf_parse_event[OF e 1(3)] .
  qed
qed

section \<open>What \<open>validate\<close> leaves\<close>

lemma validate_calls_ok:
  "validate_calls fns ks calls = Inr calls' \<Longrightarrow> distinct (map fst calls) \<Longrightarrow>
   set calls' \<subseteq> set calls \<and> distinct (map fst calls') \<and>
   (\<forall>(ck, c) \<in> set calls'. ck \<in> set ks \<longrightarrow> call_callee_id c = ck \<and> map_of fns ck \<noteq> None)"
proof (induction fns ks calls rule: validate_calls.induct)
  case (1 fns calls)
  then show ?case by simp
next
  case (2 fns k ks calls)
  obtain call where m: "map_of calls k = Some call" and ci: "call_callee_id call = k"
    using 2(3) by (auto split: option.splits if_splits)
  show ?case
  proof (cases "map_of fns k = None")
    case True
    then have r: "validate_calls fns ks (AList.delete k calls) = Inr calls'" using 2(3) m ci by simp
    have "set calls' \<subseteq> set (AList.delete k calls) \<and> distinct (map fst calls') \<and>
          (\<forall>(ck, c) \<in> set calls'. ck \<in> set ks \<longrightarrow> call_callee_id c = ck \<and> map_of fns ck \<noteq> None)"
      using 2(1)[OF m _ True r] 2(4) ci by (simp add: distinct_delete)
    then show ?thesis by (auto simp add: AList.delete_eq)
  next
    case False
    then have r: "validate_calls fns ks calls = Inr calls'" using 2(3) m ci False by simp
    have ih: "set calls' \<subseteq> set calls \<and> distinct (map fst calls') \<and>
          (\<forall>(ck, c) \<in> set calls'. ck \<in> set ks \<longrightarrow> call_callee_id c = ck \<and> map_of fns ck \<noteq> None)"
      using 2(2)[OF m _ False r] 2(4) ci by simp
    have "c = call" if "(k, c) \<in> set calls'" for c
      using ih that m map_of_is_SomeI[OF 2(4)] by fastforce
    then show ?thesis using ih ci False by auto
  qed
qed

lemma validate_wf:
  assumes "validate p = Inr p'" "dict_wf p"
  shows "dict_wf p' \<and> calls_keyed p' \<and> calls_closed p'"
proof -
  let ?f = "\<lambda>(k, f). py_then (validate_calls (prof_functions p) (map fst (fn_calls f)) (fn_calls f))
                         (\<lambda>calls. Inr (k, f\<lparr>fn_calls := calls\<rparr>))"
  obtain fns where m: "py_map_all ?f (prof_functions p) = Inr fns" and p': "p' = p\<lparr>prof_functions := fns\<rparr>"
    using assms(1) by (auto simp add: validate_def py_then_def split: sum.splits)
  have a2: "list_all2 (\<lambda>x y. ?f x = Inr y) (prof_functions p) fns" using py_map_all_Inr_D[OF m] .
  have "\<forall>x y. ?f x = Inr y \<longrightarrow> fst y = fst x"
    by (simp add: py_then_def split: prod.splits sum.splits)
  then have keys: "map fst fns = map fst (prof_functions p)" by (rule list_all2_map_eq[OF a2])
  have fg: "\<exists>f cs. (k, f) \<in> set (prof_functions p) \<and> fn_id f = k \<and> distinct (map fst (fn_calls f)) \<and>
                   validate_calls (prof_functions p) (map fst (fn_calls f)) (fn_calls f) = Inr cs \<and> g = f\<lparr>fn_calls := cs\<rparr>"
    if kg: "(k, g) \<in> set fns" for k g
  proof -
    obtain x where x: "x \<in> set (prof_functions p)" "?f x = Inr (k, g)" using list_all2_in_set2[OF a2 kg] by blast
    obtain k' f where xf: "x = (k', f)" by (cases x)
    obtain cs where v: "validate_calls (prof_functions p) (map fst (fn_calls f)) (fn_calls f) = Inr cs"
      and g: "g = f\<lparr>fn_calls := cs\<rparr>" and k: "k' = k"
      using x(2) unfolding xf by (cases "validate_calls (prof_functions p) (map fst (fn_calls f)) (fn_calls f)") auto
    have "fn_id f = k \<and> distinct (map fst (fn_calls f))"
      using assms(2) x(1) xf k unfolding dict_wf_def list_all_iff by fastforce
    then show ?thesis using x(1) xf k v g by blast
  qed
  have kc: "call_callee_id c = ck \<and> map_of (prof_functions p) ck \<noteq> None \<and> fn_id g = k \<and> distinct (map fst (fn_calls g))"
    if kg: "(k, g) \<in> set fns" and ckc: "(ck, c) \<in> set (fn_calls g)" for k g ck c
  proof -
    obtain f cs where f: "fn_id f = k" and d: "distinct (map fst (fn_calls f))"
      and v: "validate_calls (prof_functions p) (map fst (fn_calls f)) (fn_calls f) = Inr cs"
      and g: "g = f\<lparr>fn_calls := cs\<rparr>"
      using fg[OF kg] by blast
    have ok: "set cs \<subseteq> set (fn_calls f)" "distinct (map fst cs)"
      "\<forall>(ck, c) \<in> set cs. ck \<in> set (map fst (fn_calls f)) \<longrightarrow> call_callee_id c = ck \<and> map_of (prof_functions p) ck \<noteq> None"
      using validate_calls_ok[OF v d] by simp_all
    have "(ck, c) \<in> set cs" using ckc g by simp
    moreover then have "ck \<in> set (map fst (fn_calls f))" using ok(1) by force
    ultimately show ?thesis using ok(2,3) f g by auto
  qed
  have wf: "fn_id g = k \<and> distinct (map fst (fn_calls g))" if kg: "(k, g) \<in> set fns" for k g
  proof -
    obtain f cs where f: "fn_id f = k" and d: "distinct (map fst (fn_calls f))"
      and v: "validate_calls (prof_functions p) (map fst (fn_calls f)) (fn_calls f) = Inr cs"
      and g: "g = f\<lparr>fn_calls := cs\<rparr>"
      using fg[OF kg] by blast
    then show ?thesis using validate_calls_ok[OF v d] by simp
  qed
  have "distinct (map fst fns)" using keys assms(2) by (simp add: dict_wf_def)
  then have "dict_wf p'" unfolding p' dict_wf_def list_all_iff using wf by auto
  moreover have d: "fst ` set fns = fst ` set (prof_functions p)" using arg_cong[OF keys, of set] by simp
  have kc': "call_callee_id c = ck \<and> map_of (prof_functions p) ck \<noteq> None"
    if "g \<in> set (map snd fns)" "(ck, c) \<in> set (fn_calls g)" for g ck c
    using that kc by force
  have "calls_keyed p'" unfolding p' calls_keyed_def list_all_iff
    by auto (metis kc)
  moreover have "\<forall>g\<in>set (map snd fns). \<forall>c\<in>set (map snd (fn_calls g)). map_of fns (call_callee_id c) \<noteq> None"
  proof (intro ballI)
    fix g c assume g: "g \<in> set (map snd fns)" and "c \<in> set (map snd (fn_calls g))"
    then obtain ck where "(ck, c) \<in> set (fn_calls g)" by force
    then have "map_of (prof_functions p) (call_callee_id c) \<noteq> None" using kc' g by blast
    then show "map_of (fns) (call_callee_id c) \<noteq> None" using d by (simp add: map_of_eq_None_iff)
  qed
  then have "calls_closed p'" unfolding p' calls_closed_def list_all_iff by simp
  ultimately show ?thesis by blast
qed

section \<open>What the \<open>perf\<close> parser returns\<close>

lemma perf_parse_graph_validated:
  assumes "perf_parse_graph text = Some (Inr p)"
  shows "\<exists>p1. dict_wf p1 \<and> calls_keyed p1 \<and> calls_closed p1 \<and> graph_shape p = graph_shape p1"
proof -
  let ?st = "(perf_readline (perf_init text))\<lparr>lp_prof := (lp_prof (perf_readline (perf_init text)))\<lparr>prof_events :=
               (prof_events (lp_prof (perf_readline (perf_init text))))(SAMPLES \<mapsto> 0)\<rparr>\<rparr>"
  obtain st1 p1 p2 p3 where e: "perf_parse_events ?st = Inr st1" and v: "validate (lp_prof st1) = Inr p1"
    and c: "find_cycles p1 = Some (Inr p2)" and r: "profile_ratio p2 TIME_RATIO SAMPLES = Inr p3"
    and cr: "call_ratios p3 SAMPLES2 = Inr p"
    using assms by (auto simp add: perf_parse_graph_def Let_def py_then_def bind_eq_Some_conv split: sum.splits option.splits)
  have "dict_wf (lp_prof ?st)" by (simp add: perf_init_def new_profile_def dict_wf_def)
  then have "dict_wf p1 \<and> calls_keyed p1 \<and> calls_closed p1" using dict_wf_perf_parse_events[OF e] validate_wf[OF v] by simp
  moreover have "graph_shape p = graph_shape p1"
    using call_ratios_shape[OF cr] profile_ratio_shape[OF r] find_cycles_shape[OF c] by simp
  ultimately show ?thesis by blast
qed

lemma perf_parse_graph_keyed_closed:
  "perf_parse_graph text = Some (Inr p) \<Longrightarrow> calls_keyed p \<and> calls_closed p"
  using perf_parse_graph_validated shape_keyed_closed by metis

end
