(* ===== verification/G2D_Subtree.thy ===== *)
theory G2D_Subtree
  imports G2D_Profile
begin

text \<open>\<open>Profile.prune_root\<close> and \<open>Profile.prune_leaf\<close> of \<^verbatim>\<open>src/gprof2dot.py\<close> (lines
  375--428): keep the functions reachable from the given roots (down the calls), or from
  which a given leaf is reachable (up the calls), within a depth.  The frontier is a
  Python set of (function id, remaining depth) pairs and \<open>frontier.pop()\<close> removes an
  arbitrary element: the order follows the hashes of the strings, which Python varies
  from run to run.  The loop is therefore an inductive step relation in which any element
  of the frontier may be popped, and a run is a sequence of steps that ends with an empty
  frontier (or an exception).  A depth of -1 (the default) never reaches 0.  The result
  dicts are built by iterating over a set; they are modelled in the profile's order.\<close>

type_synonym fr_state = "(string \<times> int) set \<times> string set"

text \<open>One iteration of the \<open>while len(frontier) > 0\<close> loop, for a successor function
  \<open>succ\<close> that may raise.\<close>

inductive frontier_step :: "(string \<Rightarrow> py_error + string list) \<Rightarrow> fr_state \<Rightarrow> py_error + fr_state \<Rightarrow> bool"
  for succ where
  pop_depth0: "(n, 0) \<in> F \<Longrightarrow> frontier_step succ (F, V) (Inr (F - {(n, 0)}, insert n V))"
| pop_error: "(n, d) \<in> F \<Longrightarrow> d \<noteq> 0 \<Longrightarrow> succ n = Inl e \<Longrightarrow> frontier_step succ (F, V) (Inl e)"
| pop_expand: "(n, d) \<in> F \<Longrightarrow> d \<noteq> 0 \<Longrightarrow> succ n = Inr ms \<Longrightarrow>
    frontier_step succ (F, V) (Inr ((F - {(n, d)}) \<union> (\<lambda>m. (m, d - 1)) ` (set ms - insert n V), insert n V))"

inductive frontier_run :: "(string \<Rightarrow> py_error + string list) \<Rightarrow> fr_state \<Rightarrow> py_error + string set \<Rightarrow> bool"
  for succ where
  run_done: "frontier_run succ ({}, V) (Inr V)"
| run_error: "frontier_step succ s (Inl e) \<Longrightarrow> frontier_run succ s (Inl e)"
| run_step: "frontier_step succ s (Inr s') \<Longrightarrow> frontier_run succ s' r \<Longrightarrow> frontier_run succ s r"

definition fr_init :: "string list \<Rightarrow> int \<Rightarrow> fr_state" where
  "fr_init roots depth = ((\<lambda>r. (r, depth)) ` set roots, {})"

text \<open>The successors: \<open>self.functions[node].calls.keys()\<close> for \<open>prune_root\<close> (\<open>KeyError\<close>
  for an id that is not a function), \<open>edgesUp[node]\<close> for \<open>prune_leaf\<close> (a
  \<open>defaultdict(set)\<close> of the callers).\<close>

definition root_succ :: "g_profile \<Rightarrow> string \<Rightarrow> py_error + string list" where
  "root_succ p n = (case map_of (prof_functions p) n of None \<Rightarrow> Inl KeyError | Some f \<Rightarrow> Inr (map fst (fn_calls f)))"

definition leaf_succ :: "g_profile \<Rightarrow> string \<Rightarrow> py_error + string list" where
  "leaf_succ p n = Inr (map fst (filter (\<lambda>(k, f). n \<in> set (map fst (fn_calls f))) (prof_functions p)))"

definition restrict_calls :: "string set \<Rightarrow> g_function \<Rightarrow> g_function" where
  "restrict_calls V f = f\<lparr>fn_calls := filter (\<lambda>(c, call). c \<in> V) (fn_calls f)\<rparr>"

text \<open>The end of \<open>prune_root\<close>: every visited id is looked up (\<open>KeyError\<close> when one is
  not a function) and keeps its calls to visited ids.\<close>

definition prune_root_finish :: "g_profile \<Rightarrow> string set \<Rightarrow> py_error + g_profile" where
  "prune_root_finish p V =
     (if V \<subseteq> set (map fst (prof_functions p))
      then Inr (p\<lparr>prof_functions := map (\<lambda>(k, f). (k, restrict_calls V f))
                                       (filter (\<lambda>(k, f). k \<in> V) (prof_functions p))\<rparr>)
      else Inl KeyError)"

text \<open>The end of \<open>prune_leaf\<close>: the path is the visited ids that are functions.\<close>

definition prune_leaf_finish :: "g_profile \<Rightarrow> string set \<Rightarrow> g_profile" where
  "prune_leaf_finish p V =
     (let path = V \<inter> set (map fst (prof_functions p))
      in p\<lparr>prof_functions := map (\<lambda>(k, f). (k, restrict_calls path f))
                                 (filter (\<lambda>(k, f). k \<in> path) (prof_functions p))\<rparr>)"

inductive prune_root :: "g_profile \<Rightarrow> string list \<Rightarrow> int \<Rightarrow> py_error + g_profile \<Rightarrow> bool" where
  "frontier_run (root_succ p) (fr_init roots depth) (Inr V) \<Longrightarrow> prune_root p roots depth (prune_root_finish p V)"
| "frontier_run (root_succ p) (fr_init roots depth) (Inl e) \<Longrightarrow> prune_root p roots depth (Inl e)"

inductive prune_leaf :: "g_profile \<Rightarrow> string list \<Rightarrow> int \<Rightarrow> g_profile \<Rightarrow> bool" where
  "frontier_run (leaf_succ p) (fr_init leafs depth) (Inr V) \<Longrightarrow> prune_leaf p leafs depth (prune_leaf_finish p V)"

definition call_edges :: "g_profile \<Rightarrow> (string \<times> string) set" where
  "call_edges p = {(a, b). \<exists>f. map_of (prof_functions p) a = Some f \<and> b \<in> set (map fst (fn_calls f))}"

definition root_universe :: "g_profile \<Rightarrow> string list \<Rightarrow> string set" where
  "root_universe p roots = set roots \<union> set (concat (map (\<lambda>(k, f). map fst (fn_calls f)) (prof_functions p)))"

definition ex_calls :: "string \<Rightarrow> string list \<Rightarrow> string \<times> g_function" where
  "ex_calls k cs = (k, (new_function k k)\<lparr>fn_calls := map (\<lambda>c. (c, new_call c)) cs\<rparr>)"

text \<open>Example profiles: a chain main, a, b; and roots r1 (calling m, which calls x) and
  r2 (calling x, which calls y).\<close>

definition ex_chain :: g_profile where
  "ex_chain = new_profile\<lparr>prof_functions := [ex_calls ''main'' [''a''], ex_calls ''a'' [''b''], ex_calls ''b'' []]\<rparr>"

definition ex_depth :: g_profile where
  "ex_depth = new_profile\<lparr>prof_functions := [ex_calls ''r1'' [''m''], ex_calls ''m'' [''x''], ex_calls ''r2'' [''x''],
                                            ex_calls ''x'' [''y''], ex_calls ''y'' []]\<rparr>"

inductive_cases frontier_step_InrE: "frontier_step succ s (Inr s')"
inductive_cases prune_root_InrE: "prune_root p roots depth (Inr p')"

section \<open>Without a depth limit: reachability\<close>

definition succ_edges :: "(string \<Rightarrow> py_error + string list) \<Rightarrow> (string \<times> string) set" where
  "succ_edges succ = {(a, b). \<exists>ms. succ a = Inr ms \<and> b \<in> set ms}"

definition fr_reach :: "(string \<Rightarrow> py_error + string list) \<Rightarrow> string list \<Rightarrow> string set" where
  "fr_reach succ roots = {n. \<exists>r \<in> set roots. (r, n) \<in> (succ_edges succ)\<^sup>*}"

definition neg_inv :: "(string \<Rightarrow> py_error + string list) \<Rightarrow> string list \<Rightarrow> fr_state \<Rightarrow> bool" where
  "neg_inv succ roots s =
     (case s of (F, V) \<Rightarrow>
        (\<forall>x \<in> F. snd x < 0) \<and> V \<union> fst ` F \<subseteq> fr_reach succ roots \<and> set roots \<subseteq> V \<union> fst ` F
        \<and> (\<forall>n \<in> V. \<exists>ms. succ n = Inr ms \<and> set ms \<subseteq> V \<union> fst ` F))"

lemma fr_reach_step: "a \<in> fr_reach succ roots \<Longrightarrow> succ a = Inr ms \<Longrightarrow> b \<in> set ms \<Longrightarrow> b \<in> fr_reach succ roots"
  unfolding fr_reach_def succ_edges_def by (blast intro: rtrancl_into_rtrancl)

lemma fst_pop_expand:
  "fst ` ((F - {(n, d)}) \<union> (\<lambda>m. (m, d')) ` (set ms - insert n V)) \<union> insert n V \<supseteq> fst ` F \<union> V \<union> set ms"
  by force

lemma neg_inv_step:
  assumes "frontier_step succ s r" "r = Inr s'" "neg_inv succ roots s"
  shows "neg_inv succ roots s'"
  using assms(1)
proof cases
  case (pop_depth0 n F V)
  then show ?thesis using assms(2,3) by (auto simp add: neg_inv_def)
next
  case (pop_error n d F e V)
  then show ?thesis using assms(2) by simp
next
  case (pop_expand n d F ms V)
  have inF: "(n, d) \<in> F" and sc: "succ n = Inr ms" using pop_expand by simp_all
  have I: "\<forall>x \<in> F. snd x < 0" "V \<union> fst ` F \<subseteq> fr_reach succ roots" "set roots \<subseteq> V \<union> fst ` F"
     "\<forall>x \<in> V. \<exists>ms. succ x = Inr ms \<and> set ms \<subseteq> V \<union> fst ` F"
    using assms(3) pop_expand(1) by (simp_all add: neg_inv_def)
  define F' where "F' = (F - {(n, d)}) \<union> (\<lambda>m. (m, d - 1)) ` (set ms - insert n V)"
  have s': "s' = (F', insert n V)" using pop_expand(2) assms(2) by (simp add: F'_def)
  have sub: "fst ` F \<union> V \<union> set ms \<subseteq> fst ` F' \<union> insert n V"
    unfolding F'_def by (rule fst_pop_expand)
  have nR: "n \<in> fr_reach succ roots" using I(2) inF by force
  have msR: "set ms \<subseteq> fr_reach succ roots" using fr_reach_step[OF nR sc] by blast
  have neg: "\<forall>x \<in> F'. snd x < 0" using I(1) inF by (force simp add: F'_def)
  have reach: "insert n V \<union> fst ` F' \<subseteq> fr_reach succ roots"
    using I(2) msR nR by (auto simp add: F'_def)
  have roots: "set roots \<subseteq> insert n V \<union> fst ` F'" using I(3) sub by blast
  have clos: "\<forall>x \<in> insert n V. \<exists>ms'. succ x = Inr ms' \<and> set ms' \<subseteq> insert n V \<union> fst ` F'"
  proof
    fix x assume "x \<in> insert n V"
    then show "\<exists>ms'. succ x = Inr ms' \<and> set ms' \<subseteq> insert n V \<union> fst ` F'"
    proof
      assume "x = n"
      then show ?thesis using sc sub by blast
    next
      assume "x \<in> V"
      then obtain ms' where "succ x = Inr ms'" "set ms' \<subseteq> V \<union> fst ` F" using I(4) by blast
      then show ?thesis using sub by blast
    qed
  qed
  show ?thesis using s' neg reach roots clos by (simp add: neg_inv_def)
qed

lemma rtrancl_closed:
  assumes "(a, b) \<in> (succ_edges succ)\<^sup>*" "a \<in> V" "\<forall>n \<in> V. \<exists>ms. succ n = Inr ms \<and> set ms \<subseteq> V"
  shows "b \<in> V"
  using assms(1)
proof (induction rule: rtrancl_induct)
  case base
  then show ?case using assms(2) .
next
  case (step y z)
  then obtain ms where "succ y = Inr ms" "z \<in> set ms" by (auto simp add: succ_edges_def)
  then show ?case using step(3) assms(3) by force
qed

lemma neg_run_reach:
  "frontier_run succ s r \<Longrightarrow> neg_inv succ roots s \<Longrightarrow> r = Inr V \<Longrightarrow> V = fr_reach succ roots"
proof (induction rule: frontier_run.induct)
  case (run_done V')
  then have "V' \<subseteq> fr_reach succ roots" "set roots \<subseteq> V'" "\<forall>n \<in> V'. \<exists>ms. succ n = Inr ms \<and> set ms \<subseteq> V'"
    by (simp_all add: neg_inv_def)
  then have "fr_reach succ roots \<subseteq> V'" unfolding fr_reach_def using rtrancl_closed by blast
  then show ?case using run_done \<open>V' \<subseteq> fr_reach succ roots\<close> by auto
next
  case (run_error s e)
  then show ?case by simp
next
  case (run_step s s' r)
  then show ?case using neg_inv_step by blast
qed

lemma neg_inv_init: "neg_inv succ roots (fr_init roots (-1))"
  by (auto simp add: neg_inv_def fr_init_def fr_reach_def image_image)

section \<open>Every run of the loop ends\<close>

text \<open>Each pop either visits a new id or removes an item of an already visited id while
  adding only items of unvisited ids; ids come from a finite universe \<open>U\<close>.\<close>

definition fr_measure :: "string set \<Rightarrow> (fr_state \<times> fr_state) set" where
  "fr_measure U = measures [\<lambda>s. card (U - snd s), \<lambda>s. card {x \<in> fst s. fst x \<in> snd s}]"

lemma fr_measure_pop:
  assumes "finite U" "finite F" "(n, d) \<in> F" "n \<in> U" "finite N" "\<forall>x \<in> N. fst x \<notin> insert n V"
  shows "(((F - {(n, d)}) \<union> N, insert n V), (F, V)) \<in> fr_measure U"
proof (cases "n \<in> V")
  case False
  have "U - insert n V = (U - V) - {n}" by blast
  moreover have "n \<in> U - V" using assms(4) False by blast
  moreover have "card ((U - V) - {n}) < card (U - V)"
    using assms(1) \<open>n \<in> U - V\<close> by (intro card_Diff1_less) auto
  ultimately have "card (U - insert n V) < card (U - V)" by simp
  then show ?thesis by (simp add: fr_measure_def)
next
  case True
  have eq: "insert n V = V" using True by blast
  have "{x \<in> (F - {(n, d)}) \<union> N. fst x \<in> V} \<subset> {x \<in> F. fst x \<in> V}"
    using assms(3,6) True by auto
  then have "card {x \<in> (F - {(n, d)}) \<union> N. fst x \<in> V} < card {x \<in> F. fst x \<in> V}"
    using assms(2) by (simp add: psubset_card_mono)
  then show ?thesis by (simp add: fr_measure_def eq)
qed

lemma frontier_step_measure:
  assumes "frontier_step succ s r" "r = Inr s'" "finite U" "\<forall>n ms. succ n = Inr ms \<longrightarrow> set ms \<subseteq> U"
    "finite (fst s)" "fst ` fst s \<subseteq> U"
  shows "(s', s) \<in> fr_measure U \<and> finite (fst s') \<and> fst ` fst s' \<subseteq> U"
  using assms(1)
proof cases
  case (pop_depth0 n F V)
  have "(((F - {(n, 0)}) \<union> {}, insert n V), (F, V)) \<in> fr_measure U"
    using pop_depth0 assms(3,5,6) by (intro fr_measure_pop) force+
  then show ?thesis using pop_depth0 assms(2,5,6) by auto
next
  case (pop_error n d F e V)
  then show ?thesis using assms(2) by simp
next
  case (pop_expand n d F ms V)
  have "(((F - {(n, d)}) \<union> (\<lambda>m. (m, d - 1)) ` (set ms - insert n V), insert n V), (F, V)) \<in> fr_measure U"
    using pop_expand assms(3,5,6) by (intro fr_measure_pop) force+
  moreover have "set ms \<subseteq> U" using pop_expand(5) assms(4) by blast
  ultimately show ?thesis using pop_expand assms(2,5,6) by auto
qed

lemma frontier_run_exists:
  assumes U: "finite U" "\<forall>n ms. succ n = Inr ms \<longrightarrow> set ms \<subseteq> U"
  shows "finite (fst s) \<Longrightarrow> fst ` fst s \<subseteq> U \<Longrightarrow> \<exists>r. frontier_run succ s r"
proof (induction s rule: wf_induct_rule[OF wf_measures[of "[\<lambda>s. card (U - snd s), \<lambda>s. card {x \<in> fst s. fst x \<in> snd s}]"]])
  case (1 s)
  obtain F V where s: "s = (F, V)" by (cases s)
  have IH: "\<exists>r. frontier_run succ s' r" if "frontier_step succ s (Inr s')" for s'
    using frontier_step_measure[OF that refl U 1(2,3)] 1(1) by (simp add: fr_measure_def)
  show ?case
  proof (cases "F = {}")
    case True
    then show ?thesis using run_done s by blast
  next
    case False
    then obtain n d where nd: "(n, d) \<in> F" by auto
    show ?thesis
    proof (cases "d = 0")
      case True
      then have "frontier_step succ s (Inr (F - {(n, 0)}, insert n V))"
        using nd s pop_depth0 by blast
      then show ?thesis using IH run_step by blast
    next
      case False
      show ?thesis
      proof (cases "succ n")
        case (Inl e)
        then show ?thesis using nd False s pop_error run_error by metis
      next
        case (Inr ms)
        then have "frontier_step succ s (Inr ((F - {(n, d)}) \<union> (\<lambda>m. (m, d - 1)) ` (set ms - insert n V), insert n V))"
          using nd False s pop_expand by blast
        then show ?thesis using IH run_step by blast
      qed
    qed
  qed
qed

lemma frontier_reach_inv:
  assumes "(\<lambda>a b. frontier_step succ a (Inr b))\<^sup>*\<^sup>* s0 s" "finite U" "\<forall>n ms. succ n = Inr ms \<longrightarrow> set ms \<subseteq> U"
    "finite (fst s0)" "fst ` fst s0 \<subseteq> U"
  shows "finite (fst s) \<and> fst ` fst s \<subseteq> U"
  using assms(1)
proof (induction rule: rtranclp_induct)
  case base
  then show ?case using assms(4,5) by simp
next
  case (step y z)
  have "finite (fst y)" "fst ` fst y \<subseteq> U" using step(3) by simp_all
  from frontier_step_measure[OF step(2) refl assms(2,3) this] show ?case by simp
qed

lemma frontier_wf:
  assumes "finite U" "\<forall>n ms. succ n = Inr ms \<longrightarrow> set ms \<subseteq> U" "finite (fst s0)" "fst ` fst s0 \<subseteq> U"
  shows "wf {(s', s). frontier_step succ s (Inr s') \<and> (\<lambda>a b. frontier_step succ a (Inr b))\<^sup>*\<^sup>* s0 s}"
proof -
  have "(s', s) \<in> fr_measure U"
    if "frontier_step succ s (Inr s')" "(\<lambda>a b. frontier_step succ a (Inr b))\<^sup>*\<^sup>* s0 s" for s s'
  proof -
    have "finite (fst s) \<and> fst ` fst s \<subseteq> U" by (rule frontier_reach_inv[OF that(2) assms])
    then show ?thesis using frontier_step_measure[OF that(1) refl assms(1,2)] by blast
  qed
  then have "{(s', s). frontier_step succ s (Inr s') \<and> (\<lambda>a b. frontier_step succ a (Inr b))\<^sup>*\<^sup>* s0 s} \<subseteq> fr_measure U"
    by blast
  moreover have "wf (fr_measure U)" unfolding fr_measure_def by (rule wf_measures)
  ultimately show ?thesis by (rule wf_subset[rotated])
qed

lemma root_universe_finite: "finite (root_universe p roots)"
  unfolding root_universe_def by (intro finite_UnI List.finite_set)

lemma root_succ_universe: "\<forall>n ms. root_succ p n = Inr ms \<longrightarrow> set ms \<subseteq> root_universe p roots"
proof (intro allI impI)
  fix n ms assume assms: "root_succ p n = Inr ms"
  show "set ms \<subseteq> root_universe p roots"
  proof -
  obtain f where f: "map_of (prof_functions p) n = Some f" "ms = map fst (fn_calls f)"
    using assms by (auto simp add: root_succ_def split: option.splits)
  have "(n, f) \<in> set (prof_functions p)" using f(1) by (rule map_of_SomeD)
  then show ?thesis using f(2) by (auto simp add: root_universe_def intro!: bexI[of _ "(n, f)"])
  qed
qed

lemma fr_init_universe: "finite (fst (fr_init roots depth)) \<and> fst ` fst (fr_init roots depth) \<subseteq> root_universe p roots"
  by (auto simp add: fr_init_def root_universe_def)

text \<open>C13 (prune_root_terminates). Whatever element \<open>frontier.pop()\<close> picks, the loop of
  \<open>prune_root\<close> cannot run forever (the steps from its initial state are well founded),
  and it ends, with the pruned profile or an exception, for every profile, roots and
  depth.\<close>

theorem prune_root_terminates:
  "wf {(s', s). frontier_step (root_succ p) s (Inr s') \<and>
               (\<lambda>a b. frontier_step (root_succ p) a (Inr b))\<^sup>*\<^sup>* (fr_init roots depth) s}
   \<and> (\<exists>r. prune_root p roots depth r)"
proof
  show "wf {(s', s). frontier_step (root_succ p) s (Inr s') \<and>
               (\<lambda>a b. frontier_step (root_succ p) a (Inr b))\<^sup>*\<^sup>* (fr_init roots depth) s}"
    using frontier_wf[OF root_universe_finite root_succ_universe] fr_init_universe by blast
  obtain r where "frontier_run (root_succ p) (fr_init roots depth) r"
    using frontier_run_exists[OF root_universe_finite root_succ_universe] fr_init_universe by blast
  then show "\<exists>r. prune_root p roots depth r"
    by (cases r) (auto intro: prune_root.intros)
qed

section \<open>Runs on the examples\<close>

lemma run_expand:
  "frontier_run succ (F', V') r \<Longrightarrow> (n, d) \<in> F \<Longrightarrow> d \<noteq> 0 \<Longrightarrow> succ n = Inr ms \<Longrightarrow>
   F' = (F - {(n, d)}) \<union> (\<lambda>m. (m, d - 1)) ` (set ms - insert n V) \<Longrightarrow> V' = insert n V \<Longrightarrow>
   frontier_run succ (F, V) r"
  using run_step pop_expand by blast

lemma run_zero:
  "frontier_run succ (F', V') r \<Longrightarrow> (n, 0) \<in> F \<Longrightarrow> F' = F - {(n, 0)} \<Longrightarrow> V' = insert n V \<Longrightarrow>
   frontier_run succ (F, V) r"
  using run_step pop_depth0 by blast

lemmas ex_profile_defs = ex_chain_def ex_depth_def ex_calls_def new_function_def new_call_def new_profile_def
  root_succ_def

section \<open>No depth limit: the reachable functions\<close>

lemma fst_pair_image: "(a, b) \<in> S \<Longrightarrow> a \<in> fst ` S"
  by force

lemma succ_edges_root: "succ_edges (root_succ p) = call_edges p"
  by (auto simp add: succ_edges_def root_succ_def call_edges_def split: option.splits intro: fst_pair_image)

lemma prune_root_finish_keys:
  assumes "prune_root_finish p V = Inr p'"
  shows "set (map fst (prof_functions p')) = V \<and>
         list_all (\<lambda>f. list_all (\<lambda>(c, call). c \<in> V) (fn_calls f)) (map snd (prof_functions p'))"
proof -
  have sub: "V \<subseteq> set (map fst (prof_functions p))"
    and p': "prof_functions p' = map (\<lambda>(k, f). (k, restrict_calls V f)) (filter (\<lambda>(k, f). k \<in> V) (prof_functions p))"
    using assms by (auto simp add: prune_root_finish_def split: if_splits)
  have "set (map fst (prof_functions p')) = V" using sub by (force simp add: p')
  moreover have "list_all (\<lambda>f. list_all (\<lambda>(c, call). c \<in> V) (fn_calls f)) (map snd (prof_functions p'))"
    by (auto simp add: p' restrict_calls_def list_all_iff)
  ultimately show ?thesis by blast
qed

text \<open>C12 (prune_root_unlimited). With the default depth -1, \<open>prune_root\<close> keeps exactly the
  functions reachable from the roots along the calls, whatever order \<open>pop()\<close> takes, and
  every call it keeps leads to a kept function.\<close>

theorem prune_root_unlimited:
  assumes "prune_root p roots (-1) (Inr p')"
  shows "set (map fst (prof_functions p')) = {n. \<exists>r \<in> set roots. (r, n) \<in> (call_edges p)\<^sup>*} \<and>
         list_all (\<lambda>f. list_all (\<lambda>(c, call). c \<in> set (map fst (prof_functions p'))) (fn_calls f))
           (map snd (prof_functions p'))"
proof -
  obtain V where run: "frontier_run (root_succ p) (fr_init roots (-1)) (Inr V)"
    and fin: "prune_root_finish p V = Inr p'"
    using assms by (auto elim!: prune_root_InrE)
  have "V = fr_reach (root_succ p) roots" using neg_run_reach[OF run neg_inv_init refl] .
  then have V: "V = {n. \<exists>r \<in> set roots. (r, n) \<in> (call_edges p)\<^sup>*}"
    by (simp add: fr_reach_def succ_edges_root)
  show ?thesis using prune_root_finish_keys[OF fin] V by simp
qed

lemma prune_root_unlimited_witness:
  "prune_root ex_chain [''main''] (-1) (Inr (ex_chain\<lparr>prof_functions := map (\<lambda>(k, f). (k, restrict_calls {''main'', ''a'', ''b''} f)) (prof_functions ex_chain)\<rparr>))
   \<and> set (map fst (prof_functions ex_chain)) = {n. \<exists>r \<in> set [''main'']. (r, n) \<in> (call_edges ex_chain)\<^sup>*}"
proof -
  have "frontier_run (root_succ ex_chain) ({}, {''b'', ''a'', ''main''}) (Inr {''b'', ''a'', ''main''})"
    by (rule run_done)
  then have "frontier_run (root_succ ex_chain) ({(''b'', -3)}, {''a'', ''main''}) (Inr {''b'', ''a'', ''main''})"
    by (rule run_expand[where n="''b''" and d="-3" and ms="[]"]) (simp_all add: ex_profile_defs)
  then have "frontier_run (root_succ ex_chain) ({(''a'', -2)}, {''main''}) (Inr {''b'', ''a'', ''main''})"
    by (rule run_expand[where n="''a''" and d="-2" and ms="[''b'']"]) (simp_all add: ex_profile_defs)
  then have "frontier_run (root_succ ex_chain) ({(''main'', -1)}, {}) (Inr {''b'', ''a'', ''main''})"
    by (rule run_expand[where n="''main''" and d="-1" and ms="[''a'']"]) (simp_all add: ex_profile_defs)
  then have r: "prune_root ex_chain [''main''] (-1) (prune_root_finish ex_chain {''b'', ''a'', ''main''})"
    by (intro prune_root.intros(1)) (simp add: fr_init_def)
  have f: "prune_root_finish ex_chain {''b'', ''a'', ''main''} =
           Inr (ex_chain\<lparr>prof_functions := map (\<lambda>(k, f). (k, restrict_calls {''main'', ''a'', ''b''} f)) (prof_functions ex_chain)\<rparr>)"
    by (simp add: prune_root_finish_def ex_chain_def ex_calls_def insert_commute)
  have "prune_root ex_chain [''main''] (-1) (Inr (ex_chain\<lparr>prof_functions := map (\<lambda>(k, f). (k, restrict_calls {''main'', ''a'', ''b''} f)) (prof_functions ex_chain)\<rparr>))"
    using r f by simp
  moreover have "set (map fst (prof_functions (ex_chain\<lparr>prof_functions := map (\<lambda>(k, f). (k, restrict_calls {''main'', ''a'', ''b''} f)) (prof_functions ex_chain)\<rparr>)))
      = {n. \<exists>r \<in> set [''main'']. (r, n) \<in> (call_edges ex_chain)\<^sup>*}"
    using prune_root_unlimited[OF calculation] by blast
  ultimately show ?thesis by (simp add: ex_chain_def ex_calls_def)
qed

section \<open>With a depth limit the result depends on the pop order\<close>

lemma ex_depth_init: "fr_init [''r1'', ''r2''] 2 = ({(''r1'', 2), (''r2'', 2)}, {})"
  by (simp add: fr_init_def)

lemma ex_depth_run_r1_first:
  "frontier_run (root_succ ex_depth) (fr_init [''r1'', ''r2''] 2) (Inr {''r1'', ''m'', ''x'', ''r2''})"
proof -
  have "frontier_run (root_succ ex_depth) ({}, {''r1'', ''m'', ''x'', ''r2''}) (Inr {''r1'', ''m'', ''x'', ''r2''})"
    by (rule run_done)
  then have "frontier_run (root_succ ex_depth) ({(''r2'', 2)}, {''r1'', ''m'', ''x''}) (Inr {''r1'', ''m'', ''x'', ''r2''})"
    by (rule run_expand[where n="''r2''" and d=2 and ms="[''x'']"]) (auto simp add: ex_profile_defs)
  then have "frontier_run (root_succ ex_depth) ({(''r2'', 2), (''x'', 0)}, {''r1'', ''m''}) (Inr {''r1'', ''m'', ''x'', ''r2''})"
    by (rule run_zero[where n="''x''"]) auto
  then have "frontier_run (root_succ ex_depth) ({(''r2'', 2), (''m'', 1)}, {''r1''}) (Inr {''r1'', ''m'', ''x'', ''r2''})"
    by (rule run_expand[where n="''m''" and d=1 and ms="[''x'']"]) (auto simp add: ex_profile_defs)
  then have "frontier_run (root_succ ex_depth) ({(''r1'', 2), (''r2'', 2)}, {}) (Inr {''r1'', ''m'', ''x'', ''r2''})"
    by (rule run_expand[where n="''r1''" and d=2 and ms="[''m'']"]) (auto simp add: ex_profile_defs)
  then show ?thesis by (simp only: ex_depth_init)
qed

lemma ex_depth_run_r2_first:
  "frontier_run (root_succ ex_depth) (fr_init [''r1'', ''r2''] 2) (Inr {''r2'', ''x'', ''y'', ''r1'', ''m''})"
proof -
  have "frontier_run (root_succ ex_depth) ({}, {''r2'', ''x'', ''y'', ''r1'', ''m''}) (Inr {''r2'', ''x'', ''y'', ''r1'', ''m''})"
    by (rule run_done)
  then have "frontier_run (root_succ ex_depth) ({(''m'', 1)}, {''r2'', ''x'', ''y'', ''r1''}) (Inr {''r2'', ''x'', ''y'', ''r1'', ''m''})"
    by (rule run_expand[where n="''m''" and d=1 and ms="[''x'']"]) (auto simp add: ex_profile_defs)
  then have "frontier_run (root_succ ex_depth) ({(''r1'', 2)}, {''r2'', ''x'', ''y''}) (Inr {''r2'', ''x'', ''y'', ''r1'', ''m''})"
    by (rule run_expand[where n="''r1''" and d=2 and ms="[''m'']"]) (auto simp add: ex_profile_defs)
  then have "frontier_run (root_succ ex_depth) ({(''r1'', 2), (''y'', 0)}, {''r2'', ''x''}) (Inr {''r2'', ''x'', ''y'', ''r1'', ''m''})"
    by (rule run_zero[where n="''y''"]) auto
  then have "frontier_run (root_succ ex_depth) ({(''r1'', 2), (''x'', 1)}, {''r2''}) (Inr {''r2'', ''x'', ''y'', ''r1'', ''m''})"
    by (rule run_expand[where n="''x''" and d=1 and ms="[''y'']"]) (auto simp add: ex_profile_defs)
  then have "frontier_run (root_succ ex_depth) ({(''r1'', 2), (''r2'', 2)}, {}) (Inr {''r2'', ''x'', ''y'', ''r1'', ''m''})"
    by (rule run_expand[where n="''r2''" and d=2 and ms="[''x'']"]) (auto simp add: ex_profile_defs)
  then show ?thesis by (simp only: ex_depth_init)
qed

text \<open>C14 (prune_root_depth_order). With roots r1 and r2 and depth 2, where r1 calls m, m
  calls x, r2 calls x and x calls y, \<open>prune_root\<close> keeps y when \<open>pop()\<close> takes r2 first
  and drops it when it takes r1 first: x is then visited at depth 0 through m, and r2 no
  longer adds x at depth 1 because x is already visited.  Since the pop order follows
  string hashes, which Python randomises per process, the pruned graph can change from
  one run of the program to the next.\<close>

theorem prune_root_depth_order:
  "\<exists>p1 p2. prune_root ex_depth [''r1'', ''r2''] 2 (Inr p1) \<and> prune_root ex_depth [''r1'', ''r2''] 2 (Inr p2) \<and>
     ''y'' \<notin> set (map fst (prof_functions p1)) \<and> ''y'' \<in> set (map fst (prof_functions p2))"
proof -
  have kA: "{''r1'', ''m'', ''x'', ''r2''} \<subseteq> set (map fst (prof_functions ex_depth))"
    and kB: "{''r2'', ''x'', ''y'', ''r1'', ''m''} \<subseteq> set (map fst (prof_functions ex_depth))"
    by (simp_all add: ex_depth_def ex_calls_def)
  define p1 where "p1 = ex_depth\<lparr>prof_functions := map (\<lambda>(k, f). (k, restrict_calls {''r1'', ''m'', ''x'', ''r2''} f))
                     (filter (\<lambda>(k, f). k \<in> {''r1'', ''m'', ''x'', ''r2''}) (prof_functions ex_depth))\<rparr>"
  define p2 where "p2 = ex_depth\<lparr>prof_functions := map (\<lambda>(k, f). (k, restrict_calls {''r2'', ''x'', ''y'', ''r1'', ''m''} f))
                     (filter (\<lambda>(k, f). k \<in> {''r2'', ''x'', ''y'', ''r1'', ''m''}) (prof_functions ex_depth))\<rparr>"
  have "prune_root ex_depth [''r1'', ''r2''] 2 (Inr p1)"
    using prune_root.intros(1)[OF ex_depth_run_r1_first] kA by (simp add: prune_root_finish_def p1_def)
  moreover have "prune_root ex_depth [''r1'', ''r2''] 2 (Inr p2)"
    using prune_root.intros(1)[OF ex_depth_run_r2_first] kB by (simp add: prune_root_finish_def p2_def)
  moreover have "''y'' \<notin> set (map fst (prof_functions p1))" "''y'' \<in> set (map fst (prof_functions p2))"
    by (simp_all add: p1_def p2_def ex_depth_def ex_calls_def)
  ultimately show ?thesis by blast
qed

end
