(* ===== verification/G2D_Main.thy ===== *)
theory G2D_Main
  imports G2D_Shape G2D_Subtree Reporting
begin

text \<open>\<open>main\<close> of \<^verbatim>\<open>src/gprof2dot.py\<close> (lines 3741--4009) after \<open>optparse\<close> has parsed the
  command line: the options as a record with the declared defaults, the choice of the
  theme and its skew, the parser, the total-time method of the perf parser, the pruning
  and the optional subtrees, and the DOT text.  \<open>optparse\<close> itself, \<open>fnmatch\<close>, the
  parsers of the other formats, \<open>Profile.integrate\<close> and the text of floats are
  parameters collected in \<open>g2d_env\<close>; the input is the text read from the file or from
  stdin.  Because \<open>prune_root\<close> and \<open>prune_leaf\<close> are relations, so is a run of \<open>main\<close>.
  Runs with \<open>--strip\<close> or \<open>--wrap\<close> (which rewrite function names) are not modelled.\<close>

record g2d_options =
  opt_output :: "string option"
  opt_node_thres :: real
  opt_edge_thres :: real
  opt_format :: string
  opt_total :: string
  opt_theme :: string
  opt_strip :: bool
  opt_color_nodes_by_selftime :: bool
  opt_wrap :: bool
  opt_show_samples :: bool
  opt_node_labels :: "string list option"
  opt_list_functions :: "string option"
  opt_root :: string
  opt_leaf :: string
  opt_depth :: int
  opt_theme_skew :: real
  opt_filter_paths :: "string list option"

text \<open>The defaults of the \<open>add_option\<close> calls.\<close>

definition default_options :: g2d_options where
  "default_options =
     \<lparr>opt_output = None, opt_node_thres = 1/2, opt_edge_thres = 1/10, opt_format = ''prof'',
      opt_total = ''callratios'', opt_theme = ''color'', opt_strip = False,
      opt_color_nodes_by_selftime = False, opt_wrap = False, opt_show_samples = False,
      opt_node_labels = None, opt_list_functions = None, opt_root = [], opt_leaf = [],
      opt_depth = -1, opt_theme_skew = 1, opt_filter_paths = None\<rparr>"

text \<open>The \<open>labels\<close> table and \<open>defaultLabelNames\<close> (lines 172--178).\<close>

definition labels :: "(string \<times> g_event) list" where
  "labels = [(''self-time'', TIME), (''self-time-percentage'', TIME_RATIO), (''total-time'', TOTAL_TIME),
             (''total-time-percentage'', TOTAL_TIME_RATIO)]"

definition defaultLabelNames :: "string list" where
  "defaultLabelNames = [''total-time-percentage'', ''self-time-percentage'']"

text \<open>What \<open>main\<close> ends with: an \<open>optparser.error\<close> (exit status 2 with a message), a
  \<open>sys.exit\<close> status, or the DOT text written to the output.\<close>

datatype g2d_outcome = OptError string | SysExit int | DotOut string

text \<open>The names of the \<open>formats\<close> table (lines 3208--3222).\<close>

definition formats :: "string list" where
  "formats = [''axe'', ''callgrind'', ''hprof'', ''json'', ''oprofile'', ''perf'', ''prof'', ''pstats'',
              ''sleepy'', ''sysprof'', ''xperf'', ''dtrace'', ''csv'']"

text \<open>What the model takes as given: the text of floats, \<open>fnmatch\<close>, \<open>Profile.integrate\<close>,
  and for every format other than \<open>perf\<close> its argument checks and its parser (an
  \<open>optparser.error\<close> or the parsed profile, \<open>None\<close> when it does not return).\<close>

record g2d_env =
  env_text :: float_text
  env_fnmatch :: "string \<Rightarrow> string \<Rightarrow> bool"
  env_integrate :: "g_profile \<Rightarrow> py_error + g_profile"
  env_other_parser :: "string \<Rightarrow> string list \<Rightarrow> string \<Rightarrow> (py_error + (g2d_outcome + g_profile)) option"

text \<open>\<open>Profile.getFunctionIds\<close> (lines 430--435): a dict from name to id, built in the
  order of the functions (a later function of the same name replaces the id but keeps the
  position), filtered by \<open>fnmatch\<close>.\<close>

definition function_names :: "g_profile \<Rightarrow> (string \<times> string) list" where
  "function_names p = fold (\<lambda>(k, v) names. AList.update (fn_name v) k names) (prof_functions p) []"

definition getFunctionIds :: "(string \<Rightarrow> string \<Rightarrow> bool) \<Rightarrow> g_profile \<Rightarrow> string \<Rightarrow> string list" where
  "getFunctionIds fnmatch p funcName = map snd (filter (\<lambda>(nm, k). fnmatch nm funcName) (function_names p))"

text \<open>The end of \<open>PerfParser.parse\<close> (lines 2273--2287): the total-time method.  With
  \<open>callstacks\<close> the total time ratio is the share of the samples whose stack holds the
  function, and a call with a ratio gets that share of its callee's.\<close>

definition callstacks_call :: "g_profile \<Rightarrow> string \<times> g_call \<Rightarrow> py_error + string \<times> g_call" where
  "callstacks_call p kc =
     (case kc of (ck, c) \<Rightarrow>
        case call_ratio c of
          None \<Rightarrow> Inr (ck, c)
        | Some r \<Rightarrow>
            (case map_of (prof_functions p) (call_callee_id c) of
               None \<Rightarrow> Inl KeyError
             | Some callee \<Rightarrow>
                 py_then (obj_get (fn_events callee) TOTAL_TIME_RATIO)
                   (\<lambda>t. Inr (ck, c\<lparr>call_events := (call_events c)(TOTAL_TIME_RATIO \<mapsto> r * t)\<rparr>))))"

definition total_callstacks :: "g_profile \<Rightarrow> py_error + g_profile" where
  "total_callstacks p0 =
     py_then (obj_get (prof_events p0) SAMPLES) (\<lambda>s.
       py_then (profile_ratio (p0\<lparr>prof_events := (prof_events p0)(TOTAL_SAMPLES \<mapsto> s)\<rparr>) TOTAL_TIME_RATIO TOTAL_SAMPLES)
         (\<lambda>p. py_then (py_map_all (\<lambda>(k, f). py_then (py_map_all (callstacks_call p) (fn_calls f))
                                                  (\<lambda>calls. Inr (k, f\<lparr>fn_calls := calls\<rparr>)))
                                  (prof_functions p))
                (\<lambda>fns. Inr (p\<lparr>prof_functions := fns\<rparr>))))"

definition perf_parse :: "(g_profile \<Rightarrow> py_error + g_profile) \<Rightarrow> string \<Rightarrow> string \<Rightarrow> (py_error + g_profile) option" where
  "perf_parse integrate total_method text =
     map_option (\<lambda>r. py_then r (\<lambda>p. if total_method = ''callratios'' then integrate p
                                    else if total_method = ''callstacks'' then total_callstacks p
                                    else Inl AssertionError))
       (perf_parse_graph text)"

type_synonym g2d_state = "theme \<times> g_event list \<times> g_profile"

text \<open>From the parsed profile to the pruned one: the shown node labels (\<open>SAMPLES\<close> added by
  \<open>--show-samples\<close>), \<open>prune\<close> with the thresholds in percent, and \<open>--list-functions\<close>.\<close>

definition g2d_setup :: "g2d_options \<Rightarrow> theme \<Rightarrow> g_profile \<Rightarrow> py_error + (g2d_outcome + g2d_state)" where
  "g2d_setup opts theme profile =
     py_then (py_map_all (\<lambda>l. case map_of labels l of None \<Rightarrow> Inl KeyError | Some ev \<Rightarrow> Inr ev)
                (case opt_node_labels opts of None \<Rightarrow> defaultLabelNames | Some [] \<Rightarrow> defaultLabelNames
                 | Some ls \<Rightarrow> ls)) (\<lambda>evs0.
       let evs = evs0 @ (if opt_show_samples opts then [SAMPLES] else [])
       in py_then (prune profile (opt_node_thres opts / 100) (opt_edge_thres opts / 100)
                     (case opt_filter_paths opts of None \<Rightarrow> [] | Some ps \<Rightarrow> ps)) (\<lambda>profile.
            if opt_list_functions opts \<noteq> None \<and> opt_list_functions opts \<noteq> Some []
            then Inr (Inl (SysExit 0))
            else Inr (Inr (theme, evs, profile))))"

text \<open>\<open>main\<close> up to the pruning: the argument count, the theme (whose skew is replaced by
  a non-zero \<open>--skew\<close>), the format and its parser; for \<open>perf\<close> the input is read from stdin
  or from the one file argument.  The result is an early outcome or the theme, the shown
  function events and the pruned profile.\<close>

definition g2d_front :: "g2d_env \<Rightarrow> g2d_options \<Rightarrow> string list \<Rightarrow> string \<Rightarrow>
    (py_error + (g2d_outcome + g2d_state)) option" where
  "g2d_front env opts args input =
     (if 1 < length args \<and> opt_format opts \<noteq> ''pstats'' then Some (Inr (Inl (OptError ''incorrect number of arguments'')))
      else case map_of themes (opt_theme opts) of
        None \<Rightarrow> Some (Inr (Inl (OptError (''invalid colormap '' @ [CHR 0x27] @ opt_theme opts @ [CHR 0x27]))))
      | Some theme0 \<Rightarrow>
          (let theme = (if opt_theme_skew opts \<noteq> 0 then theme0\<lparr>th_skew := opt_theme_skew opts\<rparr> else theme0)
           in if opt_format opts \<notin> set formats
              then Some (Inr (Inl (OptError (''invalid format '' @ [CHR 0x27] @ opt_format opts @ [CHR 0x27]))))
              else map_option (\<lambda>r. py_then r (case_sum (\<lambda>out. Inr (Inl out)) (g2d_setup opts theme)))
                     (if opt_format opts = ''perf''
                      then map_option (map_sum id Inr) (perf_parse (env_integrate env) (opt_total opts) input)
                      else env_other_parser env (opt_format opts) args input)))"

text \<open>\<open>--root\<close> and \<open>--leaf\<close> (lines 3988--4007): no matching function ends the run with
  status 1.\<close>

inductive root_stage :: "g2d_env \<Rightarrow> g2d_options \<Rightarrow> g_profile \<Rightarrow> py_error + (g2d_outcome + g_profile) \<Rightarrow> bool" where
  root_none: "opt_root opts = [] \<Longrightarrow> root_stage env opts p (Inr (Inr p))"
| root_missing: "opt_root opts \<noteq> [] \<Longrightarrow> getFunctionIds (env_fnmatch env) p (opt_root opts) = [] \<Longrightarrow>
    root_stage env opts p (Inr (Inl (SysExit 1)))"
| root_pruned: "opt_root opts \<noteq> [] \<Longrightarrow> getFunctionIds (env_fnmatch env) p (opt_root opts) = ids \<Longrightarrow> ids \<noteq> [] \<Longrightarrow>
    prune_root p ids (opt_depth opts) r \<Longrightarrow> root_stage env opts p (map_sum id Inr r)"

inductive leaf_stage :: "g2d_env \<Rightarrow> g2d_options \<Rightarrow> g_profile \<Rightarrow> g2d_outcome + g_profile \<Rightarrow> bool" where
  leaf_none: "opt_leaf opts = [] \<Longrightarrow> leaf_stage env opts p (Inr p)"
| leaf_missing: "opt_leaf opts \<noteq> [] \<Longrightarrow> getFunctionIds (env_fnmatch env) p (opt_leaf opts) = [] \<Longrightarrow>
    leaf_stage env opts p (Inl (SysExit 1))"
| leaf_pruned: "opt_leaf opts \<noteq> [] \<Longrightarrow> getFunctionIds (env_fnmatch env) p (opt_leaf opts) = ids \<Longrightarrow> ids \<noteq> [] \<Longrightarrow>
    prune_leaf p ids (opt_depth opts) p' \<Longrightarrow> leaf_stage env opts p (Inr p')"

text \<open>The part of \<open>main\<close> after the pruning, and a whole run.\<close>

inductive g2d_back :: "g2d_env \<Rightarrow> g2d_options \<Rightarrow> g2d_state \<Rightarrow> py_error + g2d_outcome \<Rightarrow> bool" where
  back_root_error: "root_stage env opts p (Inl e) \<Longrightarrow> g2d_back env opts (th, evs, p) (Inl e)"
| back_root_exit: "root_stage env opts p (Inr (Inl out)) \<Longrightarrow> g2d_back env opts (th, evs, p) (Inr out)"
| back_leaf_exit: "root_stage env opts p (Inr (Inr p1)) \<Longrightarrow> leaf_stage env opts p1 (Inl out) \<Longrightarrow>
    g2d_back env opts (th, evs, p) (Inr out)"
| back_graph: "root_stage env opts p (Inr (Inr p1)) \<Longrightarrow> leaf_stage env opts p1 (Inr p2) \<Longrightarrow>
    g2d_back env opts (th, evs, p) (map_sum id DotOut (dot_graph (env_text env) evs p2 th))"

inductive g2d_main :: "g2d_env \<Rightarrow> g2d_options \<Rightarrow> string list \<Rightarrow> string \<Rightarrow> py_error + g2d_outcome \<Rightarrow> bool" where
  main_error: "\<not> opt_strip opts \<Longrightarrow> \<not> opt_wrap opts \<Longrightarrow> g2d_front env opts args input = Some (Inl e) \<Longrightarrow>
    g2d_main env opts args input (Inl e)"
| main_exit: "\<not> opt_strip opts \<Longrightarrow> \<not> opt_wrap opts \<Longrightarrow> g2d_front env opts args input = Some (Inr (Inl out)) \<Longrightarrow>
    g2d_main env opts args input (Inr out)"
| main_run: "\<not> opt_strip opts \<Longrightarrow> \<not> opt_wrap opts \<Longrightarrow> g2d_front env opts args input = Some (Inr (Inr s)) \<Longrightarrow>
    g2d_back env opts s r \<Longrightarrow> g2d_main env opts args input r"

text \<open>The options \<^verbatim>\<open>src/modeling.py\<close> passes: \<open>-f perf -n0 -e0\<close>.\<close>

definition tcsa_g2d_options :: g2d_options where
  "tcsa_g2d_options = default_options\<lparr>opt_format := ''perf'', opt_node_thres := 0, opt_edge_thres := 0\<rparr>"

text \<open>Two functions of the same name in different modules.\<close>

definition ex_same_name :: g_profile where
  "ex_same_name = new_profile\<lparr>prof_functions :=
     [(''f:liba.so'', new_function ''f:liba.so'' ''f''), (''f:libb.so'', new_function ''f:libb.so'' ''f''),
      (''g:app'', new_function ''g:app'' ''g'')]\<rparr>"

text \<open>An environment for the examples: the identity for \<open>integrate\<close>, names matched
  literally, two-decimal float text, no other parser.\<close>

definition ex_env :: g2d_env where
  "ex_env = \<lparr>env_text = \<lparr>ft_f2 = \<lambda>x. ''0.00'', ft_str = \<lambda>x. ''0.0''\<rparr>, env_fnmatch = (=),
             env_integrate = Inr, env_other_parser = \<lambda>fmt args input. None\<rparr>"

inductive_cases root_stage_InrE: "root_stage env opts p (Inr (Inr p1))"
inductive_cases leaf_stage_InrE: "leaf_stage env opts p (Inr p2)"
inductive_simps root_stage_simps: "root_stage env opts p r"
inductive_simps leaf_stage_simps: "leaf_stage env opts p r"
inductive_simps g2d_back_simps: "g2d_back env opts s r"
inductive_simps g2d_main_simps: "g2d_main env opts args input r"

section \<open>\<open>getFunctionIds\<close>\<close>

lemma map_of_fold_names:
  "map_of (fold (\<lambda>(k, v) names. AList.update (fn_name v) k names) fns acc) =
   map_of (rev (map (\<lambda>(k, f). (fn_name f, k)) fns) @ acc)"
  by (induction fns arbitrary: acc) (auto simp add: update_conv' map_of_append)

lemma distinct_fold_names:
  "distinct (map fst acc) \<Longrightarrow> distinct (map fst (fold (\<lambda>(k, v) names. AList.update (fn_name v) k names) fns acc))"
  by (induction fns arbitrary: acc) (auto simp add: distinct_update)

lemma function_names_last:
  "(nm, k) \<in> set (function_names p) \<longleftrightarrow> map_of (rev (map (\<lambda>(k, f). (fn_name f, k)) (prof_functions p))) nm = Some k"
proof -
  have d: "distinct (map fst (function_names p))" unfolding function_names_def by (rule distinct_fold_names) simp
  have "(nm, k) \<in> set (function_names p) \<longleftrightarrow> map_of (function_names p) nm = Some k"
    using map_of_is_SomeI[OF d] map_of_SomeD by metis
  then show ?thesis by (simp add: function_names_def map_of_fold_names)
qed

text \<open>C16 (getFunctionIds_last). \<open>getFunctionIds\<close> returns, for every function name that
  matches the pattern, the id of the last function of the profile with that name: the
  dict comprehension keeps one id per name, so of two functions with the same name (the
  same symbol in two modules) \<open>--root\<close> and \<open>--leaf\<close> select only the later one.\<close>

theorem getFunctionIds_last:
  "set (getFunctionIds fnmatch p pat) =
   {k. \<exists>nm. fnmatch nm pat \<and> map_of (rev (map (\<lambda>(k, f). (fn_name f, k)) (prof_functions p))) nm = Some k}"
  by (auto simp add: getFunctionIds_def function_names_last[symmetric] image_iff)

lemma getFunctionIds_same_name: "getFunctionIds (=) ex_same_name ''f'' = [''f:libb.so'']"
  by (simp add: getFunctionIds_def function_names_def ex_same_name_def new_profile_def new_function_def)

section \<open>The run \<^verbatim>\<open>src/modeling.py\<close> starts\<close>

lemma temperature_skew_one: "TEMPERATURE_COLORMAP\<lparr>th_skew := 1\<rparr> = TEMPERATURE_COLORMAP"
  by (simp add: TEMPERATURE_COLORMAP_def default_theme_def)

lemma g2d_front_tcsa:
  "g2d_front env tcsa_g2d_options [] input =
   map_option (\<lambda>r. py_then r (\<lambda>p. py_then (env_integrate env p) (\<lambda>p. py_then (prune p 0 0 []) (\<lambda>p'.
                  Inr (Inr (TEMPERATURE_COLORMAP, default_function_events, p'))))))
     (perf_parse_graph input)"
proof -
  have l: "py_map_all (\<lambda>l. case map_of labels l of None \<Rightarrow> Inl KeyError | Some ev \<Rightarrow> Inr ev) defaultLabelNames
           = Inr default_function_events"
    by (simp add: labels_def defaultLabelNames_def default_function_events_def)
  show ?thesis
    apply (simp add: g2d_front_def tcsa_g2d_options_def default_options_def themes_def formats_def
                     temperature_skew_one perf_parse_def option.map_comp comp_def py_then_def)
    apply (rule option.map_cong[OF refl])
    apply (auto simp add: g2d_setup_def l py_then_def split: sum.splits)
    done
qed

lemma g2d_back_plain:
  "opt_root opts = [] \<Longrightarrow> opt_leaf opts = [] \<Longrightarrow>
   g2d_back env opts (th, evs, p) r \<longleftrightarrow> r = map_sum id DotOut (dot_graph (env_text env) evs p th)"
  by (auto simp add: g2d_back_simps root_stage_simps leaf_stage_simps)

text \<open>The call chains of the example window of \<^verbatim>\<open>src/modeling.py\<close> parse.\<close>

lemma ex_window_parses: "\<exists>p. perf_parse_graph (gen_call_chains_input [ex_window_cicp]) = Some (Inr p)"
proof -
  have "case perf_parse_graph (gen_call_chains_input [ex_window_cicp]) of Some (Inr p) \<Rightarrow> True | _ \<Rightarrow> False"
    by code_simp
  then show ?thesis by (auto split: option.splits sum.splits)
qed

text \<open>C9 (perf_parse_graph_wf). Every profile the \<open>perf\<close> parser returns is well formed: its
  functions are stored under distinct keys, each under its own id, the calls of each
  function under distinct keys, each call under its callee's id, and every callee is a
  function of the profile.\<close>

theorem perf_parse_graph_wf:
  assumes "perf_parse_graph text = Some (Inr p)"
  shows "dict_wf p \<and> calls_keyed p \<and> calls_closed p"
proof -
  obtain p1 where "dict_wf p1 \<and> calls_keyed p1 \<and> calls_closed p1" "graph_shape p = graph_shape p1"
    using perf_parse_graph_validated[OF assms] by blast
  then show ?thesis using shape_keyed_closed shape_dict_wf by metis
qed

lemma perf_parse_graph_wf_witness:
  "\<exists>p. perf_parse_graph (gen_call_chains_input [ex_window_cicp]) = Some (Inr p) \<and>
       dict_wf p \<and> calls_keyed p \<and> calls_closed p"
proof -
  obtain p where p: "perf_parse_graph (gen_call_chains_input [ex_window_cicp]) = Some (Inr p)"
    using ex_window_parses by blast
  show ?thesis using p perf_parse_graph_wf[OF p] by blast
qed

text \<open>C8 (tcsa_gprof2dot_dot). The run \<^verbatim>\<open>src/modeling.py\<close> starts, \<open>gprof2dot -f perf -n0
  -e0\<close> with the call chains on stdin: whenever the perf parser returns a profile and
  \<open>integrate\<close> (not modelled) returns one with the same call graph, the run has exactly one
  outcome, and it is a DOT text.  The parser's \<open>validate\<close> is what makes the later
  lookups of \<open>prune\<close> and of the DOT writer safe.\<close>

theorem tcsa_gprof2dot_dot:
  assumes "perf_parse_graph input = Some (Inr p)" "env_integrate env p = Inr p1"
    "graph_shape p1 = graph_shape p"
  shows "\<exists>t. \<forall>r. g2d_main env tcsa_g2d_options [] input r \<longleftrightarrow> r = Inr (DotOut t)"
proof -
  have "calls_keyed p1 \<and> calls_closed p1"
    using perf_parse_graph_keyed_closed[OF assms(1)] shape_keyed_closed[OF assms(3)] by simp
  then obtain p' t where p': "prune p1 0 0 [] = Inr p'"
    and t: "dot_graph (env_text env) default_function_events p' TEMPERATURE_COLORMAP = Inr t"
    using prune_then_graph[of p1 TEMPERATURE_COLORMAP 0 0 "[]" "env_text env" default_function_events]
    by (auto simp add: TEMPERATURE_COLORMAP_def default_theme_def)
  have f: "g2d_front env tcsa_g2d_options [] input = Some (Inr (Inr (TEMPERATURE_COLORMAP, default_function_events, p')))"
    using assms(1,2) p' by (simp add: g2d_front_tcsa)
  have o: "\<not> opt_strip tcsa_g2d_options" "\<not> opt_wrap tcsa_g2d_options"
    "opt_root tcsa_g2d_options = []" "opt_leaf tcsa_g2d_options = []"
    by (simp_all add: tcsa_g2d_options_def default_options_def)
  show ?thesis using f o t by (auto simp add: g2d_main_simps g2d_back_plain)
qed

lemma tcsa_gprof2dot_dot_witness:
  "(\<exists>p. perf_parse_graph (gen_call_chains_input [ex_window_cicp]) = Some (Inr p) \<and>
        env_integrate ex_env p = Inr p \<and> graph_shape p = graph_shape p) \<and>
   (\<exists>t. \<forall>r. g2d_main ex_env tcsa_g2d_options [] (gen_call_chains_input [ex_window_cicp]) r \<longleftrightarrow> r = Inr (DotOut t))"
proof -
  obtain p where p: "perf_parse_graph (gen_call_chains_input [ex_window_cicp]) = Some (Inr p)"
    using ex_window_parses by blast
  have i: "env_integrate ex_env p = Inr p" by (simp add: ex_env_def)
  show ?thesis using p i tcsa_gprof2dot_dot[OF p i refl] by blast
qed

end
