(* ===== verification/Spec2Isabelle.thy ===== *)
theory Spec2Isabelle
  imports Subdivider CLI Ingestion Ingestion_Optimized Reporting G2D_Main
begin

text \<open>
  Verification development for TCSA, the thread contention analysis of perf call-stack
  samples in \<^verbatim>\<open>src/\<close>, and for the copy of gprof2dot it pipes its call chains into.

  \<^bold>\<open>The program.\<close>  \<^verbatim>\<open>src/main.py\<close> reads its arguments (\<open>input_argv\<close>), loads the
  text of \<^verbatim>\<open>perf script\<close> (\<^verbatim>\<open>src/timing.py\<close>, \<open>DataPreparation\<close>), and runs the
  analysis of \<^verbatim>\<open>src/filtering.py\<close>: samples are compressed into CICPs (runs of equal
  call-stack signature per thread), filtered, partitioned into time windows of
  concurrently active threads (TOCCs), split by execution mode, pruned by a duration
  threshold and recursively subdivided.  Every resulting window is handed to the report
  writers of \<^verbatim>\<open>src/modeling.py\<close>, which write a text report and the call chains piped to
  \<^verbatim>\<open>src/gprof2dot.py\<close>; gprof2dot parses them as perf output into a profile, finds its
  cycles, computes ratios, prunes it and writes a DOT graph under a colour theme.

  \<^bold>\<open>Theories.\<close>
  \<^item> \<open>TCSA_Prelude\<close>: Python built-ins (slicing, \<open>split\<close>, \<open>join\<close>, \<open>replace\<close>,
    \<open>startswith\<close>, \<open>readlines\<close>, indexing with \<open>IndexError\<close>), the error type \<open>py_error\<close>
    of the exceptions the code raises, \<open>py_then\<close>/\<open>py_map_all\<close> for code that stops at
    the first exception, and shared list lemmas.  \<open>Py_Numbers\<close>: \<open>int()\<close>, \<open>float()\<close>,
    \<open>str()\<close> on integers.  \<open>Py_Regex\<close>: a backtracking matcher for the regular
    expressions the parsers use (greedy and lazy repetition, named groups).
  \<^item> \<open>Signature\<close>, \<open>Compressor\<close>, \<open>Quality_Filter\<close>, \<open>Partitioner\<close>, \<open>Exec_Mode\<close>,
    \<open>Pruner\<close>, \<open>Subdivider\<close>: the stages of \<^verbatim>\<open>src/filtering.py\<close>, one theory each, with
    pandas frames as lists of records and \<open>df.loc\<close>, \<open>groupby\<close>, \<open>sort_values\<close> (a
    stable sort) written out.  The sweep of \<open>divide_TOCC_optimized\<close> is a step function
    folded over the sorted START/END events, with its invariant proved per step.
  \<^item> \<open>CLI\<close>, \<open>Ingestion\<close>, \<open>Ingestion_Optimized\<close>: \<open>input_argv\<close>, \<open>data_loading\<close> as a
    step function over \<open>readlines()\<close>, \<open>data_processing\<close>, and the unused optimised
    loader with its header regular expression.
  \<^item> \<open>Reporting\<close>: \<open>gen_call_chains\<close> and \<open>output_result_file\<close> of \<^verbatim>\<open>src/modeling.py\<close>.
  \<^item> \<open>G2D_Profile\<close>, \<open>G2D_Tarjan\<close>, \<open>G2D_Perf\<close>: gprof2dot's events, calls, functions,
    cycles and profile (dicts as association lists that keep insertion order),
    \<open>validate\<close>, \<open>aggregate\<close>, \<open>ratio\<close>, \<open>call_ratios\<close>, Tarjan's cycle search as a
    \<open>partial_function (option)\<close> over an explicit work list, and the perf parser.
  \<^item> \<open>G2D_Theme\<close>, \<open>G2D_Dot\<close>, \<open>G2D_Prune\<close>, \<open>G2D_Subtree\<close>: the colour themes, the DOT
    writer (escaping, identifiers, attribute lists, colours, the graph text), \<open>prune\<close>,
    and \<open>prune_root\<close>/\<open>prune_leaf\<close>, whose set-based frontier loop is an inductive step
    relation in which any element may be popped.
  \<^item> \<open>G2D_Shape\<close>: the shape of a call graph (keys and callee ids) and what the perf
    parser guarantees of it: the parse keeps its association lists dict-like, \<open>validate\<close>
    leaves every call keyed by its callee and leading to a function, and the passes
    after it keep the shape.
  \<^item> \<open>G2D_Main\<close>: gprof2dot's \<open>main\<close> after \<open>optparse\<close>: the options as a record with
    their defaults, the theme and its skew, the \<open>formats\<close> table, the total-time method
    of the perf parser, the shown labels, pruning, \<open>--list-functions\<close>, \<open>getFunctionIds\<close>
    and \<open>--root\<close>/\<open>--leaf\<close>, and the graph.  Because \<open>prune_root\<close>/\<open>prune_leaf\<close> are
    relations, a run of \<open>main\<close> is the relation \<open>g2d_main\<close> between the options, the
    arguments, the input text and the outcome (an exception, an \<open>optparser.error\<close>, an
    exit status or the DOT text); \<open>tcsa_g2d_options\<close> are the options
    \<^verbatim>\<open>src/modeling.py\<close> passes.
  \<^item> This theory: the pipeline of \<^verbatim>\<open>src/main.py\<close> (\<open>tcsa_pipeline\<close>, \<open>tcsa_main\<close>) and the
    properties that span stages.

  \<^bold>\<open>What is shown.\<close>  Each theory ends with the properties of its component: the window
  invariant of the partitioner (every TOCC holds at least two threads) and the order of
  the sorted START/END events, the run structure of the compressor, the partition done by
  the classifier, the refinement of the numeric address contract by the string
  comparison, the loader (loading what perf prints gives its samples back; a last sample
  without its blank line is lost), DOT colours read back as their bytes and DOT
  identifiers as Graphviz's lexer reads them (\<open>dot_read_id\<close>, a reader of the DOT
  language written from Graphviz's lexer, not from \<^verbatim>\<open>src/\<close>), error behaviour (which
  inputs raise and which exception), termination of Tarjan's search and of the pruning
  loops, the bounds of the theme colours, the invariant that \<open>prune\<close> leaves only calls
  between kept functions, the well-formedness of what the perf parser returns, and the
  composition of the whole gprof2dot run \<^verbatim>\<open>src/modeling.py\<close> starts: parse, prune and
  write, with exactly one outcome, a DOT text.  Several properties record behaviour that
  differs from what the code or its comments intend; PROJECT.json lists them as
  findings.  Lemmas that evaluate the model on one input (the scenarios of the spec, the
  examples behind some findings) are kept as examples beside the properties.

  \<^bold>\<open>Termination and fuel.\<close>  Structural recursion is \<open>fun\<close>/\<open>primrec\<close>; loops that consume
  input are \<open>function\<close>s with a measure (line readers, the perf event loop).  Tarjan's
  search is a \<open>partial_function (option)\<close> proved to return on every profile by
  well-founded induction on the number of unvisited functions.  The frontier loops of
  \<open>prune_root\<close>/\<open>prune_leaf\<close> are relations; their steps are proved well founded.  No
  fuel is used.

  \<^bold>\<open>Not modelled.\<close>  File and process I/O (the file text is a parameter, subprocess
  calls and \<open>os.makedirs\<close> are left out); the text of floats (\<open>"%.2f"\<close>, \<open>str(x)\<close>) is a
  parameter of the writers; the order of Python set iteration is modelled as a sorted
  list or as the profile's order where it cannot reach the output; rounding of floats
  (reals are used).  In gprof2dot: \<open>integrate\<close> (the default total-time propagation;
  a parameter of \<open>main\<close>, and the end-to-end property assumes it keeps the call graph),
  the parsers other than perf (a parameter), \<open>fnmatch\<close> (a parameter), the
  \<open>--strip\<close>/\<open>--wrap\<close> name rewriting (runs with them are not in \<open>g2d_main\<close>),
  \<open>optparse\<close> itself (its \<open>choices\<close> make the table lookups of \<open>main\<close> total in
  practice; the model keeps their error branches) and \<open>printFunctionIds\<close>.  The matplotlib timing graph of \<^verbatim>\<open>src/modeling.py\<close>.
\<close>

section \<open>The pipeline of main.py\<close>

text \<open>\<^verbatim>\<open>src/main.py\<close> lines 82--91: compress, filter, partition, classify, prune and
  subdivide; an exception of any stage ends the run.\<close>

definition tcsa_pipeline :: "sample list \<Rightarrow> int \<Rightarrow> int \<Rightarrow> int \<Rightarrow> py_error + cicp list list list" where
  "tcsa_pipeline timing_call_stacks_data degrees_of_freedom direction threshold =
     (case identify_consecutive_identical_call_stacks_parallel
             timing_call_stacks_data degrees_of_freedom direction of
        Inl e \<Rightarrow> Inl e
      | Inr records_df \<Rightarrow>
          (let records_df = filtering_operation records_df;
               tocc_df_list = divide_TOCC_optimized records_df
           in case distinguish_execution_mode tocc_df_list of
                Inl e \<Rightarrow> Inl e
              | Inr tocc_df_list \<Rightarrow>
                  (let tocc_df_list_pruning = duration_threshold_setting tocc_df_list threshold
                   in Inr (divide_subTOCC tocc_df_list_pruning))))"

definition empty_stack_trace :: "sample list" where
  "empty_stack_trace =
     [(ex_sample 0 1 '''')\<lparr>smp_call_stack := []\<rparr>, (ex_sample (1/2) 2 '''')\<lparr>smp_call_stack := []\<rparr>,
      (ex_sample 1 1 '''')\<lparr>smp_call_stack := []\<rparr>, (ex_sample (3/2) 2 '''')\<lparr>smp_call_stack := []\<rparr>]"

text \<open>\<^verbatim>\<open>src/main.py\<close> lines 106--114: one report task per subTOCC, kernel list first,
  named \<open>res_1\<close>, \<open>res_2\<close>, ... in that order.\<close>

fun tasks_loop :: "string \<Rightarrow> nat \<Rightarrow> cicp list list \<Rightarrow> (string \<times> string \<times> cicp list) list" where
  "tasks_loop output_file_path num [] = []"
| "tasks_loop output_file_path num (each_df # dfs) =
     (output_file_path, ''res_'' @ py_str_int (int num), each_df) # tasks_loop output_file_path (num + 1) dfs"

definition report_tasks :: "string \<Rightarrow> cicp list list list \<Rightarrow> (string \<times> string \<times> cicp list) list" where
  "report_tasks output_file_path subTocc_df_list = tasks_loop output_file_path 1 (concat subTocc_df_list)"

text \<open>\<^verbatim>\<open>src/main.py\<close> lines 62--114: the arguments, the trace loaded from the text of the
  input file, the pipeline, and the list of report tasks handed to the parallel writers.
  Reading the file, creating the output directory, the timing prints and the report
  writers themselves are I/O and not part of the model; the file's text is a parameter.\<close>

definition tcsa_main :: "string list \<Rightarrow> string \<Rightarrow> py_error + (string \<times> string \<times> cicp list) list" where
  "tcsa_main argv perf_text =
     py_then (input_argv argv) (\<lambda>(input_file_path, output_file_path, direction, degrees_of_freedom, threshold).
       py_then (data_loading perf_text) (\<lambda>raw_data.
         py_then (data_processing raw_data) (\<lambda>timing_call_stacks_data.
           py_then (tcsa_pipeline timing_call_stacks_data degrees_of_freedom direction threshold)
             (\<lambda>subTocc_df_list. Inr (report_tasks output_file_path subTocc_df_list)))))"

definition no_callchain_trace :: string where
  "no_callchain_trace =
     perf_script [ex_perf_event 1 ''0.0'' [], ex_perf_event 2 ''0.5'' [],
                  ex_perf_event 1 ''1.0'' [], ex_perf_event 2 ''1.5'' []]"

lemma tcsa_pipeline_rows:
  assumes "tcsa_pipeline samples dof dir thr = Inr res" "ws \<in> set res" "w \<in> set ws"
  obtains recs g where
    "identify_consecutive_identical_call_stacks_parallel samples dof dir = Inr recs"
    "w \<in> set (divide_TOCC g)" "set g \<subseteq> set recs"
proof -
  obtain recs pairs where
    r: "identify_consecutive_identical_call_stacks_parallel samples dof dir = Inr recs" and
    p: "distinguish_execution_mode (divide_TOCC_optimized (filtering_operation recs)) = Inr pairs" and
    res: "res = divide_subTOCC (duration_threshold_setting pairs thr)"
    using assms(1) by (auto simp add: tcsa_pipeline_def Let_def split: sum.splits)
  obtain gs g where gs: "gs \<in> set (duration_threshold_setting pairs thr)" and g: "g \<in> set gs"
    and w: "w \<in> set (divide_TOCC g)"
    using divide_subTOCC_member[OF _ assms(3)] assms(2) res by blast
  obtain q where q: "q \<in> set pairs" and gq: "set g \<subseteq> set (fst q) \<or> set g \<subseteq> set (snd q)"
    using duration_threshold_setting_subset[OF gs g] by blast
  obtain df where df: "df \<in> set (divide_TOCC_optimized (filtering_operation recs))"
    and qdf: "set (fst q) \<subseteq> set df" "set (snd q) \<subseteq> set df"
    using distinguish_execution_mode_parts[OF p q] by blast
  have "set df \<subseteq> set recs"
    using divide_TOCC_optimized_subset[OF df] filtering_operation_subset by blast
  with gq qdf have "set g \<subseteq> set recs" by blast
  with r w show ?thesis by (rule that)
qed

text \<open>C1 (tcsa_pipeline_two_threads). For a trace whose samples come in strictly
  increasing time within each thread, every subTOCC that the pipeline reports holds
  CICPs of at least two distinct threads (spec section 8, first property, for the
  windows main.py passes to the reports).\<close>

theorem tcsa_pipeline_two_threads:
  assumes "samples_time_ordered samples"
    and "tcsa_pipeline samples dof dir thr = Inr res" "ws \<in> set res" "w \<in> set ws"
  shows "2 \<le> card (tid ` set w)"
proof -
  obtain recs g where r: "identify_consecutive_identical_call_stacks_parallel samples dof dir = Inr recs"
    and w: "w \<in> set (divide_TOCC g)" and g: "set g \<subseteq> set recs"
    using tcsa_pipeline_rows[OF assms(2-4)] by blast
  have "thread_ordered g"
    using thread_ordered_subset[OF identify_parallel_thread_ordered[OF r assms(1)] g] .
  then show ?thesis using divide_TOCC_two_threads w by blast
qed


theorem tcsa_pipeline_two_threads_witness:
  "samples_time_ordered example_trace \<and>
   tcsa_pipeline example_trace (-1) 0 (-1) = Inr (projr (tcsa_pipeline example_trace (-1) 0 (-1))) \<and>
   projr (tcsa_pipeline example_trace (-1) 0 (-1)) ! 1 \<in> set (projr (tcsa_pipeline example_trace (-1) 0 (-1))) \<and>
   hd (projr (tcsa_pipeline example_trace (-1) 0 (-1)) ! 1) \<in> set (projr (tcsa_pipeline example_trace (-1) 0 (-1)) ! 1) \<and>
   2 \<le> card (tid ` set (hd (projr (tcsa_pipeline example_trace (-1) 0 (-1)) ! 1)))"
proof -
  let ?R = "projr (tcsa_pipeline example_trace (-1) 0 (-1))"
  have o: "samples_time_ordered example_trace"
    by (simp add: samples_time_ordered_def example_trace_def ex_sample_def)
  have r: "tcsa_pipeline example_trace (-1) 0 (-1) = Inr ?R" by code_simp
  have l: "length ?R = 2" by code_simp
  have n: "?R ! 1 \<noteq> []" by code_simp
  have m1: "?R ! 1 \<in> set ?R" using l by simp
  have m2: "hd (?R ! 1) \<in> set (?R ! 1)" using n by simp
  show ?thesis using o r m1 m2 tcsa_pipeline_two_threads[OF o r m1 m2] by blast
qed

text \<open>On the example trace (two threads, each
  compressed into one CICP labelled 0 by its own \<open>RangeIndex\<close>), the pipeline reports a
  single user-mode subTOCC that lists each of the two CICPs twice: \<open>df.loc[[0, 0]]\<close> in
  \<open>divide_TOCC_optimized\<close> selects both rows of label 0 once per occurrence of the
  label.\<close>

theorem tcsa_pipeline_duplicate_rows:
  "tcsa_pipeline example_trace (-1) 0 (-1) = Inr (projr (tcsa_pipeline example_trace (-1) 0 (-1))) \<and>
   projr (tcsa_pipeline example_trace (-1) 0 (-1)) ! 0 = [] \<and>
   length (projr (tcsa_pipeline example_trace (-1) 0 (-1)) ! 1) = 1 \<and>
   length (hd (projr (tcsa_pipeline example_trace (-1) 0 (-1)) ! 1)) = 4 \<and>
   card (set (hd (projr (tcsa_pipeline example_trace (-1) 0 (-1)) ! 1))) = 2"
proof -
  let ?R = "projr (tcsa_pipeline example_trace (-1) 0 (-1))"
  have "tcsa_pipeline example_trace (-1) 0 (-1) = Inr ?R" by code_simp
  moreover have "?R ! 0 = []" by code_simp
  moreover have "length (?R ! 1) = 1" by code_simp
  moreover have "length (hd (?R ! 1)) = 4" by code_simp
  moreover have "card (set (hd (?R ! 1))) = 2" by code_simp
  ultimately show ?thesis by blast
qed

text \<open>The run fails on an empty trace, with the
  \<open>ValueError\<close> of \<open>pd.concat([])\<close>, and on a trace whose samples have empty call
  stacks, with the \<open>IndexError\<close> of the classifier, although the design lets a sample's
  call stack be empty.\<close>

theorem tcsa_pipeline_errors:
  "tcsa_pipeline [] dof dir thr = Inl ValueError \<and>
   tcsa_pipeline empty_stack_trace (-1) 0 (-1) = Inl IndexError"
proof
  show "tcsa_pipeline [] dof dir thr = Inl ValueError"
    by (simp add: tcsa_pipeline_def identify_parallel_eq)
  show "tcsa_pipeline empty_stack_trace (-1) 0 (-1) = Inl IndexError"
    by code_simp
qed

definition example_events :: "perf_event list" where
  "example_events =
     [ex_perf_event 1 ''0.0'' [''0x2 lock'', ''0x1 main''], ex_perf_event 2 ''0.5'' [''0x2 lock'', ''0x1 main''],
      ex_perf_event 1 ''1.0'' [''0x2 lock'', ''0x1 main''], ex_perf_event 2 ''1.5'' [''0x2 lock'', ''0x1 main''],
      ex_perf_event 1 ''2.0'' [''0x3 work'', ''0x1 main'']]"

definition ex_loaded_sample :: "real \<Rightarrow> int \<Rightarrow> string \<Rightarrow> sample" where
  "ex_loaded_sample t i f =
     \<lparr>smp_timestamp = t, smp_command = ''java'', smp_tid = i, smp_cpu = 0, smp_event = ''250000'',
      smp_call_stack = [''0x1 main'', f], smp_top_function = ''0x1 main'', smp_function_call_stack = '';''\<rparr>"

definition example_samples :: "sample list" where
  "example_samples =
     [ex_loaded_sample 0 1 ''0x2 lock'', ex_loaded_sample (1/2) 2 ''0x2 lock'', ex_loaded_sample 1 1 ''0x2 lock'',
      ex_loaded_sample (3/2) 2 ''0x2 lock'', ex_loaded_sample 2 1 ''0x3 work'']"

definition example_argv :: "string list" where
  "example_argv = [''main.py'', ''perf_data.txt'', ''result'']"

lemma tasks_loop_names:
  "map (fst \<circ> snd) (tasks_loop p num dfs) = map (\<lambda>k. ''res_'' @ py_str_int (int k)) [num..<num + length dfs]"
  by (induction dfs arbitrary: num) (simp_all del: upt_Suc add: upt_conv_Cons)

lemma tasks_loop_length: "length (tasks_loop p num dfs) = length dfs"
  by (induction dfs arbitrary: num) simp_all

lemma tasks_loop_member: "t \<in> set (tasks_loop p num dfs) \<Longrightarrow> fst t = p \<and> snd (snd t) \<in> set dfs"
  by (induction dfs arbitrary: num) auto

lemma py_str_int_nat_inj: "py_str_int (int a) = py_str_int (int b) \<Longrightarrow> a = b"
proof -
  assume "py_str_int (int a) = py_str_int (int b)"
  then have "nat_digits a = nat_digits b" by (simp add: py_str_int_def)
  then show "a = b" by (metis py_digits_nat_digits option.inject)
qed

lemma tcsa_main_steps:
  assumes "tcsa_main argv perf_text = Inr tasks"
  obtains inp outp direction dof thr raw samples subs where
    "input_argv argv = Inr (inp, outp, direction, dof, thr)"
    "data_loading perf_text = Inr raw" "data_processing raw = Inr samples"
    "tcsa_pipeline samples dof direction thr = Inr subs" "tasks = report_tasks outp subs"
  using assms by (auto simp add: tcsa_main_def py_then_def split: sum.splits prod.splits)

lemma example_events_wf: "list_all perf_event_wf example_events"
  using perf_token_nat_digits[of 1] perf_token_nat_digits[of 2]
  by (simp add: example_events_def perf_event_wf_def ex_perf_event_def perf_token_def py_word_def py_isspace_def)

lemma example_loaded: "data_loading (perf_script example_events) = Inr (map row_of_event example_events)"
proof -
  have "fields_clear loader_init" by (simp add: fields_clear_def loader_init_def)
  then show ?thesis
    using load_lines_events[OF example_events_wf] py_readlines_perf_script[OF example_events_wf]
    by (simp add: data_loading_def loader_init_def)
qed

lemma example_processed: "data_processing (map row_of_event example_events) = Inr example_samples"
  by code_simp

lemma example_args: "input_argv example_argv = Inr (''perf_data.txt'', ''result'', 0, -1, -1)"
  by code_simp

lemma example_main:
  "tcsa_main example_argv (perf_script example_events) =
     Inr (report_tasks ''result'' (projr (tcsa_pipeline example_samples (-1) 0 (-1))))"
proof -
  have "tcsa_pipeline example_samples (-1) 0 (-1) = Inr (projr (tcsa_pipeline example_samples (-1) 0 (-1)))"
    by code_simp
  then obtain R where R: "tcsa_pipeline example_samples (-1) 0 (-1) = Inr R" by blast
  show ?thesis using example_args R example_loaded example_processed by (simp add: tcsa_main_def)
qed

lemma example_tasks_nonempty: "report_tasks ''result'' (projr (tcsa_pipeline example_samples (-1) 0 (-1))) \<noteq> []"
  by code_simp

text \<open>C2 (tcsa_main_two_threads). End to end: when the trace main.py reads converts into
  samples that increase strictly in time within each thread, every report task main.py
  creates is for a window holding CICPs of at least two distinct threads.\<close>

theorem tcsa_main_two_threads:
  assumes "tcsa_main argv perf_text = Inr tasks"
    and "data_loading perf_text = Inr raw" "data_processing raw = Inr samples"
    and "samples_time_ordered samples" "task \<in> set tasks"
  shows "2 \<le> card (tid ` set (snd (snd task)))"
proof -
  obtain inp outp direction dof thr raw' samples' subs where
    "input_argv argv = Inr (inp, outp, direction, dof, thr)"
    "data_loading perf_text = Inr raw'" "data_processing raw' = Inr samples'" and
    p: "tcsa_pipeline samples' dof direction thr = Inr subs" and t: "tasks = report_tasks outp subs"
    by (rule tcsa_main_steps[OF assms(1)])
  with assms(2,3) have p: "tcsa_pipeline samples dof direction thr = Inr subs" by simp
  have "snd (snd task) \<in> set (concat subs)"
    using tasks_loop_member[of task outp 1 "concat subs"] assms(5) t by (simp add: report_tasks_def)
  then obtain ws where ws: "ws \<in> set subs" "snd (snd task) \<in> set ws" by auto
  obtain recs g where r: "identify_consecutive_identical_call_stacks_parallel samples dof direction = Inr recs"
    and w: "snd (snd task) \<in> set (divide_TOCC g)" and g: "set g \<subseteq> set recs"
    using tcsa_pipeline_rows[OF p ws] by blast
  have "thread_ordered g"
    using thread_ordered_subset[OF identify_parallel_thread_ordered[OF r assms(4)] g] .
  then show ?thesis using divide_TOCC_two_threads w by blast
qed

text \<open>Every report task of a run writes into the output
  directory given as the second argument, and the tasks are named \<open>res_1\<close>, \<open>res_2\<close>, ...
  in order, so no two reports of a run overwrite each other.\<close>

theorem tcsa_main_report_names:
  assumes "tcsa_main argv perf_text = Inr tasks"
    and "input_argv argv = Inr (inp, outp, direction, dof, thr)"
  shows "map (fst \<circ> snd) tasks = map (\<lambda>k. ''res_'' @ py_str_int (int k)) [1..<length tasks + 1] \<and>
         distinct (map (fst \<circ> snd) tasks) \<and> list_all (\<lambda>t. fst t = outp) tasks"
proof -
  obtain inp' outp' direction' dof' thr' raw samples subs where
    "input_argv argv = Inr (inp', outp', direction', dof', thr')"
    "data_loading perf_text = Inr raw" "data_processing raw = Inr samples"
    "tcsa_pipeline samples dof' direction' thr' = Inr subs" and t: "tasks = report_tasks outp' subs"
    by (rule tcsa_main_steps[OF assms(1)])
  with assms(2) have t: "tasks = tasks_loop outp 1 (concat subs)" by (simp add: report_tasks_def)
  have n: "map (fst \<circ> snd) tasks = map (\<lambda>k. ''res_'' @ py_str_int (int k)) [1..<length tasks + 1]"
    using tasks_loop_names[of outp 1 "concat subs"] by (simp add: t tasks_loop_length)
  have "distinct (map (\<lambda>k. ''res_'' @ py_str_int (int k)) [1..<length tasks + 1])"
    by (auto simp add: distinct_map inj_on_def dest: py_str_int_nat_inj)
  then have "distinct (map (fst \<circ> snd) tasks)" by (simp only: n)
  moreover have "list_all (\<lambda>t. fst t = outp) tasks"
    using tasks_loop_member by (auto simp add: t list_all_iff)
  ultimately show ?thesis using n by blast
qed

text \<open>A trace recorded without call chains (perf record
  without \<open>-g\<close>) loads, every sample with an empty call stack, and main.py then stops
  with IndexError when it classifies the windows.\<close>

theorem tcsa_main_no_callchain:
  "tcsa_main example_argv no_callchain_trace = Inl IndexError"
  by code_simp

theorem tcsa_main_two_threads_witness:
  "tcsa_main example_argv (perf_script example_events) =
     Inr (report_tasks ''result'' (projr (tcsa_pipeline example_samples (-1) 0 (-1)))) \<and>
   data_loading (perf_script example_events) = Inr (map row_of_event example_events) \<and>
   data_processing (map row_of_event example_events) = Inr example_samples \<and>
   samples_time_ordered example_samples \<and>
   hd (report_tasks ''result'' (projr (tcsa_pipeline example_samples (-1) 0 (-1)))) \<in>
     set (report_tasks ''result'' (projr (tcsa_pipeline example_samples (-1) 0 (-1)))) \<and>
   2 \<le> card (tid ` set (snd (snd (hd (report_tasks ''result'' (projr (tcsa_pipeline example_samples (-1) 0 (-1))))))))"
proof -
  let ?T = "report_tasks ''result'' (projr (tcsa_pipeline example_samples (-1) 0 (-1)))"
  have o: "samples_time_ordered example_samples"
    by (simp add: samples_time_ordered_def example_samples_def ex_loaded_sample_def)
  have h: "hd ?T \<in> set ?T" using example_tasks_nonempty by simp
  show ?thesis
    using tcsa_main_two_threads[OF example_main example_loaded example_processed o h]
          example_main example_loaded example_processed o h by blast
qed

theorem tcsa_main_report_names_witness:
  "tcsa_main example_argv (perf_script example_events) =
     Inr (report_tasks ''result'' (projr (tcsa_pipeline example_samples (-1) 0 (-1)))) \<and>
   input_argv example_argv = Inr (''perf_data.txt'', ''result'', 0, -1, -1) \<and>
   map (fst \<circ> snd) (report_tasks ''result'' (projr (tcsa_pipeline example_samples (-1) 0 (-1)))) =
     map (\<lambda>k. ''res_'' @ py_str_int (int k))
       [1..<length (report_tasks ''result'' (projr (tcsa_pipeline example_samples (-1) 0 (-1)))) + 1] \<and>
   distinct (map (fst \<circ> snd) (report_tasks ''result'' (projr (tcsa_pipeline example_samples (-1) 0 (-1))))) \<and>
   list_all (\<lambda>t. fst t = ''result'') (report_tasks ''result'' (projr (tcsa_pipeline example_samples (-1) 0 (-1))))"
  using tcsa_main_report_names[OF example_main example_args] example_main example_args by blast

end
